theory Spec2Isabelle
  imports Main
begin

section \<open>Python values used by \<^verbatim>\<open>validate_deployment.py\<close>\<close>

text \<open>
  The script talks to a REST API through the \<^verbatim>\<open>requests\<close> library and works on the
  parsed JSON replies with built-in operations (\<^verbatim>\<open>in\<close>, \<^verbatim>\<open>[]\<close>, \<^verbatim>\<open>.get\<close>, \<^verbatim>\<open>for\<close>,
  truthiness). A parsed reply is a value of \<open>json\<close>; \<open>JNull\<close> is Python's \<^verbatim>\<open>None\<close>, and
  a \<open>JDict\<close> is a Python dict in insertion order (its keys are distinct, \<open>map_of\<close> looks a
  key up). Strings are byte strings in UTF-8; floating-point numbers are left out.
\<close>

datatype json =
    JNull
  | JBool bool
  | JInt int
  | JStr string
  | JList "json list"
  | JDict "(string \<times> json) list"

text \<open>Exceptions that the script does not catch (raised by built-in operations, or by file output).\<close>

datatype py_error =
    TypeError
  | AttributeError
  | KeyError string
  | OSError string

text \<open>Truthiness of a value, as \<^verbatim>\<open>if response:\<close> reads it.\<close>

fun truthy :: "json \<Rightarrow> bool" where
  "truthy JNull = False"
| "truthy (JBool b) = b"
| "truthy (JInt i) = (i \<noteq> 0)"
| "truthy (JStr s) = (s \<noteq> [])"
| "truthy (JList xs) = (xs \<noteq> [])"
| "truthy (JDict kvs) = (kvs \<noteq> [])"

fun startswith :: "string \<Rightarrow> string \<Rightarrow> bool" where
  "startswith s p = (take (length p) s = p)"

fun substring :: "string \<Rightarrow> string \<Rightarrow> bool" where
  "substring p [] = (p = [])"
| "substring p (c # cs) = (startswith (c # cs) p \<or> substring p cs)"

text \<open>\<^verbatim>\<open>key in v\<close>: key membership for a dict, element membership for a list, substring test
  for a string, \<^verbatim>\<open>TypeError\<close> for \<^verbatim>\<open>None\<close>, a bool or a number.\<close>

fun py_in :: "string \<Rightarrow> json \<Rightarrow> py_error + bool" where
  "py_in k (JDict kvs) = Inr (k \<in> set (map fst kvs))"
| "py_in k (JList xs) = Inr (JStr k \<in> set xs)"
| "py_in k (JStr s) = Inr (substring k s)"
| "py_in k JNull = Inl TypeError"
| "py_in k (JBool b) = Inl TypeError"
| "py_in k (JInt i) = Inl TypeError"

text \<open>\<^verbatim>\<open>v and key in v\<close> as the condition of an \<^verbatim>\<open>if\<close>: a falsy \<open>v\<close> short-circuits.\<close>

definition truthy_and_in :: "json \<Rightarrow> string \<Rightarrow> py_error + bool" where
  "truthy_and_in v k = (if truthy v then py_in k v else Inr False)"

text \<open>\<^verbatim>\<open>v[key]\<close> with a string key.\<close>

fun py_getitem :: "json \<Rightarrow> string \<Rightarrow> py_error + json" where
  "py_getitem (JDict kvs) k = (case map_of kvs k of None \<Rightarrow> Inl (KeyError k) | Some x \<Rightarrow> Inr x)"
| "py_getitem JNull k = Inl TypeError"
| "py_getitem (JBool b) k = Inl TypeError"
| "py_getitem (JInt i) k = Inl TypeError"
| "py_getitem (JStr s) k = Inl TypeError"
| "py_getitem (JList xs) k = Inl TypeError"

text \<open>\<^verbatim>\<open>v.get(key)\<close>: only a dict has the method; a missing key gives \<^verbatim>\<open>None\<close>.\<close>

fun py_get :: "json \<Rightarrow> string \<Rightarrow> py_error + json" where
  "py_get (JDict kvs) k = Inr (case map_of kvs k of None \<Rightarrow> JNull | Some x \<Rightarrow> x)"
| "py_get JNull k = Inl AttributeError"
| "py_get (JBool b) k = Inl AttributeError"
| "py_get (JInt i) k = Inl AttributeError"
| "py_get (JStr s) k = Inl AttributeError"
| "py_get (JList xs) k = Inl AttributeError"

text \<open>\<^verbatim>\<open>for x in v\<close>: the elements of a list, the keys of a dict, the characters of a string
  (here: its bytes, each a one-character string).\<close>

fun py_iter :: "json \<Rightarrow> py_error + json list" where
  "py_iter (JList xs) = Inr xs"
| "py_iter (JDict kvs) = Inr (map (\<lambda>kv. JStr (fst kv)) kvs)"
| "py_iter (JStr s) = Inr (map (\<lambda>c. JStr [c]) s)"
| "py_iter JNull = Inl TypeError"
| "py_iter (JBool b) = Inl TypeError"
| "py_iter (JInt i) = Inl TypeError"

text \<open>\<^verbatim>\<open>str(n)\<close> for the integers the script formats.\<close>

fun str_nat :: "nat \<Rightarrow> string" where
  "str_nat n = (if n < 10 then [''0123456789'' ! n]
                else str_nat (n div 10) @ [''0123456789'' ! (n mod 10)])"

definition str_int :: "int \<Rightarrow> string" where
  "str_int i = (if i < 0 then CHR ''-'' # str_nat (nat (- i)) else str_nat (nat i))"

text \<open>\<^verbatim>\<open>s.split(sep)\<close> for a one-character separator, \<^verbatim>\<open>s.rstrip('/')\<close>.\<close>

fun split_on :: "char \<Rightarrow> string \<Rightarrow> string list" where
  "split_on sep [] = [[]]"
| "split_on sep (c # cs) =
     (if c = sep then [] # split_on sep cs
      else (case split_on sep cs of [] \<Rightarrow> [[c]] | w # ws \<Rightarrow> (c # w) # ws))"

definition rstrip :: "char \<Rightarrow> string \<Rightarrow> string" where
  "rstrip ch s = rev (dropWhile (\<lambda>c. c = ch) (rev s))"

text \<open>The non-ASCII characters of the script's messages, as their UTF-8 bytes.\<close>

definition cross_mark :: string where
  "cross_mark = [CHR 0xE2, CHR 0x9D, CHR 0x8C]"

definition check_mark :: string where
  "check_mark = [CHR 0xE2, CHR 0x9C, CHR 0x85]"

definition warning_sign :: string where
  "warning_sign = [CHR 0xE2, CHR 0x9A, CHR 0xA0, CHR 0xEF, CHR 0xB8, CHR 0x8F]"

definition file_folder :: string where
  "file_folder = [CHR 0xF0, CHR 0x9F, CHR 0x93, CHR 0x81]"

definition gear :: string where
  "gear = [CHR 0xE2, CHR 0x9A, CHR 0x99, CHR 0xEF, CHR 0xB8, CHR 0x8F]"

definition fire :: string where
  "fire = [CHR 0xF0, CHR 0x9F, CHR 0x94, CHR 0xA5]"

definition magnifier :: string where
  "magnifier = [CHR 0xF0, CHR 0x9F, CHR 0x94, CHR 0x8D]"

definition bar_chart :: string where
  "bar_chart = [CHR 0xF0, CHR 0x9F, CHR 0x93, CHR 0x8A]"

definition page_facing_up :: string where
  "page_facing_up = [CHR 0xF0, CHR 0x9F, CHR 0x93, CHR 0x84]"

definition newline :: string where
  "newline = [CHR 0x0A]"


section \<open>The process and its surroundings\<close>

text \<open>
  One HTTP exchange of the \<^verbatim>\<open>requests\<close> library. \<open>req_json\<close> is the \<^verbatim>\<open>json=\<close> argument
  (\<open>JNull\<close> when none is passed). \<open>resp_json\<close> is what \<^verbatim>\<open>response.json()\<close> gives: the parsed
  body, or \<open>Inl m\<close> when parsing raises an exception \<open>e\<close> with \<^verbatim>\<open>str(e)\<close> \<open>= m\<close>.
\<close>

record request =
  req_method :: string
  req_url :: string
  req_headers :: "(string \<times> string) list"
  req_json :: json

record response =
  status_code :: int
  resp_text :: string
  resp_json :: "string + json"

text \<open>A structured result of one check (a dict in the source; the last two keys are optional).\<close>

record validation_result =
  component :: string
  status :: string
  message :: string
  notebooks :: "json list option"
  cluster_state :: "json option"

record summary =
  total_checks :: nat
  passed :: nat
  failed :: nat
  warnings :: nat

record report =
  rep_environment :: string
  rep_timestamp :: string
  rep_workspace_host :: string
  rep_base_path :: string
  rep_validation_results :: "validation_result list"
  rep_summary :: summary

text \<open>
  What the script does not contain is a parameter: the remote service and the library
  calls that reach it (\<open>http\<close>: the reply, or \<open>Inl m\<close> for a raised exception \<open>e\<close> of class
  \<^verbatim>\<open>Exception\<close> with \<^verbatim>\<open>str(e)\<close> \<open>= m\<close>), Python's \<^verbatim>\<open>str()\<close> on a parsed value
  (\<open>str_of\<close>), the clock (\<open>now_isoformat\<close>) and writing the report file (\<open>dump_report\<close>).
  The world \<open>'w\<close> is whatever state these need; every call may change it.
\<close>

record 'w runtime =
  http :: "'w \<Rightarrow> request \<Rightarrow> (string + response) \<times> 'w"
  str_of :: "json \<Rightarrow> string"
  now_isoformat :: "'w \<Rightarrow> string \<times> 'w"
  dump_report :: "'w \<Rightarrow> string \<Rightarrow> report \<Rightarrow> (py_error + unit) \<times> 'w"

text \<open>The state a run threads along: the world and the lines printed so far, one entry per
  \<^verbatim>\<open>print\<close> call. Writing to the standard output is taken to succeed, and signals
  (\<^verbatim>\<open>KeyboardInterrupt\<close>) are not part of the model.\<close>

record 'w sys =
  world :: 'w
  stdout :: "string list"

definition print :: "string \<Rightarrow> 'w sys \<Rightarrow> 'w sys" where
  "print line s = s\<lparr>stdout := stdout s @ [line]\<rparr>"


section \<open>\<^verbatim>\<open>class DeploymentValidator\<close>\<close>

record validator =
  host :: string
  token :: string
  env :: string
  headers :: "(string \<times> string) list"
  base_path :: string
  validation_results :: "validation_result list"

definition init_validator :: "string \<Rightarrow> string \<Rightarrow> string \<Rightarrow> validator" where
  "init_validator host_arg token_arg env_arg =
     \<lparr> host = rstrip CHR ''/'' host_arg,
       token = token_arg,
       env = env_arg,
       headers = [(''Authorization'', ''Bearer '' @ token_arg),
                  (''Content-Type'', ''application/json'')],
       base_path = ''/Workspace/Deployments/'' @ env_arg @ ''/files/src'',
       validation_results = [] \<rparr>"

subsection \<open>\<^verbatim>\<open>_make_request\<close>\<close>

definition normalize_endpoint :: "string \<Rightarrow> string" where
  "normalize_endpoint endpoint =
     (if \<not> startswith endpoint ''/api/2.0'' then ''/api/2.0'' @ endpoint else endpoint)"

text \<open>\<^verbatim>\<open>requests.get\<close> and \<^verbatim>\<open>requests.post\<close>: one exchange with the world.\<close>

definition send :: "'w runtime \<Rightarrow> request \<Rightarrow> 'w sys \<Rightarrow> (string + response) \<times> 'w sys" where
  "send rt req s = (case http rt (world s) req of (r, w') \<Rightarrow> (r, s\<lparr>world := w'\<rparr>))"

text \<open>The body of the \<^verbatim>\<open>try\<close>: \<open>Inr v\<close> when it returns \<open>v\<close>, \<open>Inl m\<close> when it raises an
  exception \<open>e\<close> with \<^verbatim>\<open>str(e)\<close> \<open>= m\<close>.\<close>

definition try_request ::
  "'w runtime \<Rightarrow> validator \<Rightarrow> string \<Rightarrow> string \<Rightarrow> json \<Rightarrow> 'w sys \<Rightarrow> (string + json) \<times> 'w sys" where
  "try_request rt self url method data s =
     (case (if method = ''GET'' then
              send rt \<lparr> req_method = ''GET'', req_url = url, req_headers = headers self,
                        req_json = JNull \<rparr> s
            else if method = ''POST'' then
              send rt \<lparr> req_method = ''POST'', req_url = url, req_headers = headers self,
                        req_json = data \<rparr> s
            else (Inl (''Unsupported method: '' @ method), s)) of
        (Inl m, s1) \<Rightarrow> (Inl m, s1)
      | (Inr resp, s1) \<Rightarrow>
          (if status_code resp = 200 then (resp_json resp, s1)
           else (Inr JNull,
                 print (cross_mark @ '' API request failed: '' @ str_int (status_code resp)
                          @ '' - '' @ resp_text resp) s1)))"

definition make_request ::
  "'w runtime \<Rightarrow> validator \<Rightarrow> string \<Rightarrow> string \<Rightarrow> json \<Rightarrow> 'w sys \<Rightarrow> json \<times> 'w sys" where
  "make_request rt self endpoint method data s =
     (case try_request rt self (host self @ normalize_endpoint endpoint) method data s of
        (Inr v, s') \<Rightarrow> (v, s')
      | (Inl m, s') \<Rightarrow> (JNull, print (cross_mark @ '' Request error: '' @ m) s'))"

subsection \<open>\<^verbatim>\<open>check_path_exists\<close>\<close>

definition check_path_exists ::
  "'w runtime \<Rightarrow> validator \<Rightarrow> string \<Rightarrow> 'w sys \<Rightarrow> (py_error + bool) \<times> 'w sys" where
  "check_path_exists rt self path s =
     (case make_request rt self ''/workspace/get-status'' ''POST''
             (JDict [(''path'', JStr path)]) s of
        (response, s1) \<Rightarrow>
          (case truthy_and_in response ''path'' of
             Inl e \<Rightarrow> (Inl e, s1)
           | Inr b \<Rightarrow> (if b then (Inr True, s1) else (Inr False, s1))))"

subsection \<open>\<^verbatim>\<open>list_notebooks\<close>\<close>

text \<open>
  The recursion follows the remote directory tree, which the script does not bound: the
  first argument is the number of nested \<^verbatim>\<open>list_notebooks\<close> calls allowed, and \<open>None\<close> says
  that the traversal did not finish within it. \<open>list_objects\<close> is the \<^verbatim>\<open>for obj in
  response['objects']\<close> loop, with \<open>found\<close> the list \<^verbatim>\<open>notebooks\<close> built so far. The path is a string at
  the outermost call and \<^verbatim>\<open>obj['path']\<close>, any parsed value, below. The interpreter's own
  recursion limit is not modelled.
\<close>

fun list_notebooks ::
  "nat \<Rightarrow> 'w runtime \<Rightarrow> validator \<Rightarrow> json \<Rightarrow> 'w sys \<Rightarrow> ((py_error + json list) \<times> 'w sys) option"
and list_objects ::
  "nat \<Rightarrow> 'w runtime \<Rightarrow> validator \<Rightarrow> json list \<Rightarrow> json list \<Rightarrow> 'w sys
     \<Rightarrow> ((py_error + json list) \<times> 'w sys) option"
where
  "list_notebooks 0 rt self path s = None"
| "list_notebooks (Suc n) rt self path s =
     (case make_request rt self ''/workspace/list'' ''POST'' (JDict [(''path'', path)]) s of
        (response, s1) \<Rightarrow>
          (case truthy_and_in response ''objects'' of
             Inl e \<Rightarrow> Some (Inl e, s1)
           | Inr False \<Rightarrow> Some (Inr [], s1)
           | Inr True \<Rightarrow>
               (case py_getitem response ''objects'' of
                  Inl e \<Rightarrow> Some (Inl e, s1)
                | Inr objects \<Rightarrow>
                    (case py_iter objects of
                       Inl e \<Rightarrow> Some (Inl e, s1)
                     | Inr objs \<Rightarrow> list_objects n rt self objs [] s1))))"
| "list_objects n rt self [] found s = Some (Inr found, s)"
| "list_objects n rt self (obj # objs) found s =
     (case py_get obj ''object_type'' of
        Inl e \<Rightarrow> Some (Inl e, s)
      | Inr object_type \<Rightarrow>
          (if object_type = JStr ''NOTEBOOK'' then
             (case py_getitem obj ''path'' of
                Inl e \<Rightarrow> Some (Inl e, s)
              | Inr p \<Rightarrow> list_objects n rt self objs (found @ [p]) s)
           else if object_type = JStr ''DIRECTORY'' then
             (case py_getitem obj ''path'' of
                Inl e \<Rightarrow> Some (Inl e, s)
              | Inr p \<Rightarrow>
                  (case list_notebooks n rt self p s of
                     None \<Rightarrow> None
                   | Some (Inl e, s1) \<Rightarrow> Some (Inl e, s1)
                   | Some (Inr sub_notebooks, s1) \<Rightarrow>
                       list_objects n rt self objs (found @ sub_notebooks) s1))
           else list_objects n rt self objs found s))"

subsection \<open>The folder checks\<close>

text \<open>A check gives back what it returns (or the exception it raises), the validator with
  the results appended so far, and the state; \<open>None\<close> when its listing did not finish.\<close>

type_synonym ('a, 'w) run = "((py_error + 'a) \<times> validator \<times> 'w sys) option"

definition append_result :: "validation_result \<Rightarrow> validator \<Rightarrow> validator" where
  "append_result r self = self\<lparr>validation_results := validation_results self @ [r]\<rparr>"

text \<open>\<^verbatim>\<open>for notebook in notebooks: print(f"     - {notebook.split('/')[-1]}")\<close>: only a string
  has \<^verbatim>\<open>split\<close>.\<close>

fun print_names :: "json list \<Rightarrow> 'w sys \<Rightarrow> (py_error + unit) \<times> 'w sys" where
  "print_names [] s = (Inr (), s)"
| "print_names (JStr p # rest) s =
     print_names rest (print (''     - '' @ last (split_on CHR ''/'' p)) s)"
| "print_names (other # rest) s = (Inl AttributeError, s)"

definition validate_shared_folder ::
  "nat \<Rightarrow> 'w runtime \<Rightarrow> validator \<Rightarrow> 'w sys \<Rightarrow> (bool, 'w) run" where
  "validate_shared_folder n rt self s0 =
     (let s1 = print (newline @ file_folder @ '' Validating shared folder deployment...'') s0;
          shared_path = base_path self @ ''/shared''
      in case check_path_exists rt self shared_path s1 of
           (Inl e, s2) \<Rightarrow> Some (Inl e, self, s2)
         | (Inr False, s2) \<Rightarrow>
             Some (Inr False,
                   append_result
                     \<lparr> component = ''shared'', status = ''FAILED'',
                       message = ''Shared folder not found at '' @ shared_path,
                       notebooks = None, cluster_state = None \<rparr> self,
                   print (''  '' @ cross_mark @ '' Shared folder not found at '' @ shared_path) s2)
         | (Inr True, s2) \<Rightarrow>
             (case list_notebooks n rt self (JStr shared_path) s2 of
                None \<Rightarrow> None
              | Some (Inl e, s3) \<Rightarrow> Some (Inl e, self, s3)
              | Some (Inr nbs, s3) \<Rightarrow>
                  (if nbs = [] then
                     Some (Inr True,
                           append_result
                             \<lparr> component = ''shared'', status = ''WARNING'',
                               message = ''Shared folder exists but contains no notebooks'',
                               notebooks = None, cluster_state = None \<rparr> self,
                           print (''  '' @ warning_sign
                                    @ ''  Shared folder exists but contains no notebooks'') s3)
                   else
                     (let self' =
                            append_result
                              \<lparr> component = ''shared'', status = ''PASSED'',
                                message = ''Found '' @ str_nat (length nbs)
                                            @ '' notebooks in shared folder'',
                                notebooks = Some nbs, cluster_state = None \<rparr> self;
                          s4 = print (''  '' @ check_mark @ '' Shared folder validated - ''
                                        @ str_nat (length nbs) @ '' notebooks found'') s3
                      in case print_names nbs s4 of
                           (Inl e, s5) \<Rightarrow> Some (Inl e, self', s5)
                         | (Inr u, s5) \<Rightarrow> Some (Inr True, self', s5)))))"

definition validate_use_case ::
  "nat \<Rightarrow> 'w runtime \<Rightarrow> string \<Rightarrow> validator \<Rightarrow> 'w sys \<Rightarrow> (bool, 'w) run" where
  "validate_use_case n rt use_case self s0 =
     (let s1 = print (newline @ file_folder @ '' Validating '' @ use_case @ '' deployment...'') s0;
          use_case_path = base_path self @ ''/'' @ use_case
      in case check_path_exists rt self use_case_path s1 of
           (Inl e, s2) \<Rightarrow> Some (Inl e, self, s2)
         | (Inr False, s2) \<Rightarrow>
             Some (Inr False,
                   append_result
                     \<lparr> component = use_case, status = ''FAILED'',
                       message = use_case @ '' folder not found at '' @ use_case_path,
                       notebooks = None, cluster_state = None \<rparr> self,
                   print (''  '' @ cross_mark @ '' '' @ use_case @ '' folder not found at ''
                            @ use_case_path) s2)
         | (Inr True, s2) \<Rightarrow>
             (case list_notebooks n rt self (JStr use_case_path) s2 of
                None \<Rightarrow> None
              | Some (Inl e, s3) \<Rightarrow> Some (Inl e, self, s3)
              | Some (Inr nbs, s3) \<Rightarrow>
                  (if nbs = [] then
                     Some (Inr True,
                           append_result
                             \<lparr> component = use_case, status = ''WARNING'',
                               message = use_case @ '' folder exists but contains no notebooks'',
                               notebooks = None, cluster_state = None \<rparr> self,
                           print (''  '' @ warning_sign @ ''  '' @ use_case
                                    @ '' folder exists but contains no notebooks'') s3)
                   else
                     (let self' =
                            append_result
                              \<lparr> component = use_case, status = ''PASSED'',
                                message = ''Found '' @ str_nat (length nbs) @ '' notebooks in ''
                                            @ use_case,
                                notebooks = Some nbs, cluster_state = None \<rparr> self;
                          s4 = print (''  '' @ check_mark @ '' '' @ use_case @ '' validated - ''
                                        @ str_nat (length nbs) @ '' notebooks found'') s3
                      in case print_names nbs s4 of
                           (Inl e, s5) \<Rightarrow> Some (Inl e, self', s5)
                         | (Inr u, s5) \<Rightarrow> Some (Inr True, self', s5)))))"

subsection \<open>\<^verbatim>\<open>validate_cluster\<close>\<close>

text \<open>The \<^verbatim>\<open>for cluster in response['clusters']\<close> loop up to its \<^verbatim>\<open>return\<close>: the first entry
  whose \<^verbatim>\<open>cluster.get('cluster_name')\<close> equals the name, if the loop gets that far.\<close>

fun find_cluster :: "string \<Rightarrow> json list \<Rightarrow> py_error + json option" where
  "find_cluster cluster_name [] = Inr None"
| "find_cluster cluster_name (cluster # rest) =
     (case py_get cluster ''cluster_name'' of
        Inl e \<Rightarrow> Inl e
      | Inr nm \<Rightarrow> (if nm = JStr cluster_name then Inr (Some cluster)
                   else find_cluster cluster_name rest))"

definition cluster_not_found ::
  "string \<Rightarrow> validator \<Rightarrow> 'w sys \<Rightarrow> (py_error + bool) \<times> validator \<times> 'w sys" where
  "cluster_not_found cluster_name self s =
     (Inr False,
      append_result
        \<lparr> component = ''cluster-'' @ cluster_name, status = ''WARNING'',
          message = ''Cluster '' @ cluster_name @ '' not found'',
          notebooks = None, cluster_state = None \<rparr> self,
      print (''  '' @ warning_sign @ ''  Cluster '' @ cluster_name @ '' not found'') s)"

definition validate_cluster ::
  "'w runtime \<Rightarrow> string \<Rightarrow> validator \<Rightarrow> 'w sys \<Rightarrow> (py_error + bool) \<times> validator \<times> 'w sys" where
  "validate_cluster rt cluster_name self s0 =
     (let s1 = print (newline @ gear @ ''  Validating cluster: '' @ cluster_name @ ''...'') s0
      in case make_request rt self ''/clusters/list'' ''GET'' JNull s1 of
           (response, s2) \<Rightarrow>
             (case truthy_and_in response ''clusters'' of
                Inl e \<Rightarrow> (Inl e, self, s2)
              | Inr False \<Rightarrow> cluster_not_found cluster_name self s2
              | Inr True \<Rightarrow>
                  (case py_getitem response ''clusters'' of
                     Inl e \<Rightarrow> (Inl e, self, s2)
                   | Inr clusters \<Rightarrow>
                       (case py_iter clusters of
                          Inl e \<Rightarrow> (Inl e, self, s2)
                        | Inr cs \<Rightarrow>
                            (case find_cluster cluster_name cs of
                               Inl e \<Rightarrow> (Inl e, self, s2)
                             | Inr None \<Rightarrow> cluster_not_found cluster_name self s2
                             | Inr (Some cluster) \<Rightarrow>
                                 (case py_get cluster ''state'' of
                                    Inl e \<Rightarrow> (Inl e, self, s2)
                                  | Inr st \<Rightarrow>
                                      (Inr True,
                                       append_result
                                         \<lparr> component = ''cluster-'' @ cluster_name,
                                           status = ''PASSED'',
                                           message = ''Cluster '' @ cluster_name @ '' found'',
                                           notebooks = None, cluster_state = Some st \<rparr> self,
                                       print (''  '' @ check_mark @ '' Cluster '' @ cluster_name
                                                @ '' found (state: '' @ str_of rt st @ '')'')
                                         s2)))))))"

subsection \<open>\<^verbatim>\<open>run_smoke_test\<close> and \<^verbatim>\<open>generate_report\<close>\<close>

definition run_smoke_test :: "'w runtime \<Rightarrow> validator \<Rightarrow> 'w sys \<Rightarrow> bool \<times> 'w sys" where
  "run_smoke_test rt self s0 =
     (let s1 = print (newline @ fire @ '' Running smoke tests...'') s0;
          bundle_root = ''/Workspace/Deployments/'' @ env self
      in case make_request rt self ''/workspace/get-status'' ''POST''
                (JDict [(''path'', JStr bundle_root)]) s1 of
           (response, s2) \<Rightarrow>
             (if truthy response then
                (True, print (''  '' @ check_mark
                                @ '' Workspace API connectivity verified - bundle root exists at ''
                                @ bundle_root) s2)
              else (False, print (''  '' @ cross_mark @ '' Workspace API connectivity failed'') s2)))"

definition count_status :: "string \<Rightarrow> validation_result list \<Rightarrow> nat" where
  "count_status st rs = length (filter (\<lambda>r. status r = st) rs)"

definition generate_report :: "'w runtime \<Rightarrow> validator \<Rightarrow> 'w sys \<Rightarrow> report \<times> 'w sys" where
  "generate_report rt self s =
     (case now_isoformat rt (world s) of
        (stamp, w') \<Rightarrow>
          (\<lparr> rep_environment = env self,
             rep_timestamp = stamp,
             rep_workspace_host = host self,
             rep_base_path = base_path self,
             rep_validation_results = validation_results self,
             rep_summary =
               \<lparr> total_checks = length (validation_results self),
                 passed = count_status ''PASSED'' (validation_results self),
                 failed = count_status ''FAILED'' (validation_results self),
                 warnings = count_status ''WARNING'' (validation_results self) \<rparr> \<rparr>,
           s\<lparr>world := w'\<rparr>))"

section \<open>\<^verbatim>\<open>main\<close>\<close>

text \<open>The parsed command line: \<^verbatim>\<open>argparse\<close> admits only the listed choices for
  \<^verbatim>\<open>--env\<close> and \<^verbatim>\<open>--use-case\<close>, and an option that is not given is \<^verbatim>\<open>None\<close>.\<close>

datatype env_choice = Dev | Test | Prod

fun env_name :: "env_choice \<Rightarrow> string" where
  "env_name Dev = ''dev''"
| "env_name Test = ''test''"
| "env_name Prod = ''prod''"

datatype use_case_choice = Usecase1 | Usecase2 | UsecaseAll

fun use_case_name :: "use_case_choice \<Rightarrow> string" where
  "use_case_name Usecase1 = ''usecase-1''"
| "use_case_name Usecase2 = ''usecase-2''"
| "use_case_name UsecaseAll = ''all''"

record args =
  arg_env :: env_choice
  arg_host :: "string option"
  arg_token :: "string option"
  arg_use_case :: "use_case_choice option"
  arg_validate_all :: bool
  arg_smoke_test :: bool
  arg_output_json :: "string option"

text \<open>\<^verbatim>\<open>a or b\<close> on optional strings: \<^verbatim>\<open>None\<close> and the empty string are falsy.\<close>

fun py_or :: "string option \<Rightarrow> string option \<Rightarrow> string option" where
  "py_or None b = b"
| "py_or (Some x) b = (if x \<noteq> [] then Some x else b)"

text \<open>How the process ends: \<^verbatim>\<open>sys.exit(code)\<close>, or an exception nobody catches (the
  interpreter then prints a traceback and the exit code is 1).\<close>

datatype exit_status = SysExit int | Uncaught py_error

fun exit_code :: "exit_status \<Rightarrow> int" where
  "exit_code (SysExit c) = c"
| "exit_code (Uncaught e) = 1"

record 'w finished =
  exit_status :: exit_status
  final_report :: "report option"
  final_sys :: "'w sys"

text \<open>Sequencing: an exception or an unfinished traversal ends the sequence.\<close>

definition and_then :: "('a, 'w) run \<Rightarrow> ('a \<Rightarrow> validator \<Rightarrow> 'w sys \<Rightarrow> ('b, 'w) run) \<Rightarrow> ('b, 'w) run" where
  "and_then m f =
     (case m of
        None \<Rightarrow> None
      | Some (Inl e, self, s) \<Rightarrow> Some (Inl e, self, s)
      | Some (Inr x, self, s) \<Rightarrow> f x self s)"

text \<open>The \<^verbatim>\<open># Validate use cases\<close> block, from the value \<^verbatim>\<open>all_passed\<close> has before it to the
  value it has after it.\<close>

definition validate_use_cases ::
  "nat \<Rightarrow> 'w runtime \<Rightarrow> args \<Rightarrow> bool \<Rightarrow> validator \<Rightarrow> 'w sys \<Rightarrow> (bool, 'w) run" where
  "validate_use_cases n rt a all_passed self s =
     (if arg_validate_all a \<or> arg_use_case a = Some UsecaseAll then
        and_then (validate_use_case n rt ''usecase-1'' self s) (\<lambda>ok1 self1 s1.
          and_then (validate_use_case n rt ''usecase-2'' self1 s1) (\<lambda>ok2 self2 s2.
            Some (Inr (if \<not> ok2 then False else if \<not> ok1 then False else all_passed),
                  self2, s2)))
      else
        (case arg_use_case a of
           Some uc \<Rightarrow>
             and_then (validate_use_case n rt (use_case_name uc) self s) (\<lambda>ok self1 s1.
               Some (Inr (if \<not> ok then False else all_passed), self1, s1))
         | None \<Rightarrow> Some (Inr all_passed, self, s)))"

text \<open>The \<^verbatim>\<open># Run validations\<close> block: the value of \<^verbatim>\<open>all_passed\<close> after it.\<close>

definition run_validations ::
  "nat \<Rightarrow> 'w runtime \<Rightarrow> args \<Rightarrow> validator \<Rightarrow> 'w sys \<Rightarrow> (bool, 'w) run" where
  "run_validations n rt a self s =
     (if arg_smoke_test a then
        (case run_smoke_test rt self s of (ok, s1) \<Rightarrow> Some (Inr ok, self, s1))
      else
        and_then (validate_shared_folder n rt self s) (\<lambda>ok self1 s1.
          and_then (validate_use_cases n rt a (if \<not> ok then False else True) self1 s1)
            (\<lambda>all_passed self2 s2.
               (case validate_cluster rt (env_name (arg_env a) @ ''-cluster'') self2 s2 of
                  (Inl e, self3, s3) \<Rightarrow> Some (Inl e, self3, s3)
                | (Inr found, self3, s3) \<Rightarrow> Some (Inr all_passed, self3, s3)))))"

definition print_banner :: "args \<Rightarrow> string \<Rightarrow> validator \<Rightarrow> 'w sys \<Rightarrow> 'w sys" where
  "print_banner a host_str self s =
     (print (replicate 50 CHR ''='')
     (print (''   Validation Path: '' @ base_path self)
     (print (''   Bundle Path: /Workspace/Deployments/'' @ env_name (arg_env a) @ ''/files/src'')
     (print (''   Workspace: '' @ host_str)
     (print (''   Environment: '' @ env_name (arg_env a))
     (print (magnifier @ '' Databricks Deployment Validation'')
     (print (replicate 50 CHR ''='') s)))))))"

definition print_summary :: "report \<Rightarrow> 'w sys \<Rightarrow> 'w sys" where
  "print_summary rep s =
     (print (replicate 50 CHR ''='')
     (print (''   '' @ warning_sign @ ''  Warnings: '' @ str_nat (warnings (rep_summary rep)))
     (print (''   '' @ cross_mark @ '' Failed: '' @ str_nat (failed (rep_summary rep)))
     (print (''   '' @ check_mark @ '' Passed: '' @ str_nat (passed (rep_summary rep)))
     (print (''   Total Checks: '' @ str_nat (total_checks (rep_summary rep)))
     (print (bar_chart @ '' Validation Summary'')
     (print (newline @ replicate 50 CHR ''='') s)))))))"

text \<open>\<^verbatim>\<open># Save report if requested\<close>: an empty file name is falsy.\<close>

definition save_report ::
  "'w runtime \<Rightarrow> args \<Rightarrow> report \<Rightarrow> 'w sys \<Rightarrow> (py_error + unit) \<times> 'w sys" where
  "save_report rt a rep s =
     (case arg_output_json a of
        None \<Rightarrow> (Inr (), s)
      | Some file \<Rightarrow>
          (if file = [] then (Inr (), s)
           else
             (case dump_report rt (world s) file rep of
                (Inl e, w') \<Rightarrow> (Inl e, s\<lparr>world := w'\<rparr>)
              | (Inr u, w') \<Rightarrow>
                  (Inr (), print (newline @ page_facing_up @ '' Report saved to: '' @ file)
                             (s\<lparr>world := w'\<rparr>)))))"

definition missing_credentials :: "'w sys \<Rightarrow> 'w finished" where
  "missing_credentials s =
     \<lparr> exit_status = SysExit 1, final_report = None,
       final_sys =
         print ''   Or provide --host and --token arguments''
           (print ''   Set DATABRICKS_HOST and DATABRICKS_TOKEN environment variables''
              (print (cross_mark @ '' Error: Databricks host and token are required'') s)) \<rparr>"

text \<open>The script from \<^verbatim>\<open># Initialize validator\<close> on, with the host and the token it found.\<close>

definition main_validate ::
  "nat \<Rightarrow> 'w runtime \<Rightarrow> args \<Rightarrow> string \<Rightarrow> string \<Rightarrow> 'w sys \<Rightarrow> 'w finished option" where
  "main_validate n rt a host_str token_str s0 =
     (let validator = init_validator host_str token_str (env_name (arg_env a));
          s1 = print_banner a host_str validator s0
      in case run_validations n rt a validator s1 of
           None \<Rightarrow> None
         | Some (Inl e, self, s2) \<Rightarrow>
             Some \<lparr> exit_status = Uncaught e, final_report = None, final_sys = s2 \<rparr>
         | Some (Inr all_passed, self, s2) \<Rightarrow>
             (case generate_report rt self s2 of
                (rep, s3) \<Rightarrow>
                  (case save_report rt a rep (print_summary rep s3) of
                     (Inl e, s4) \<Rightarrow>
                       Some \<lparr> exit_status = Uncaught e, final_report = Some rep,
                              final_sys = s4 \<rparr>
                   | (Inr u, s4) \<Rightarrow>
                       (if failed (rep_summary rep) > 0 then
                          Some \<lparr> exit_status = SysExit 1, final_report = Some rep,
                                 final_sys = print (newline @ cross_mark
                                                      @ '' Validation FAILED'') s4 \<rparr>
                        else
                          Some \<lparr> exit_status = SysExit 0, final_report = Some rep,
                                 final_sys = print (newline @ check_mark
                                                      @ '' Validation PASSED'') s4 \<rparr>))))"

text \<open>The script after \<^verbatim>\<open>parse_args\<close>; \<open>environ\<close> is \<^verbatim>\<open>os.environ\<close>. \<^verbatim>\<open>not host or not token\<close>
  holds for \<^verbatim>\<open>None\<close> and for the empty string.\<close>

definition main ::
  "nat \<Rightarrow> 'w runtime \<Rightarrow> (string \<rightharpoonup> string) \<Rightarrow> args \<Rightarrow> 'w sys \<Rightarrow> 'w finished option" where
  "main n rt environ a s0 =
     (case (py_or (arg_host a) (environ ''DATABRICKS_HOST''),
            py_or (arg_token a) (environ ''DATABRICKS_TOKEN'')) of
        (Some host_str, Some token_str) \<Rightarrow>
          (if host_str = [] \<or> token_str = [] then Some (missing_credentials s0)
           else main_validate n rt a host_str token_str s0)
      | _ \<Rightarrow> Some (missing_credentials s0))"

text \<open>The credentials are there: \<^verbatim>\<open>not host or not token\<close> is false.\<close>

definition has_credentials :: "(string \<rightharpoonup> string) \<Rightarrow> args \<Rightarrow> bool" where
  "has_credentials environ a =
     (case (py_or (arg_host a) (environ ''DATABRICKS_HOST''),
            py_or (arg_token a) (environ ''DATABRICKS_TOKEN'')) of
        (Some host_str, Some token_str) \<Rightarrow> host_str \<noteq> [] \<and> token_str \<noteq> []
      | _ \<Rightarrow> False)"


section \<open>The remote tree\<close>

text \<open>
  The tree below a path, as the listing calls of \<^verbatim>\<open>list_notebooks\<close> reveal it: an object
  of type \<^verbatim>\<open>NOTEBOOK\<close> is a leaf with its path, an object of type \<^verbatim>\<open>DIRECTORY\<close> has the
  objects listed under its path as children, in the order of the reply, and any other
  object is a leaf of no interest. \<open>crawl\<close> asks the same questions in the same order as
  \<^verbatim>\<open>list_notebooks\<close> and keeps the whole tree; a directory whose listing request fails has
  no children.
\<close>

datatype ws_object = Notebook json | Directory json "ws_object list" | Other json

text \<open>The notebook leaves of a tree, parent before children, siblings left to right.\<close>

fun notebook_paths :: "ws_object \<Rightarrow> json list" where
  "notebook_paths (Notebook p) = [p]"
| "notebook_paths (Directory p children) = concat (map notebook_paths children)"
| "notebook_paths (Other obj) = []"

fun count_notebooks :: "ws_object \<Rightarrow> nat" where
  "count_notebooks (Notebook p) = 1"
| "count_notebooks (Directory p children) = sum_list (map count_notebooks children)"
| "count_notebooks (Other obj) = 0"

fun crawl ::
  "nat \<Rightarrow> 'w runtime \<Rightarrow> validator \<Rightarrow> json \<Rightarrow> 'w sys \<Rightarrow> ((py_error + ws_object list) \<times> 'w sys) option"
and crawl_objects ::
  "nat \<Rightarrow> 'w runtime \<Rightarrow> validator \<Rightarrow> json list \<Rightarrow> 'w sys
     \<Rightarrow> ((py_error + ws_object list) \<times> 'w sys) option"
where
  "crawl 0 rt self path s = None"
| "crawl (Suc n) rt self path s =
     (case make_request rt self ''/workspace/list'' ''POST'' (JDict [(''path'', path)]) s of
        (response, s1) \<Rightarrow>
          (case truthy_and_in response ''objects'' of
             Inl e \<Rightarrow> Some (Inl e, s1)
           | Inr False \<Rightarrow> Some (Inr [], s1)
           | Inr True \<Rightarrow>
               (case py_getitem response ''objects'' of
                  Inl e \<Rightarrow> Some (Inl e, s1)
                | Inr objects \<Rightarrow>
                    (case py_iter objects of
                       Inl e \<Rightarrow> Some (Inl e, s1)
                     | Inr objs \<Rightarrow> crawl_objects n rt self objs s1))))"
| "crawl_objects n rt self [] s = Some (Inr [], s)"
| "crawl_objects n rt self (obj # objs) s =
     (case py_get obj ''object_type'' of
        Inl e \<Rightarrow> Some (Inl e, s)
      | Inr object_type \<Rightarrow>
          (if object_type = JStr ''NOTEBOOK'' then
             (case py_getitem obj ''path'' of
                Inl e \<Rightarrow> Some (Inl e, s)
              | Inr p \<Rightarrow>
                  (case crawl_objects n rt self objs s of
                     None \<Rightarrow> None
                   | Some (Inl e, s1) \<Rightarrow> Some (Inl e, s1)
                   | Some (Inr ts, s1) \<Rightarrow> Some (Inr (Notebook p # ts), s1)))
           else if object_type = JStr ''DIRECTORY'' then
             (case py_getitem obj ''path'' of
                Inl e \<Rightarrow> Some (Inl e, s)
              | Inr p \<Rightarrow>
                  (case crawl n rt self p s of
                     None \<Rightarrow> None
                   | Some (Inl e, s1) \<Rightarrow> Some (Inl e, s1)
                   | Some (Inr children, s1) \<Rightarrow>
                       (case crawl_objects n rt self objs s1 of
                          None \<Rightarrow> None
                        | Some (Inl e, s2) \<Rightarrow> Some (Inl e, s2)
                        | Some (Inr ts, s2) \<Rightarrow> Some (Inr (Directory p children # ts), s2))))
           else
             (case crawl_objects n rt self objs s of
                None \<Rightarrow> None
              | Some (Inl e, s1) \<Rightarrow> Some (Inl e, s1)
              | Some (Inr ts, s1) \<Rightarrow> Some (Inr (Other obj # ts), s1))))"

text \<open>A result of \<open>crawl\<close> read as a result of \<^verbatim>\<open>list_notebooks\<close>: the notebook leaves of
  the trees, after the notebooks found before.\<close>

definition with_paths ::
  "json list \<Rightarrow> ((py_error + ws_object list) \<times> 'w sys) option
     \<Rightarrow> ((py_error + json list) \<times> 'w sys) option" where
  "with_paths found r =
     (case r of
        None \<Rightarrow> None
      | Some (Inl e, s) \<Rightarrow> Some (Inl e, s)
      | Some (Inr ts, s) \<Rightarrow> Some (Inr (found @ concat (map notebook_paths ts)), s))"


section \<open>Notions of the statements\<close>

text \<open>The folders a check looks at, and the state in which it makes its requests (after
  the line that announces the check).\<close>

definition shared_path :: "validator \<Rightarrow> string" where
  "shared_path self = base_path self @ ''/shared''"

definition use_case_path :: "validator \<Rightarrow> string \<Rightarrow> string" where
  "use_case_path self use_case = base_path self @ ''/'' @ use_case"

definition entering_shared :: "'w sys \<Rightarrow> 'w sys" where
  "entering_shared s = print (newline @ file_folder @ '' Validating shared folder deployment...'') s"

definition entering_use_case :: "string \<Rightarrow> 'w sys \<Rightarrow> 'w sys" where
  "entering_use_case use_case s =
     print (newline @ file_folder @ '' Validating '' @ use_case @ '' deployment...'') s"

definition entering_cluster :: "string \<Rightarrow> 'w sys \<Rightarrow> 'w sys" where
  "entering_cluster cluster_name s =
     print (newline @ gear @ ''  Validating cluster: '' @ cluster_name @ ''...'') s"

text \<open>The request that \<^verbatim>\<open>_make_request\<close> sends for a supported method.\<close>

definition sent_request :: "validator \<Rightarrow> string \<Rightarrow> string \<Rightarrow> json \<Rightarrow> request" where
  "sent_request self endpoint method data =
     \<lparr> req_method = method, req_url = host self @ normalize_endpoint endpoint,
       req_headers = headers self, req_json = (if method = ''GET'' then JNull else data) \<rparr>"

text \<open>A reply to the existence probe that names no path: no reply at all, or an object
  without the key.\<close>

fun lacks_path :: "json \<Rightarrow> bool" where
  "lacks_path JNull = True"
| "lacks_path (JDict kvs) = (''path'' \<notin> set (map fst kvs))"
| "lacks_path other = False"

text \<open>The three statuses, and the components that a full run reports, in order.\<close>

definition known_status :: "validation_result \<Rightarrow> bool" where
  "known_status r = (status r = ''PASSED'' \<or> status r = ''FAILED'' \<or> status r = ''WARNING'')"

definition selected_use_cases :: "args \<Rightarrow> string list" where
  "selected_use_cases a =
     (if arg_validate_all a \<or> arg_use_case a = Some UsecaseAll then [''usecase-1'', ''usecase-2'']
      else (case arg_use_case a of Some uc \<Rightarrow> [use_case_name uc] | None \<Rightarrow> []))"

definition expected_components :: "args \<Rightarrow> string list" where
  "expected_components a =
     ''shared'' # selected_use_cases a @ [''cluster-'' @ env_name (arg_env a) @ ''-cluster'']"

text \<open>Objects and strings among the parsed values. An entry of a cluster list is an
  object in the API; it matches a name when its \<^verbatim>\<open>cluster_name\<close> is that very string, and
  \<open>state_of\<close> is the state it reports (\<^verbatim>\<open>None\<close> when it reports none).\<close>

fun is_dict :: "json \<Rightarrow> bool" where
  "is_dict (JDict kvs) = True"
| "is_dict other = False"

fun is_str :: "json \<Rightarrow> bool" where
  "is_str (JStr s) = True"
| "is_str other = False"

definition named :: "string \<Rightarrow> json \<Rightarrow> bool" where
  "named cluster_name cluster = (py_get cluster ''cluster_name'' = Inr (JStr cluster_name))"

definition state_of :: "json \<Rightarrow> json" where
  "state_of cluster = (case py_get cluster ''state'' of Inr st \<Rightarrow> st | Inl e \<Rightarrow> JNull)"


text \<open>
  The contract of the remote API, as far as the script relies on it. A reply with status
  200 whose body parses is \<^verbatim>\<open>null\<close> or an object; its \<^verbatim>\<open>objects\<close>, if it has any, are a list of
  objects, where a \<^verbatim>\<open>NOTEBOOK\<close> has a string as its path and a \<^verbatim>\<open>DIRECTORY\<close> has a path that
  ranks below the path that was asked for; its \<^verbatim>\<open>clusters\<close>, if it has any, are a list of
  objects. Replies with another status, bodies that do not parse and failures of the
  transport are not restricted. The rank is any measure of how deep a path may still
  nest: that it decreases says that the workspace is a tree of bounded depth.
\<close>

definition requested_path :: "request \<Rightarrow> json" where
  "requested_path req = (case py_get (req_json req) ''path'' of Inr p \<Rightarrow> p | Inl e \<Rightarrow> JNull)"

definition entry_ok :: "(json \<Rightarrow> nat) \<Rightarrow> json \<Rightarrow> json \<Rightarrow> bool" where
  "entry_ok rank parent obj =
     (case py_get obj ''object_type'' of
        Inl e \<Rightarrow> False
      | Inr ty \<Rightarrow>
          (if ty = JStr ''NOTEBOOK'' then
             (case py_getitem obj ''path'' of Inl e \<Rightarrow> False | Inr p \<Rightarrow> is_str p)
           else if ty = JStr ''DIRECTORY'' then
             (case py_getitem obj ''path'' of Inl e \<Rightarrow> False | Inr q \<Rightarrow> rank q < rank parent)
           else True))"

fun list_of :: "(json \<Rightarrow> bool) \<Rightarrow> json option \<Rightarrow> bool" where
  "list_of ok None = True"
| "list_of ok (Some (JList xs)) = list_all ok xs"
| "list_of ok (Some other) = False"

fun body_ok :: "(json \<Rightarrow> nat) \<Rightarrow> json \<Rightarrow> json \<Rightarrow> bool" where
  "body_ok rank parent JNull = True"
| "body_ok rank parent (JDict kvs) =
     (list_of (entry_ok rank parent) (map_of kvs ''objects'')
        \<and> list_of is_dict (map_of kvs ''clusters''))"
| "body_ok rank parent other = False"

definition reply_ok :: "(json \<Rightarrow> nat) \<Rightarrow> request \<Rightarrow> string + response \<Rightarrow> bool" where
  "reply_ok rank req reply =
     (case reply of
        Inl m \<Rightarrow> True
      | Inr resp \<Rightarrow>
          (if status_code resp = 200 then
             (case resp_json resp of
                Inl m \<Rightarrow> True
              | Inr body \<Rightarrow> body_ok rank (requested_path req) body)
           else True))"

definition contract :: "(json \<Rightarrow> nat) \<Rightarrow> 'w runtime \<Rightarrow> bool" where
  "contract rank rt = (\<forall>w req. reply_ok rank req (fst (http rt w req)))"


section \<open>A sample deployment\<close>

text \<open>
  A workspace that answers from a table, for running the script: in \<^verbatim>\<open>dev\<close> the shared
  folder holds three notebooks (one of them in a subdirectory, beside a plain file),
  \<^verbatim>\<open>usecase-1\<close> is missing, \<^verbatim>\<open>usecase-2\<close> holds one notebook and the clusters are
  \<^verbatim>\<open>Prod-cluster\<close> and \<^verbatim>\<open>prod-cluster\<close>; in \<^verbatim>\<open>prod\<close> the shared folder and \<^verbatim>\<open>usecase-2\<close>
  are empty and the probe of \<^verbatim>\<open>usecase-1\<close> is answered without a path; in \<^verbatim>\<open>test\<close> only
  \<^verbatim>\<open>usecase-2\<close> exists, with a notebook and a directory that holds another. A request that
  the table does not list fails in transport.
\<close>

definition table_http ::
  "((string \<times> json) \<times> response) list \<Rightarrow> unit \<Rightarrow> request \<Rightarrow> (string + response) \<times> unit" where
  "table_http tbl w req =
     (case map_of tbl (req_url req, req_json req) of
        None \<Rightarrow> (Inl ''connection refused'', ())
      | Some r \<Rightarrow> (Inr r, ()))"

definition ok_json :: "json \<Rightarrow> response" where
  "ok_json j = \<lparr> status_code = 200, resp_text = [], resp_json = Inr j \<rparr>"

definition not_found :: response where
  "not_found =
     \<lparr> status_code = 404, resp_text = ''RESOURCE_DOES_NOT_EXIST'',
       resp_json = Inr (JDict [(''error_code'', JStr ''RESOURCE_DOES_NOT_EXIST'')]) \<rparr>"

definition ws_entry :: "string \<Rightarrow> string \<Rightarrow> json" where
  "ws_entry ty p = JDict [(''object_type'', JStr ty), (''path'', JStr p)]"

definition path_arg :: "string \<Rightarrow> json" where
  "path_arg p = JDict [(''path'', JStr p)]"

definition sample_table :: "((string \<times> json) \<times> response) list" where
  "sample_table =
    [ ((''https://dbx.example/api/2.0/workspace/get-status'',
        path_arg ''/Workspace/Deployments/dev/files/src/shared''),
       ok_json (ws_entry ''DIRECTORY'' ''/Workspace/Deployments/dev/files/src/shared'')),
      ((''https://dbx.example/api/2.0/workspace/list'',
        path_arg ''/Workspace/Deployments/dev/files/src/shared''),
       ok_json (JDict [(''objects'', JList
         [ ws_entry ''NOTEBOOK'' ''/Workspace/Deployments/dev/files/src/shared/a'',
           ws_entry ''DIRECTORY'' ''/Workspace/Deployments/dev/files/src/shared/lib'',
           ws_entry ''FILE'' ''/Workspace/Deployments/dev/files/src/shared/readme'',
           ws_entry ''NOTEBOOK'' ''/Workspace/Deployments/dev/files/src/shared/b'' ])])),
      ((''https://dbx.example/api/2.0/workspace/list'',
        path_arg ''/Workspace/Deployments/dev/files/src/shared/lib''),
       ok_json (JDict [(''objects'', JList
         [ ws_entry ''NOTEBOOK'' ''/Workspace/Deployments/dev/files/src/shared/lib/c'' ])])),
      ((''https://dbx.example/api/2.0/workspace/get-status'',
        path_arg ''/Workspace/Deployments/dev/files/src/usecase-1''),
       not_found),
      ((''https://dbx.example/api/2.0/workspace/get-status'',
        path_arg ''/Workspace/Deployments/dev/files/src/usecase-2''),
       ok_json (ws_entry ''DIRECTORY'' ''/Workspace/Deployments/dev/files/src/usecase-2'')),
      ((''https://dbx.example/api/2.0/workspace/list'',
        path_arg ''/Workspace/Deployments/dev/files/src/usecase-2''),
       ok_json (JDict [(''objects'', JList
         [ ws_entry ''NOTEBOOK'' ''/Workspace/Deployments/dev/files/src/usecase-2/main'' ])])),
      ((''https://dbx.example/api/2.0/clusters/list'', JNull),
       ok_json (JDict [(''clusters'', JList
         [ JDict [(''cluster_name'', JStr ''Prod-cluster''), (''state'', JStr ''TERMINATED'')],
           JDict [(''cluster_name'', JStr ''prod-cluster''), (''state'', JStr ''RUNNING'')] ])])),
      ((''https://dbx.example/api/2.0/workspace/get-status'',
        path_arg ''/Workspace/Deployments/dev''),
       ok_json (ws_entry ''DIRECTORY'' ''/Workspace/Deployments/dev'')),
      ((''https://dbx.example/api/2.0/workspace/get-status'',
        path_arg ''/Workspace/Deployments/prod/files/src/shared''),
       ok_json (ws_entry ''DIRECTORY'' ''/Workspace/Deployments/prod/files/src/shared'')),
      ((''https://dbx.example/api/2.0/workspace/list'',
        path_arg ''/Workspace/Deployments/prod/files/src/shared''),
       ok_json (JDict [])),
      ((''https://dbx.example/api/2.0/workspace/get-status'',
        path_arg ''/Workspace/Deployments/prod/files/src/usecase-1''),
       ok_json (JDict [(''object_type'', JStr ''DIRECTORY'')])),
      ((''https://dbx.example/api/2.0/workspace/get-status'',
        path_arg ''/Workspace/Deployments/prod/files/src/usecase-2''),
       ok_json (ws_entry ''DIRECTORY'' ''/Workspace/Deployments/prod/files/src/usecase-2'')),
      ((''https://dbx.example/api/2.0/workspace/list'',
        path_arg ''/Workspace/Deployments/prod/files/src/usecase-2''),
       ok_json (JDict [(''objects'', JList [])])),
      ((''https://dbx.example/api/2.0/workspace/get-status'',
        path_arg ''/Workspace/Deployments/test/files/src/usecase-2''),
       ok_json (ws_entry ''DIRECTORY'' ''/Workspace/Deployments/test/files/src/usecase-2'')),
      ((''https://dbx.example/api/2.0/workspace/list'',
        path_arg ''/Workspace/Deployments/test/files/src/usecase-2''),
       ok_json (JDict [(''objects'', JList
         [ ws_entry ''NOTEBOOK'' ''/Workspace/Deployments/test/files/src/usecase-2/etl'',
           ws_entry ''DIRECTORY'' ''/Workspace/Deployments/test/files/src/usecase-2/jobs'' ])])),
      ((''https://dbx.example/api/2.0/workspace/list'',
        path_arg ''/Workspace/Deployments/test/files/src/usecase-2/jobs''),
       ok_json (JDict [(''objects'', JList
         [ ws_entry ''NOTEBOOK'' ''/Workspace/Deployments/test/files/src/usecase-2/jobs/daily'' ])]))
    ]"

definition sample_rt :: "unit runtime" where
  "sample_rt =
     \<lparr> http = table_http sample_table,
       str_of = (\<lambda>j. case j of JStr s \<Rightarrow> s | _ \<Rightarrow> ''None''),
       now_isoformat = (\<lambda>w. (''2024-01-01T00:00:00'', w)),
       dump_report = (\<lambda>w file rep. (Inr (), w)) \<rparr>"

definition sample_args :: args where
  "sample_args =
     \<lparr> arg_env = Dev, arg_host = Some ''https://dbx.example/'', arg_token = Some ''secret'',
       arg_use_case = None, arg_validate_all = True, arg_smoke_test = False,
       arg_output_json = None \<rparr>"

definition sample_validator :: "env_choice \<Rightarrow> validator" where
  "sample_validator e = init_validator ''https://dbx.example/'' ''secret'' (env_name e)"

definition sys0 :: "unit sys" where
  "sys0 = \<lparr> world = (), stdout = [] \<rparr>"

text \<open>The same workspace on a machine where no report file can be opened for writing
  (\<^verbatim>\<open>open\<close> raises, as it does for a file in a directory that does not exist).\<close>

definition unwritable_rt :: "unit runtime" where
  "unwritable_rt =
     sample_rt\<lparr>dump_report :=
       (\<lambda>w file rep. (Inl (OSError (''[Errno 2] No such file or directory: '' @ file)), w))\<rparr>"

text \<open>A rank for the paths of the sample: the two nested directories are below all
  other paths.\<close>

definition sample_rank :: "json \<Rightarrow> nat" where
  "sample_rank p =
     (if p = JStr ''/Workspace/Deployments/dev/files/src/shared/lib''
         \<or> p = JStr ''/Workspace/Deployments/test/files/src/usecase-2/jobs'' then 0 else 1)"


section \<open>A workspace given as a tree\<close>

text \<open>
  A remote workspace whose content below a root path is a finite tree, answering listing
  requests from it: the reply to a request for the root or for the path of a directory of
  the tree lists the entries of its children, and any other path is not found. An entry is
  an object with \<^verbatim>\<open>object_type\<close> and \<^verbatim>\<open>path\<close>; an \<open>Other\<close> leaf is served as it is.
\<close>

fun entry_of :: "ws_object \<Rightarrow> json" where
  "entry_of (Notebook p) = JDict [(''object_type'', JStr ''NOTEBOOK''), (''path'', p)]"
| "entry_of (Directory p children) = JDict [(''object_type'', JStr ''DIRECTORY''), (''path'', p)]"
| "entry_of (Other obj) = obj"

fun directories :: "ws_object \<Rightarrow> (json \<times> ws_object list) list" where
  "directories (Notebook p) = []"
| "directories (Directory p children) = (p, children) # concat (map directories children)"
| "directories (Other obj) = []"

definition listings :: "json \<Rightarrow> ws_object list \<Rightarrow> (json \<times> ws_object list) list" where
  "listings root forest = (root, forest) # concat (map directories forest)"

definition serve_tree ::
  "json \<Rightarrow> ws_object list \<Rightarrow> unit \<Rightarrow> request \<Rightarrow> (string + response) \<times> unit" where
  "serve_tree root forest w req =
     (case py_get (req_json req) ''path'' of
        Inl e \<Rightarrow> (Inr not_found, ())
      | Inr p \<Rightarrow>
          (case map_of (listings root forest) p of
             None \<Rightarrow> (Inr not_found, ())
           | Some children \<Rightarrow>
               (Inr (ok_json (JDict [(''objects'', JList (map entry_of children))])), ())))"

text \<open>The nesting of a tree, and what makes a tree a proper description: the paths of the
  root and of the directories are distinct, and an \<open>Other\<close> leaf is an object of a type
  that is neither \<^verbatim>\<open>NOTEBOOK\<close> nor \<^verbatim>\<open>DIRECTORY\<close>.\<close>

fun nesting :: "ws_object \<Rightarrow> nat" where
  "nesting (Notebook p) = 0"
| "nesting (Directory p children) = Suc (foldr max (map nesting children) 0)"
| "nesting (Other obj) = 0"

definition plain_object :: "json \<Rightarrow> bool" where
  "plain_object obj =
     (is_dict obj \<and> py_get obj ''object_type'' \<noteq> Inr (JStr ''NOTEBOOK'')
        \<and> py_get obj ''object_type'' \<noteq> Inr (JStr ''DIRECTORY''))"

fun plain_leaves :: "ws_object \<Rightarrow> bool" where
  "plain_leaves (Notebook p) = True"
| "plain_leaves (Directory p children) = list_all plain_leaves children"
| "plain_leaves (Other obj) = plain_object obj"

definition proper_tree :: "json \<Rightarrow> ws_object list \<Rightarrow> bool" where
  "proper_tree root forest =
     (distinct (map fst (listings root forest)) \<and> list_all plain_leaves forest)"


section \<open>Properties\<close>

subsection \<open>The traversal and the remote tree\<close>

lemma list_objects_crawl:
  assumes calls: "\<And>p s. list_notebooks n rt self p s = with_paths [] (crawl n rt self p s)"
  shows "list_objects n rt self objs found s = with_paths found (crawl_objects n rt self objs s)"
proof (induction objs arbitrary: found s)
  case Nil
  show ?case by (simp add: with_paths_def)
next
  case (Cons obj objs)
  show ?case
    by (simp add: Cons.IH calls with_paths_def split: sum.splits option.splits prod.splits)
qed

lemma list_notebooks_crawl:
  "list_notebooks n rt self p s = with_paths [] (crawl n rt self p s)"
proof (induction n arbitrary: p s)
  case 0
  show ?case by (simp add: with_paths_def)
next
  case (Suc n)
  show ?case
    by (simp add: list_objects_crawl [OF Suc.IH] split: sum.splits prod.splits bool.splits)
       (simp add: with_paths_def)
qed

lemma length_notebook_paths: "length (notebook_paths t) = count_notebooks t"
proof (induction t)
  case (Directory p children)
  then show ?case by (induction children) simp_all
qed simp_all

lemma length_forest_paths:
  "length (concat (map notebook_paths ts)) = sum_list (map count_notebooks ts)"
  by (induction ts) (simp_all add: length_notebook_paths)

lemma list_notebooks_of_crawl:
  assumes "crawl n rt self p s = Some (Inr forest, s')"
  shows "list_notebooks n rt self p s = Some (Inr (concat (map notebook_paths forest)), s')"
  using assms by (simp add: list_notebooks_crawl with_paths_def)

text \<open>Allowing more nesting changes nothing once the traversal finishes.\<close>

lemma crawl_objects_mono:
  assumes calls: "\<And>p s. crawl n rt self p s \<noteq> None
                    \<Longrightarrow> crawl (Suc n) rt self p s = crawl n rt self p s"
  shows "crawl_objects n rt self objs s \<noteq> None
           \<Longrightarrow> crawl_objects (Suc n) rt self objs s = crawl_objects n rt self objs s"
proof (induction objs arbitrary: s)
  case Nil
  show ?case by simp
next
  case (Cons obj objs)
  show ?case
  proof (cases "py_get obj ''object_type''")
    case (Inl e)
    then show ?thesis by simp
  next
    case (Inr ty)
    show ?thesis
    proof (cases "py_getitem obj ''path''")
      case (Inl e)
      with Inr Cons show ?thesis
        by (auto split: option.splits sum.splits prod.splits if_splits simp del: crawl.simps)
    next
      case p: (Inr p)
      show ?thesis
      proof (cases "ty = JStr ''DIRECTORY''")
        case False
        with Inr p Cons show ?thesis
          by (auto split: option.splits sum.splits prod.splits if_splits simp del: crawl.simps)
      next
        case True
        with Inr p Cons.prems have c: "crawl n rt self p s \<noteq> None"
          by (auto split: option.splits simp del: crawl.simps)
        then obtain r s1 where r: "crawl n rt self p s = Some (r, s1)" by auto
        show ?thesis
        proof (cases r)
          case (Inl e)
          with True Inr p r c show ?thesis by (simp add: calls del: crawl.simps)
        next
          case children: (Inr children)
          with True Inr p r Cons.prems have "crawl_objects n rt self objs s1 \<noteq> None"
            by (auto split: option.splits simp del: crawl.simps)
          from Cons.IH [OF this] True Inr p r c children show ?thesis
            by (simp add: calls del: crawl.simps)
        qed
      qed
    qed
  qed
qed

lemma crawl_Suc:
  "crawl n rt self p s \<noteq> None \<Longrightarrow> crawl (Suc n) rt self p s = crawl n rt self p s"
proof (induction n arbitrary: p s)
  case 0
  then show ?case by simp
next
  case (Suc n)
  have objs: "\<And>objs s. crawl_objects n rt self objs s \<noteq> None
                \<Longrightarrow> crawl_objects (Suc n) rt self objs s = crawl_objects n rt self objs s"
    by (rule crawl_objects_mono) (rule Suc.IH)
  obtain response s1 where
    req: "make_request rt self ''/workspace/list'' ''POST'' (JDict [(''path'', p)]) s = (response, s1)"
    by (cases "make_request rt self ''/workspace/list'' ''POST'' (JDict [(''path'', p)]) s")
  have unfold: "\<And>k. crawl (Suc k) rt self p s =
          (case truthy_and_in response ''objects'' of
             Inl e \<Rightarrow> Some (Inl e, s1)
           | Inr False \<Rightarrow> Some (Inr [], s1)
           | Inr True \<Rightarrow>
               (case py_getitem response ''objects'' of
                  Inl e \<Rightarrow> Some (Inl e, s1)
                | Inr objects \<Rightarrow>
                    (case py_iter objects of
                       Inl e \<Rightarrow> Some (Inl e, s1)
                     | Inr objs \<Rightarrow> crawl_objects k rt self objs s1)))"
    by (simp add: req)
  from Suc.prems show ?case
    unfolding unfold
    by (auto split: sum.splits bool.splits simp: objs)
qed

lemma crawl_mono:
  "crawl n rt self p s = Some r \<Longrightarrow> n \<le> m \<Longrightarrow> crawl m rt self p s = Some r"
proof (induction m)
  case 0
  then show ?case by simp
next
  case (Suc m)
  show ?case
  proof (cases "n = Suc m")
    case True
    with Suc.prems show ?thesis by simp
  next
    case False
    with Suc.prems have "crawl m rt self p s = Some r" by (intro Suc.IH) simp_all
    then show ?thesis using crawl_Suc [of m rt self p s] by simp
  qed
qed

lemma list_notebooks_mono:
  assumes "list_notebooks n rt self p s = Some r" and "n \<le> m"
  shows "list_notebooks m rt self p s = Some r"
proof -
  from assms(1) obtain c where c: "crawl n rt self p s = Some c"
    by (auto simp add: list_notebooks_crawl with_paths_def split: option.splits)
  from crawl_mono [OF c assms(2)] c assms(1) show ?thesis
    by (simp add: list_notebooks_crawl)
qed


subsection \<open>\<^verbatim>\<open>_make_request\<close>\<close>

declare str_nat.simps [simp del]

text \<open>
  Claim C7. For every endpoint, method and body, \<^verbatim>\<open>_make_request\<close> gives its caller a value
  and never an exception (in the model: every exception of the \<^verbatim>\<open>try\<close> body, \<open>Inl m\<close>, is
  turned into the value \<open>JNull\<close>). The endpoint it uses starts with \<^verbatim>\<open>/api/2.0\<close>, which is
  prepended when the endpoint does not start with it. For an unsupported method nothing is
  sent, one line is printed and the result is \<open>JNull\<close> (\<^verbatim>\<open>None\<close>). For \<^verbatim>\<open>GET\<close> and \<^verbatim>\<open>POST\<close>
  the request goes out once: on an exception of the transport, a status other than 200, or
  a body of a 200 reply that does not parse, one line is printed and the result is \<open>JNull\<close>;
  on a 200 reply with a body that parses, the parsed body is returned and nothing is printed.
\<close>

theorem make_request_never_raises:
  "startswith (normalize_endpoint endpoint) ''/api/2.0''
   \<and> (startswith endpoint ''/api/2.0'' \<longrightarrow> normalize_endpoint endpoint = endpoint)
   \<and> (\<not> startswith endpoint ''/api/2.0'' \<longrightarrow>
        normalize_endpoint endpoint = ''/api/2.0'' @ endpoint)
   \<and> (meth \<noteq> ''GET'' \<and> meth \<noteq> ''POST'' \<longrightarrow>
        make_request rt self endpoint meth data s =
          (JNull, print (cross_mark @ '' Request error: Unsupported method: '' @ meth) s))
   \<and> (meth = ''GET'' \<or> meth = ''POST'' \<longrightarrow>
        (case http rt (world s) (sent_request self endpoint meth data) of
           (Inl m, w') \<Rightarrow>
             make_request rt self endpoint meth data s =
               (JNull, print (cross_mark @ '' Request error: '' @ m) (s\<lparr>world := w'\<rparr>))
         | (Inr resp, w') \<Rightarrow>
             (if status_code resp \<noteq> 200 then
                make_request rt self endpoint meth data s =
                  (JNull,
                   print (cross_mark @ '' API request failed: '' @ str_int (status_code resp)
                            @ '' - '' @ resp_text resp) (s\<lparr>world := w'\<rparr>))
              else
                (case resp_json resp of
                   Inr j \<Rightarrow> make_request rt self endpoint meth data s = (j, s\<lparr>world := w'\<rparr>)
                 | Inl m \<Rightarrow>
                     make_request rt self endpoint meth data s =
                       (JNull,
                        print (cross_mark @ '' Request error: '' @ m) (s\<lparr>world := w'\<rparr>))))))"
proof -
  have prefix: "startswith (normalize_endpoint endpoint) ''/api/2.0''"
    by (simp add: normalize_endpoint_def)
  have kept: "startswith endpoint ''/api/2.0'' \<longrightarrow> normalize_endpoint endpoint = endpoint"
    by (simp add: normalize_endpoint_def)
  have added: "\<not> startswith endpoint ''/api/2.0'' \<longrightarrow>
                 normalize_endpoint endpoint = ''/api/2.0'' @ endpoint"
    by (simp add: normalize_endpoint_def)
  have unsupported: "meth \<noteq> ''GET'' \<and> meth \<noteq> ''POST'' \<longrightarrow>
        make_request rt self endpoint meth data s =
          (JNull, print (cross_mark @ '' Request error: Unsupported method: '' @ meth) s)"
    by (simp add: make_request_def try_request_def)
  have sent: "meth = ''GET'' \<or> meth = ''POST'' \<longrightarrow>
        (case http rt (world s) (sent_request self endpoint meth data) of
           (Inl m, w') \<Rightarrow>
             make_request rt self endpoint meth data s =
               (JNull, print (cross_mark @ '' Request error: '' @ m) (s\<lparr>world := w'\<rparr>))
         | (Inr resp, w') \<Rightarrow>
             (if status_code resp \<noteq> 200 then
                make_request rt self endpoint meth data s =
                  (JNull,
                   print (cross_mark @ '' API request failed: '' @ str_int (status_code resp)
                            @ '' - '' @ resp_text resp) (s\<lparr>world := w'\<rparr>))
              else
                (case resp_json resp of
                   Inr j \<Rightarrow> make_request rt self endpoint meth data s = (j, s\<lparr>world := w'\<rparr>)
                 | Inl m \<Rightarrow>
                     make_request rt self endpoint meth data s =
                       (JNull,
                        print (cross_mark @ '' Request error: '' @ m) (s\<lparr>world := w'\<rparr>)))))"
    by (auto simp add: make_request_def try_request_def send_def sent_request_def
             split: prod.splits sum.splits)
  from prefix kept added unsupported sent show ?thesis by blast
qed

lemma sample_sys0_world: "sys0\<lparr>world := ()\<rparr> = sys0"
  by (simp add: sys0_def)

theorem make_request_never_raises_witness:
  "make_request sample_rt (sample_validator Dev) ''/workspace/list'' ''DELETE'' JNull sys0 =
     (JNull, print (cross_mark @ '' Request error: Unsupported method: DELETE'') sys0)
   \<and> make_request sample_rt (sample_validator Dev) ''/workspace/get-status'' ''POST''
        (path_arg ''/Workspace/Deployments/dev/files/src/usecase-1'') sys0 =
     (JNull, print (cross_mark @ '' API request failed: 404 - RESOURCE_DOES_NOT_EXIST'') sys0)
   \<and> make_request sample_rt (sample_validator Dev) ''/workspace/get-status'' ''POST''
        (path_arg ''/Workspace/Deployments/dev/files/src/usecase-3'') sys0 =
     (JNull, print (cross_mark @ '' Request error: connection refused'') sys0)
   \<and> make_request sample_rt (sample_validator Dev) ''/api/2.0/workspace/list'' ''POST''
        (path_arg ''/Workspace/Deployments/prod/files/src/shared'') sys0 =
     (JDict [], sys0)"
proof -
  have a: "make_request sample_rt (sample_validator Dev) ''/workspace/list'' ''DELETE'' JNull sys0 =
     (JNull, print (cross_mark @ '' Request error: Unsupported method: DELETE'') sys0)"
    using make_request_never_raises
            [where meth = "''DELETE''" and endpoint = "''/workspace/list''" and rt = sample_rt
               and self = "sample_validator Dev" and data = JNull and s = sys0]
    by simp
  have b: "make_request sample_rt (sample_validator Dev) ''/workspace/get-status'' ''POST''
        (path_arg ''/Workspace/Deployments/dev/files/src/usecase-1'') sys0 =
     (JNull, print (cross_mark @ '' API request failed: 404 - RESOURCE_DOES_NOT_EXIST'') sys0)"
    using make_request_never_raises
            [where meth = "''POST''" and endpoint = "''/workspace/get-status''"
               and rt = sample_rt and self = "sample_validator Dev"
               and data = "path_arg ''/Workspace/Deployments/dev/files/src/usecase-1''"
               and s = sys0]
    by (simp add: sample_rt_def table_http_def sample_table_def sent_request_def
          sample_validator_def init_validator_def normalize_endpoint_def rstrip_def
          path_arg_def not_found_def ok_json_def sample_sys0_world str_int_def str_nat.simps)
  have c: "make_request sample_rt (sample_validator Dev) ''/workspace/get-status'' ''POST''
        (path_arg ''/Workspace/Deployments/dev/files/src/usecase-3'') sys0 =
     (JNull, print (cross_mark @ '' Request error: connection refused'') sys0)"
    using make_request_never_raises
            [where meth = "''POST''" and endpoint = "''/workspace/get-status''"
               and rt = sample_rt and self = "sample_validator Dev"
               and data = "path_arg ''/Workspace/Deployments/dev/files/src/usecase-3''"
               and s = sys0]
    by (simp add: sample_rt_def table_http_def sample_table_def sent_request_def
          sample_validator_def init_validator_def normalize_endpoint_def rstrip_def
          path_arg_def not_found_def ok_json_def sample_sys0_world)
  have d: "make_request sample_rt (sample_validator Dev) ''/api/2.0/workspace/list'' ''POST''
        (path_arg ''/Workspace/Deployments/prod/files/src/shared'') sys0 =
     (JDict [], sys0)"
    using make_request_never_raises
            [where meth = "''POST''" and endpoint = "''/api/2.0/workspace/list''"
               and rt = sample_rt and self = "sample_validator Dev"
               and data = "path_arg ''/Workspace/Deployments/prod/files/src/shared''"
               and s = sys0]
    by (simp add: sample_rt_def table_http_def sample_table_def sent_request_def
          sample_validator_def init_validator_def normalize_endpoint_def rstrip_def
          path_arg_def not_found_def ok_json_def sample_sys0_world)
  from a b c d show ?thesis by blast
qed

subsection \<open>The existence probe\<close>

lemma check_path_exists_reply:
  "check_path_exists rt self path s =
     (case make_request rt self ''/workspace/get-status'' ''POST'' (JDict [(''path'', JStr path)]) s of
        (response, s1) \<Rightarrow> (truthy_and_in response ''path'', s1))"
  by (simp add: check_path_exists_def split: prod.splits sum.splits)

lemma lacks_path_absent: "lacks_path response \<Longrightarrow> truthy_and_in response ''path'' = Inr False"
  by (cases response) (simp_all add: truthy_and_in_def)

subsection \<open>The folder checks, case by case\<close>

lemma print_names_result:
  "fst (print_names nbs s) = (if list_all is_str nbs then Inr () else Inl AttributeError)"
  by (induction nbs s rule: print_names.induct) simp_all

lemma print_names_outcome:
  "(case print_names nbs s4 of
      (Inl e, s5) \<Rightarrow> Some (Inl e, self', s5)
    | (Inr u, s5) \<Rightarrow> Some (Inr True, self', s5))
   = Some (if list_all is_str nbs then Inr True else Inl AttributeError, self',
           snd (print_names nbs s4))"
proof (cases "print_names nbs s4")
  case (Pair r s5)
  with print_names_result [of nbs s4] show ?thesis
    by (auto split: sum.splits if_splits)
qed

lemma shared_absent:
  assumes "check_path_exists rt self (shared_path self) (entering_shared s) = (Inr False, s2)"
  shows "validate_shared_folder n rt self s =
           Some (Inr False,
                 append_result
                   \<lparr> component = ''shared'', status = ''FAILED'',
                     message = ''Shared folder not found at '' @ shared_path self,
                     notebooks = None, cluster_state = None \<rparr> self,
                 print (''  '' @ cross_mark @ '' Shared folder not found at '' @ shared_path self) s2)"
  using assms by (simp add: validate_shared_folder_def shared_path_def entering_shared_def Let_def)

lemma shared_raises:
  assumes "check_path_exists rt self (shared_path self) (entering_shared s) = (Inl e, s2)"
  shows "validate_shared_folder n rt self s = Some (Inl e, self, s2)"
  using assms by (simp add: validate_shared_folder_def shared_path_def entering_shared_def Let_def)

lemma shared_present:
  assumes "check_path_exists rt self (shared_path self) (entering_shared s) = (Inr True, s2)"
  shows "validate_shared_folder n rt self s =
          (case list_notebooks n rt self (JStr (shared_path self)) s2 of
             None \<Rightarrow> None
           | Some (Inl e, s3) \<Rightarrow> Some (Inl e, self, s3)
           | Some (Inr nbs, s3) \<Rightarrow>
               (if nbs = [] then
                  Some (Inr True,
                        append_result
                          \<lparr> component = ''shared'', status = ''WARNING'',
                            message = ''Shared folder exists but contains no notebooks'',
                            notebooks = None, cluster_state = None \<rparr> self,
                        print (''  '' @ warning_sign
                                 @ ''  Shared folder exists but contains no notebooks'') s3)
                else
                  Some (if list_all is_str nbs then Inr True else Inl AttributeError,
                        append_result
                          \<lparr> component = ''shared'', status = ''PASSED'',
                            message = ''Found '' @ str_nat (length nbs)
                                        @ '' notebooks in shared folder'',
                            notebooks = Some nbs, cluster_state = None \<rparr> self,
                        snd (print_names nbs
                               (print (''  '' @ check_mark @ '' Shared folder validated - ''
                                         @ str_nat (length nbs) @ '' notebooks found'') s3)))))"
proof -
  note names = print_names_outcome
  from assms show ?thesis
    by (simp add: validate_shared_folder_def shared_path_def entering_shared_def Let_def names
             split: option.splits sum.splits prod.splits)
qed

lemma use_case_absent:
  assumes "check_path_exists rt self (use_case_path self uc) (entering_use_case uc s) = (Inr False, s2)"
  shows "validate_use_case n rt uc self s =
           Some (Inr False,
                 append_result
                   \<lparr> component = uc, status = ''FAILED'',
                     message = uc @ '' folder not found at '' @ use_case_path self uc,
                     notebooks = None, cluster_state = None \<rparr> self,
                 print (''  '' @ cross_mark @ '' '' @ uc @ '' folder not found at ''
                          @ use_case_path self uc) s2)"
  using assms by (simp add: validate_use_case_def use_case_path_def entering_use_case_def Let_def)

lemma use_case_raises:
  assumes "check_path_exists rt self (use_case_path self uc) (entering_use_case uc s) = (Inl e, s2)"
  shows "validate_use_case n rt uc self s = Some (Inl e, self, s2)"
  using assms by (simp add: validate_use_case_def use_case_path_def entering_use_case_def Let_def)

lemma use_case_present:
  assumes "check_path_exists rt self (use_case_path self uc) (entering_use_case uc s) = (Inr True, s2)"
  shows "validate_use_case n rt uc self s =
          (case list_notebooks n rt self (JStr (use_case_path self uc)) s2 of
             None \<Rightarrow> None
           | Some (Inl e, s3) \<Rightarrow> Some (Inl e, self, s3)
           | Some (Inr nbs, s3) \<Rightarrow>
               (if nbs = [] then
                  Some (Inr True,
                        append_result
                          \<lparr> component = uc, status = ''WARNING'',
                            message = uc @ '' folder exists but contains no notebooks'',
                            notebooks = None, cluster_state = None \<rparr> self,
                        print (''  '' @ warning_sign @ ''  '' @ uc
                                 @ '' folder exists but contains no notebooks'') s3)
                else
                  Some (if list_all is_str nbs then Inr True else Inl AttributeError,
                        append_result
                          \<lparr> component = uc, status = ''PASSED'',
                            message = ''Found '' @ str_nat (length nbs) @ '' notebooks in '' @ uc,
                            notebooks = Some nbs, cluster_state = None \<rparr> self,
                        snd (print_names nbs
                               (print (''  '' @ check_mark @ '' '' @ uc @ '' validated - ''
                                         @ str_nat (length nbs) @ '' notebooks found'') s3)))))"
proof -
  note names = print_names_outcome
  from assms show ?thesis
    by (simp add: validate_use_case_def use_case_path_def entering_use_case_def Let_def names
             split: option.splits sum.splits prod.splits)
qed

text \<open>
  Claim C10. \<^verbatim>\<open>check_path_exists\<close> returns \<^verbatim>\<open>False\<close> when the probe request gives no result
  (\<open>JNull\<close>: a transport error or a status other than 200) and when the reply is an object
  without a \<^verbatim>\<open>path\<close> key; the check cannot tell the two apart. Either way the shared-folder
  check and the use-case check append one \<^verbatim>\<open>FAILED\<close> result and return \<^verbatim>\<open>False\<close>.
\<close>

theorem probe_failure_reads_as_absence:
  "(\<forall>response s1.
      make_request rt self ''/workspace/get-status'' ''POST'' (JDict [(''path'', JStr path)]) s
        = (response, s1) \<and> lacks_path response
      \<longrightarrow> check_path_exists rt self path s = (Inr False, s1))
   \<and> (\<forall>response s2.
      make_request rt self ''/workspace/get-status'' ''POST''
        (JDict [(''path'', JStr (shared_path self))]) (entering_shared s) = (response, s2)
        \<and> lacks_path response
      \<longrightarrow> validate_shared_folder n rt self s =
            Some (Inr False,
                  append_result
                    \<lparr> component = ''shared'', status = ''FAILED'',
                      message = ''Shared folder not found at '' @ shared_path self,
                      notebooks = None, cluster_state = None \<rparr> self,
                  print (''  '' @ cross_mark @ '' Shared folder not found at ''
                           @ shared_path self) s2))
   \<and> (\<forall>response s2.
      make_request rt self ''/workspace/get-status'' ''POST''
        (JDict [(''path'', JStr (use_case_path self uc))]) (entering_use_case uc s) = (response, s2)
        \<and> lacks_path response
      \<longrightarrow> validate_use_case n rt uc self s =
            Some (Inr False,
                  append_result
                    \<lparr> component = uc, status = ''FAILED'',
                      message = uc @ '' folder not found at '' @ use_case_path self uc,
                      notebooks = None, cluster_state = None \<rparr> self,
                  print (''  '' @ cross_mark @ '' '' @ uc @ '' folder not found at ''
                           @ use_case_path self uc) s2))"
proof (intro conjI allI impI)
  fix response s1
  assume "make_request rt self ''/workspace/get-status'' ''POST'' (JDict [(''path'', JStr path)]) s
            = (response, s1) \<and> lacks_path response"
  then show "check_path_exists rt self path s = (Inr False, s1)"
    by (simp add: check_path_exists_reply lacks_path_absent)
next
  fix response s2
  assume "make_request rt self ''/workspace/get-status'' ''POST''
            (JDict [(''path'', JStr (shared_path self))]) (entering_shared s) = (response, s2)
          \<and> lacks_path response"
  then have "check_path_exists rt self (shared_path self) (entering_shared s) = (Inr False, s2)"
    by (simp add: check_path_exists_reply lacks_path_absent)
  then show "validate_shared_folder n rt self s =
            Some (Inr False,
                  append_result
                    \<lparr> component = ''shared'', status = ''FAILED'',
                      message = ''Shared folder not found at '' @ shared_path self,
                      notebooks = None, cluster_state = None \<rparr> self,
                  print (''  '' @ cross_mark @ '' Shared folder not found at ''
                           @ shared_path self) s2)"
    by (rule shared_absent)
next
  fix response s2
  assume "make_request rt self ''/workspace/get-status'' ''POST''
            (JDict [(''path'', JStr (use_case_path self uc))]) (entering_use_case uc s) = (response, s2)
          \<and> lacks_path response"
  then have "check_path_exists rt self (use_case_path self uc) (entering_use_case uc s)
               = (Inr False, s2)"
    by (simp add: check_path_exists_reply lacks_path_absent)
  then show "validate_use_case n rt uc self s =
            Some (Inr False,
                  append_result
                    \<lparr> component = uc, status = ''FAILED'',
                      message = uc @ '' folder not found at '' @ use_case_path self uc,
                      notebooks = None, cluster_state = None \<rparr> self,
                  print (''  '' @ cross_mark @ '' '' @ uc @ '' folder not found at ''
                           @ use_case_path self uc) s2)"
    by (rule use_case_absent)
qed

text \<open>In the sample, the probe of \<^verbatim>\<open>usecase-1\<close> fails with status 404 in \<^verbatim>\<open>dev\<close> and is
  answered by an object without a path in \<^verbatim>\<open>prod\<close>: both checks report \<^verbatim>\<open>FAILED\<close>.\<close>

theorem probe_failure_reads_as_absence_witness:
  "map_option (\<lambda>r. (fst r, map status (validation_results (fst (snd r)))))
     (validate_use_case 0 sample_rt ''usecase-1'' (sample_validator Dev) sys0)
     = Some (Inr False, [''FAILED''])
   \<and> map_option (\<lambda>r. (fst r, map status (validation_results (fst (snd r)))))
     (validate_use_case 0 sample_rt ''usecase-1'' (sample_validator Prod) sys0)
     = Some (Inr False, [''FAILED''])"
proof -
  have dev: "make_request sample_rt (sample_validator Dev) ''/workspace/get-status'' ''POST''
        (JDict [(''path'', JStr (use_case_path (sample_validator Dev) ''usecase-1''))])
        (entering_use_case ''usecase-1'' sys0)
      = (JNull, print (cross_mark @ '' API request failed: 404 - RESOURCE_DOES_NOT_EXIST'')
                  (entering_use_case ''usecase-1'' sys0))
     \<and> lacks_path JNull"
    by code_simp
  have prod: "make_request sample_rt (sample_validator Prod) ''/workspace/get-status'' ''POST''
        (JDict [(''path'', JStr (use_case_path (sample_validator Prod) ''usecase-1''))])
        (entering_use_case ''usecase-1'' sys0)
      = (JDict [(''object_type'', JStr ''DIRECTORY'')], entering_use_case ''usecase-1'' sys0)
     \<and> lacks_path (JDict [(''object_type'', JStr ''DIRECTORY'')])"
    by code_simp
  from probe_failure_reads_as_absence [of sample_rt "sample_validator Dev" _ sys0 0 "''usecase-1''"]
    dev
  have "validate_use_case 0 sample_rt ''usecase-1'' (sample_validator Dev) sys0 =
            Some (Inr False,
                  append_result
                    \<lparr> component = ''usecase-1'', status = ''FAILED'',
                      message = ''usecase-1'' @ '' folder not found at ''
                                  @ use_case_path (sample_validator Dev) ''usecase-1'',
                      notebooks = None, cluster_state = None \<rparr> (sample_validator Dev),
                  print (''  '' @ cross_mark @ '' '' @ ''usecase-1'' @ '' folder not found at ''
                           @ use_case_path (sample_validator Dev) ''usecase-1'')
                    (print (cross_mark @ '' API request failed: 404 - RESOURCE_DOES_NOT_EXIST'')
                       (entering_use_case ''usecase-1'' sys0)))"
    by blast
  then have a: "map_option (\<lambda>r. (fst r, map status (validation_results (fst (snd r)))))
     (validate_use_case 0 sample_rt ''usecase-1'' (sample_validator Dev) sys0)
     = Some (Inr False, [''FAILED''])"
    by (simp add: append_result_def sample_validator_def init_validator_def)
  from probe_failure_reads_as_absence [of sample_rt "sample_validator Prod" _ sys0 0 "''usecase-1''"]
    prod
  have "validate_use_case 0 sample_rt ''usecase-1'' (sample_validator Prod) sys0 =
            Some (Inr False,
                  append_result
                    \<lparr> component = ''usecase-1'', status = ''FAILED'',
                      message = ''usecase-1'' @ '' folder not found at ''
                                  @ use_case_path (sample_validator Prod) ''usecase-1'',
                      notebooks = None, cluster_state = None \<rparr> (sample_validator Prod),
                  print (''  '' @ cross_mark @ '' '' @ ''usecase-1'' @ '' folder not found at ''
                           @ use_case_path (sample_validator Prod) ''usecase-1'')
                    (entering_use_case ''usecase-1'' sys0))"
    by blast
  then have b: "map_option (\<lambda>r. (fst r, map status (validation_results (fst (snd r)))))
     (validate_use_case 0 sample_rt ''usecase-1'' (sample_validator Prod) sys0)
     = Some (Inr False, [''FAILED''])"
    by (simp add: append_result_def sample_validator_def init_validator_def)
  from a b show ?thesis by blast
qed

lemma forest_empty_iff:
  "(concat (map notebook_paths forest) = []) = (sum_list (map count_notebooks forest) = 0)"
  using length_forest_paths [of forest] by (metis length_0_conv)

lemma shared_listed:
  assumes probe: "check_path_exists rt self (shared_path self) (entering_shared s) = (Inr True, s2)"
    and tree: "crawl n rt self (JStr (shared_path self)) s2 = Some (Inr forest, s3)"
  shows "validate_shared_folder n rt self s =
          (if sum_list (map count_notebooks forest) = 0 then
             Some (Inr True,
                   append_result
                     \<lparr> component = ''shared'', status = ''WARNING'',
                       message = ''Shared folder exists but contains no notebooks'',
                       notebooks = None, cluster_state = None \<rparr> self,
                   print (''  '' @ warning_sign
                            @ ''  Shared folder exists but contains no notebooks'') s3)
           else
             Some (if list_all is_str (concat (map notebook_paths forest)) then Inr True
                   else Inl AttributeError,
                   append_result
                     \<lparr> component = ''shared'', status = ''PASSED'',
                       message = ''Found '' @ str_nat (sum_list (map count_notebooks forest))
                                   @ '' notebooks in shared folder'',
                       notebooks = Some (concat (map notebook_paths forest)),
                       cluster_state = None \<rparr> self,
                   snd (print_names (concat (map notebook_paths forest))
                          (print (''  '' @ check_mark @ '' Shared folder validated - ''
                                    @ str_nat (sum_list (map count_notebooks forest))
                                    @ '' notebooks found'') s3))))"
proof -
  define nbs where "nbs = concat (map notebook_paths forest)"
  define k where "k = sum_list (map count_notebooks forest)"
  have len: "length nbs = k"
    by (simp add: nbs_def k_def length_forest_paths)
  then have empty: "(nbs = []) = (k = 0)" by auto
  have listing: "list_notebooks n rt self (JStr (shared_path self)) s2 = Some (Inr nbs, s3)"
    unfolding nbs_def by (rule list_notebooks_of_crawl [OF tree])
  show ?thesis
    unfolding nbs_def [symmetric] k_def [symmetric]
    by (simp add: shared_present [OF probe] listing empty len)
qed

lemma use_case_listed:
  assumes probe: "check_path_exists rt self (use_case_path self uc) (entering_use_case uc s)
                    = (Inr True, s2)"
    and tree: "crawl n rt self (JStr (use_case_path self uc)) s2 = Some (Inr forest, s3)"
  shows "validate_use_case n rt uc self s =
          (if sum_list (map count_notebooks forest) = 0 then
             Some (Inr True,
                   append_result
                     \<lparr> component = uc, status = ''WARNING'',
                       message = uc @ '' folder exists but contains no notebooks'',
                       notebooks = None, cluster_state = None \<rparr> self,
                   print (''  '' @ warning_sign @ ''  '' @ uc
                            @ '' folder exists but contains no notebooks'') s3)
           else
             Some (if list_all is_str (concat (map notebook_paths forest)) then Inr True
                   else Inl AttributeError,
                   append_result
                     \<lparr> component = uc, status = ''PASSED'',
                       message = ''Found '' @ str_nat (sum_list (map count_notebooks forest))
                                   @ '' notebooks in '' @ uc,
                       notebooks = Some (concat (map notebook_paths forest)),
                       cluster_state = None \<rparr> self,
                   snd (print_names (concat (map notebook_paths forest))
                          (print (''  '' @ check_mark @ '' '' @ uc @ '' validated - ''
                                    @ str_nat (sum_list (map count_notebooks forest))
                                    @ '' notebooks found'') s3))))"
proof -
  define nbs where "nbs = concat (map notebook_paths forest)"
  define k where "k = sum_list (map count_notebooks forest)"
  have len: "length nbs = k"
    by (simp add: nbs_def k_def length_forest_paths)
  then have empty: "(nbs = []) = (k = 0)" by auto
  have listing: "list_notebooks n rt self (JStr (use_case_path self uc)) s2 = Some (Inr nbs, s3)"
    unfolding nbs_def by (rule list_notebooks_of_crawl [OF tree])
  show ?thesis
    unfolding nbs_def [symmetric] k_def [symmetric]
    by (simp add: use_case_present [OF probe] listing empty len)
qed

text \<open>
  Claim C4. A folder check (the shared folder, or a use case \<open>uc\<close>) appends exactly one
  result. When the existence probe reports the folder absent, the result is \<^verbatim>\<open>FAILED\<close> and the
  check returns \<^verbatim>\<open>False\<close>. When the folder exists and the remote tree below it, \<open>forest\<close>,
  has no notebook leaf (so that the listing is empty), the result is \<^verbatim>\<open>WARNING\<close> and the check
  returns \<^verbatim>\<open>True\<close>. When the tree has notebook leaves, the result is \<^verbatim>\<open>PASSED\<close>, its message
  carries their number, counted over the nested tree, and its \<^verbatim>\<open>notebooks\<close> are their paths;
  the check then returns \<^verbatim>\<open>True\<close>, unless a path is not a string and printing its last segment
  raises \<^verbatim>\<open>AttributeError\<close>.
\<close>

theorem folder_check_results:
  "(\<forall>s2. check_path_exists rt self (shared_path self) (entering_shared s) = (Inr False, s2) \<longrightarrow>
      validate_shared_folder n rt self s =
        Some (Inr False,
              append_result
                \<lparr> component = ''shared'', status = ''FAILED'',
                  message = ''Shared folder not found at '' @ shared_path self,
                  notebooks = None, cluster_state = None \<rparr> self,
              print (''  '' @ cross_mark @ '' Shared folder not found at '' @ shared_path self) s2))
   \<and> (\<forall>s2 s3 forest.
        check_path_exists rt self (shared_path self) (entering_shared s) = (Inr True, s2)
        \<and> crawl n rt self (JStr (shared_path self)) s2 = Some (Inr forest, s3) \<longrightarrow>
        validate_shared_folder n rt self s =
          (if sum_list (map count_notebooks forest) = 0 then
             Some (Inr True,
                   append_result
                     \<lparr> component = ''shared'', status = ''WARNING'',
                       message = ''Shared folder exists but contains no notebooks'',
                       notebooks = None, cluster_state = None \<rparr> self,
                   print (''  '' @ warning_sign
                            @ ''  Shared folder exists but contains no notebooks'') s3)
           else
             Some (if list_all is_str (concat (map notebook_paths forest)) then Inr True
                   else Inl AttributeError,
                   append_result
                     \<lparr> component = ''shared'', status = ''PASSED'',
                       message = ''Found '' @ str_nat (sum_list (map count_notebooks forest))
                                   @ '' notebooks in shared folder'',
                       notebooks = Some (concat (map notebook_paths forest)),
                       cluster_state = None \<rparr> self,
                   snd (print_names (concat (map notebook_paths forest))
                          (print (''  '' @ check_mark @ '' Shared folder validated - ''
                                    @ str_nat (sum_list (map count_notebooks forest))
                                    @ '' notebooks found'') s3)))))
   \<and> (\<forall>s2. check_path_exists rt self (use_case_path self uc) (entering_use_case uc s)
               = (Inr False, s2) \<longrightarrow>
      validate_use_case n rt uc self s =
        Some (Inr False,
              append_result
                \<lparr> component = uc, status = ''FAILED'',
                  message = uc @ '' folder not found at '' @ use_case_path self uc,
                  notebooks = None, cluster_state = None \<rparr> self,
              print (''  '' @ cross_mark @ '' '' @ uc @ '' folder not found at ''
                       @ use_case_path self uc) s2))
   \<and> (\<forall>s2 s3 forest.
        check_path_exists rt self (use_case_path self uc) (entering_use_case uc s) = (Inr True, s2)
        \<and> crawl n rt self (JStr (use_case_path self uc)) s2 = Some (Inr forest, s3) \<longrightarrow>
        validate_use_case n rt uc self s =
          (if sum_list (map count_notebooks forest) = 0 then
             Some (Inr True,
                   append_result
                     \<lparr> component = uc, status = ''WARNING'',
                       message = uc @ '' folder exists but contains no notebooks'',
                       notebooks = None, cluster_state = None \<rparr> self,
                   print (''  '' @ warning_sign @ ''  '' @ uc
                            @ '' folder exists but contains no notebooks'') s3)
           else
             Some (if list_all is_str (concat (map notebook_paths forest)) then Inr True
                   else Inl AttributeError,
                   append_result
                     \<lparr> component = uc, status = ''PASSED'',
                       message = ''Found '' @ str_nat (sum_list (map count_notebooks forest))
                                   @ '' notebooks in '' @ uc,
                       notebooks = Some (concat (map notebook_paths forest)),
                       cluster_state = None \<rparr> self,
                   snd (print_names (concat (map notebook_paths forest))
                          (print (''  '' @ check_mark @ '' '' @ uc @ '' validated - ''
                                    @ str_nat (sum_list (map count_notebooks forest))
                                    @ '' notebooks found'') s3)))))"
proof (intro conjI allI impI)
  fix s2
  assume "check_path_exists rt self (shared_path self) (entering_shared s) = (Inr False, s2)"
  then show "validate_shared_folder n rt self s =
        Some (Inr False,
              append_result
                \<lparr> component = ''shared'', status = ''FAILED'',
                  message = ''Shared folder not found at '' @ shared_path self,
                  notebooks = None, cluster_state = None \<rparr> self,
              print (''  '' @ cross_mark @ '' Shared folder not found at '' @ shared_path self) s2)"
    by (rule shared_absent)
next
  fix s2 s3 forest
  assume h: "check_path_exists rt self (shared_path self) (entering_shared s) = (Inr True, s2)
        \<and> crawl n rt self (JStr (shared_path self)) s2 = Some (Inr forest, s3)"
  show "validate_shared_folder n rt self s =
          (if sum_list (map count_notebooks forest) = 0 then
             Some (Inr True,
                   append_result
                     \<lparr> component = ''shared'', status = ''WARNING'',
                       message = ''Shared folder exists but contains no notebooks'',
                       notebooks = None, cluster_state = None \<rparr> self,
                   print (''  '' @ warning_sign
                            @ ''  Shared folder exists but contains no notebooks'') s3)
           else
             Some (if list_all is_str (concat (map notebook_paths forest)) then Inr True
                   else Inl AttributeError,
                   append_result
                     \<lparr> component = ''shared'', status = ''PASSED'',
                       message = ''Found '' @ str_nat (sum_list (map count_notebooks forest))
                                   @ '' notebooks in shared folder'',
                       notebooks = Some (concat (map notebook_paths forest)),
                       cluster_state = None \<rparr> self,
                   snd (print_names (concat (map notebook_paths forest))
                          (print (''  '' @ check_mark @ '' Shared folder validated - ''
                                    @ str_nat (sum_list (map count_notebooks forest))
                                    @ '' notebooks found'') s3))))"
    by (rule shared_listed [OF conjunct1 [OF h] conjunct2 [OF h]])
next
  fix s2
  assume "check_path_exists rt self (use_case_path self uc) (entering_use_case uc s)
            = (Inr False, s2)"
  then show "validate_use_case n rt uc self s =
        Some (Inr False,
              append_result
                \<lparr> component = uc, status = ''FAILED'',
                  message = uc @ '' folder not found at '' @ use_case_path self uc,
                  notebooks = None, cluster_state = None \<rparr> self,
              print (''  '' @ cross_mark @ '' '' @ uc @ '' folder not found at ''
                       @ use_case_path self uc) s2)"
    by (rule use_case_absent)
next
  fix s2 s3 forest
  assume h: "check_path_exists rt self (use_case_path self uc) (entering_use_case uc s)
               = (Inr True, s2)
        \<and> crawl n rt self (JStr (use_case_path self uc)) s2 = Some (Inr forest, s3)"
  show "validate_use_case n rt uc self s =
          (if sum_list (map count_notebooks forest) = 0 then
             Some (Inr True,
                   append_result
                     \<lparr> component = uc, status = ''WARNING'',
                       message = uc @ '' folder exists but contains no notebooks'',
                       notebooks = None, cluster_state = None \<rparr> self,
                   print (''  '' @ warning_sign @ ''  '' @ uc
                            @ '' folder exists but contains no notebooks'') s3)
           else
             Some (if list_all is_str (concat (map notebook_paths forest)) then Inr True
                   else Inl AttributeError,
                   append_result
                     \<lparr> component = uc, status = ''PASSED'',
                       message = ''Found '' @ str_nat (sum_list (map count_notebooks forest))
                                   @ '' notebooks in '' @ uc,
                       notebooks = Some (concat (map notebook_paths forest)),
                       cluster_state = None \<rparr> self,
                   snd (print_names (concat (map notebook_paths forest))
                          (print (''  '' @ check_mark @ '' '' @ uc @ '' validated - ''
                                    @ str_nat (sum_list (map count_notebooks forest))
                                    @ '' notebooks found'') s3))))"
    by (rule use_case_listed [OF conjunct1 [OF h] conjunct2 [OF h]])
qed

text \<open>In the sample: the shared folder of \<^verbatim>\<open>dev\<close> has three notebooks, one of them nested;
  the shared folder of \<^verbatim>\<open>prod\<close> is empty; the shared folder of \<^verbatim>\<open>test\<close> does not answer.\<close>

theorem folder_check_results_witness:
  "map_option (\<lambda>r. (fst r, map (\<lambda>x. (status x, message x)) (validation_results (fst (snd r)))))
     (validate_shared_folder 2 sample_rt (sample_validator Dev) sys0)
     = Some (Inr True, [(''PASSED'', ''Found 3 notebooks in shared folder'')])
   \<and> map_option (\<lambda>r. (fst r, map (\<lambda>x. (status x, message x)) (validation_results (fst (snd r)))))
     (validate_shared_folder 2 sample_rt (sample_validator Prod) sys0)
     = Some (Inr True, [(''WARNING'', ''Shared folder exists but contains no notebooks'')])
   \<and> map_option (\<lambda>r. (fst r, map (\<lambda>x. (status x, message x)) (validation_results (fst (snd r)))))
     (validate_shared_folder 2 sample_rt (sample_validator Test) sys0)
     = Some (Inr False,
             [(''FAILED'', ''Shared folder not found at /Workspace/Deployments/test/files/src/shared'')])"
proof -
  let ?view = "map_option (\<lambda>r :: (py_error + bool) \<times> validator \<times> unit sys.
                  (fst r, map (\<lambda>x. (status x, message x)) (validation_results (fst (snd r)))))"
  have dev_probe: "check_path_exists sample_rt (sample_validator Dev)
          (shared_path (sample_validator Dev)) (entering_shared sys0)
        = (Inr True, entering_shared sys0)"
    by code_simp
  have dev_tree: "crawl 2 sample_rt (sample_validator Dev)
          (JStr (shared_path (sample_validator Dev))) (entering_shared sys0)
        = Some (Inr [Notebook (JStr ''/Workspace/Deployments/dev/files/src/shared/a''),
                     Directory (JStr ''/Workspace/Deployments/dev/files/src/shared/lib'')
                       [Notebook (JStr ''/Workspace/Deployments/dev/files/src/shared/lib/c'')],
                     Other (ws_entry ''FILE'' ''/Workspace/Deployments/dev/files/src/shared/readme''),
                     Notebook (JStr ''/Workspace/Deployments/dev/files/src/shared/b'')],
                entering_shared sys0)"
    by code_simp
  have dev: "?view (validate_shared_folder 2 sample_rt (sample_validator Dev) sys0)
     = Some (Inr True, [(''PASSED'', ''Found 3 notebooks in shared folder'')])"
    using folder_check_results [of sample_rt "sample_validator Dev" sys0 2,
            THEN conjunct2, THEN conjunct1, rule_format, OF conjI [OF dev_probe dev_tree]]
    by (simp add: append_result_def sample_validator_def init_validator_def str_nat.simps)
  have prod_probe: "check_path_exists sample_rt (sample_validator Prod)
          (shared_path (sample_validator Prod)) (entering_shared sys0)
        = (Inr True, entering_shared sys0)"
    by code_simp
  have prod_tree: "crawl 2 sample_rt (sample_validator Prod)
          (JStr (shared_path (sample_validator Prod))) (entering_shared sys0)
        = Some (Inr [], entering_shared sys0)"
    by code_simp
  have prod: "?view (validate_shared_folder 2 sample_rt (sample_validator Prod) sys0)
     = Some (Inr True, [(''WARNING'', ''Shared folder exists but contains no notebooks'')])"
    using folder_check_results [of sample_rt "sample_validator Prod" sys0 2,
            THEN conjunct2, THEN conjunct1, rule_format, OF conjI [OF prod_probe prod_tree]]
    by (simp add: append_result_def sample_validator_def init_validator_def)
  have test_probe: "check_path_exists sample_rt (sample_validator Test)
          (shared_path (sample_validator Test)) (entering_shared sys0)
        = (Inr False, print (cross_mark @ '' Request error: connection refused'')
                        (entering_shared sys0))"
    by code_simp
  have test: "?view (validate_shared_folder 2 sample_rt (sample_validator Test) sys0)
     = Some (Inr False,
             [(''FAILED'', ''Shared folder not found at /Workspace/Deployments/test/files/src/shared'')])"
    using folder_check_results [of sample_rt "sample_validator Test" sys0 2,
            THEN conjunct1, rule_format, OF test_probe]
    by (simp add: append_result_def sample_validator_def init_validator_def shared_path_def)
  from dev prod test show ?thesis by blast
qed

subsection \<open>\<^verbatim>\<open>list_notebooks\<close>\<close>

text \<open>
  Claim C6. When the listing request gives no result (\<open>JNull\<close>), \<^verbatim>\<open>list_notebooks\<close> returns
  the empty list. In general its result is read off the remote tree below the path: the
  paths of the notebook leaves, a directory's notebooks in place of the directory, in the
  order in which the API listed the objects (and it raises or fails to finish exactly when
  the crawl of the tree does). The loop over the objects only appends to the notebooks
  found before.
\<close>

theorem list_notebooks_preorder:
  "(\<forall>s1. make_request rt self ''/workspace/list'' ''POST'' (JDict [(''path'', path)]) s = (JNull, s1)
      \<longrightarrow> list_notebooks (Suc n) rt self path s = Some (Inr [], s1))
   \<and> list_notebooks n rt self path s = with_paths [] (crawl n rt self path s)
   \<and> list_objects n rt self objs found s = with_paths found (crawl_objects n rt self objs s)"
proof (intro conjI allI impI)
  fix s1
  assume "make_request rt self ''/workspace/list'' ''POST'' (JDict [(''path'', path)]) s = (JNull, s1)"
  then show "list_notebooks (Suc n) rt self path s = Some (Inr [], s1)"
    by (simp add: truthy_and_in_def)
next
  show "list_notebooks n rt self path s = with_paths [] (crawl n rt self path s)"
    by (rule list_notebooks_crawl)
next
  show "list_objects n rt self objs found s = with_paths found (crawl_objects n rt self objs s)"
    by (rule list_objects_crawl) (rule list_notebooks_crawl)
qed

text \<open>In the sample the shared folder of \<^verbatim>\<open>dev\<close> lists \<^verbatim>\<open>a\<close>, the directory \<^verbatim>\<open>lib\<close> (holding
  \<^verbatim>\<open>c\<close>), a file and \<^verbatim>\<open>b\<close>, in this order; a folder that does not answer lists nothing.\<close>

theorem list_notebooks_preorder_witness:
  "list_notebooks 2 sample_rt (sample_validator Dev)
     (JStr ''/Workspace/Deployments/dev/files/src/shared'') sys0
     = Some (Inr [JStr ''/Workspace/Deployments/dev/files/src/shared/a'',
                  JStr ''/Workspace/Deployments/dev/files/src/shared/lib/c'',
                  JStr ''/Workspace/Deployments/dev/files/src/shared/b''], sys0)
   \<and> list_notebooks 1 sample_rt (sample_validator Dev)
     (JStr ''/Workspace/Deployments/dev/files/src/nowhere'') sys0
     = Some (Inr [], print (cross_mark @ '' Request error: connection refused'') sys0)"
proof -
  have tree: "crawl 2 sample_rt (sample_validator Dev)
          (JStr ''/Workspace/Deployments/dev/files/src/shared'') sys0
        = Some (Inr [Notebook (JStr ''/Workspace/Deployments/dev/files/src/shared/a''),
                     Directory (JStr ''/Workspace/Deployments/dev/files/src/shared/lib'')
                       [Notebook (JStr ''/Workspace/Deployments/dev/files/src/shared/lib/c'')],
                     Other (ws_entry ''FILE'' ''/Workspace/Deployments/dev/files/src/shared/readme''),
                     Notebook (JStr ''/Workspace/Deployments/dev/files/src/shared/b'')],
                sys0)"
    by code_simp
  have a: "list_notebooks 2 sample_rt (sample_validator Dev)
     (JStr ''/Workspace/Deployments/dev/files/src/shared'') sys0
     = Some (Inr [JStr ''/Workspace/Deployments/dev/files/src/shared/a'',
                  JStr ''/Workspace/Deployments/dev/files/src/shared/lib/c'',
                  JStr ''/Workspace/Deployments/dev/files/src/shared/b''], sys0)"
    using list_notebooks_preorder [of sample_rt "sample_validator Dev"
            "JStr ''/Workspace/Deployments/dev/files/src/shared''" sys0 2,
            THEN conjunct2, THEN conjunct1]
    by (simp add: tree with_paths_def)
  have failed: "make_request sample_rt (sample_validator Dev) ''/workspace/list'' ''POST''
          (JDict [(''path'', JStr ''/Workspace/Deployments/dev/files/src/nowhere'')]) sys0
        = (JNull, print (cross_mark @ '' Request error: connection refused'') sys0)"
    by code_simp
  have b: "list_notebooks 1 sample_rt (sample_validator Dev)
     (JStr ''/Workspace/Deployments/dev/files/src/nowhere'') sys0
     = Some (Inr [], print (cross_mark @ '' Request error: connection refused'') sys0)"
    using list_notebooks_preorder [of sample_rt "sample_validator Dev"
            "JStr ''/Workspace/Deployments/dev/files/src/nowhere''" sys0 0,
            THEN conjunct1, rule_format, OF failed]
    by simp
  from a b show ?thesis by blast
qed

subsection \<open>The cluster check\<close>

lemma py_get_dict: "is_dict c \<Longrightarrow> \<exists>v. py_get c k = Inr v"
  by (cases c) simp_all

lemma find_cluster_dicts:
  "list_all is_dict cs \<Longrightarrow> find_cluster cluster_name cs = Inr (find (named cluster_name) cs)"
proof (induction cs)
  case Nil
  show ?case by simp
next
  case (Cons c cs)
  from Cons.prems obtain v where v: "py_get c ''cluster_name'' = Inr v"
    using py_get_dict [of c "''cluster_name''"] by auto
  with Cons show ?case by (simp add: named_def)
qed

lemma find_named_dict:
  "list_all is_dict cs \<Longrightarrow> find (named cluster_name) cs = Some c
     \<Longrightarrow> py_get c ''state'' = Inr (state_of c)"
proof -
  assume "list_all is_dict cs" and "find (named cluster_name) cs = Some c"
  then have "is_dict c"
    by (auto simp add: find_Some_iff list_all_length)
  then show ?thesis
    using py_get_dict [of c "''state''"] by (auto simp add: state_of_def)
qed

lemma validate_cluster_reply:
  assumes "make_request rt self ''/clusters/list'' ''GET'' JNull (entering_cluster cluster_name s)
             = (response, s2)"
  shows "validate_cluster rt cluster_name self s =
           (case truthy_and_in response ''clusters'' of
              Inl e \<Rightarrow> (Inl e, self, s2)
            | Inr False \<Rightarrow> cluster_not_found cluster_name self s2
            | Inr True \<Rightarrow>
                (case py_getitem response ''clusters'' of
                   Inl e \<Rightarrow> (Inl e, self, s2)
                 | Inr clusters \<Rightarrow>
                     (case py_iter clusters of
                        Inl e \<Rightarrow> (Inl e, self, s2)
                      | Inr cs \<Rightarrow>
                          (case find_cluster cluster_name cs of
                             Inl e \<Rightarrow> (Inl e, self, s2)
                           | Inr None \<Rightarrow> cluster_not_found cluster_name self s2
                           | Inr (Some cluster) \<Rightarrow>
                               (case py_get cluster ''state'' of
                                  Inl e \<Rightarrow> (Inl e, self, s2)
                                | Inr st \<Rightarrow>
                                    (Inr True,
                                     append_result
                                       \<lparr> component = ''cluster-'' @ cluster_name,
                                         status = ''PASSED'',
                                         message = ''Cluster '' @ cluster_name @ '' found'',
                                         notebooks = None, cluster_state = Some st \<rparr> self,
                                     print (''  '' @ check_mark @ '' Cluster '' @ cluster_name
                                              @ '' found (state: '' @ str_of rt st @ '')'')
                                       s2))))))"
  using assms by (simp add: validate_cluster_def entering_cluster_def Let_def)


lemma validate_cluster_outcomes:
  assumes req: "make_request rt self ''/clusters/list'' ''GET'' JNull (entering_cluster cluster_name s)
             = (response, s2)"
  shows "(\<exists>e. validate_cluster rt cluster_name self s = (Inl e, self, s2))
       \<or> validate_cluster rt cluster_name self s = cluster_not_found cluster_name self s2
       \<or> (\<exists>st. validate_cluster rt cluster_name self s =
                  (Inr True,
                   append_result
                     \<lparr> component = ''cluster-'' @ cluster_name, status = ''PASSED'',
                       message = ''Cluster '' @ cluster_name @ '' found'',
                       notebooks = None, cluster_state = Some st \<rparr> self,
                   print (''  '' @ check_mark @ '' Cluster '' @ cluster_name
                            @ '' found (state: '' @ str_of rt st @ '')'') s2))"
proof -
  note reply = validate_cluster_reply [OF req]
  show ?thesis
  proof (cases "truthy_and_in response ''clusters''")
    case (Inl e)
    then show ?thesis by (simp add: reply)
  next
    case has: (Inr b)
    show ?thesis
    proof (cases b)
      case False
      with has show ?thesis by (simp add: reply)
    next
      case True
      show ?thesis
      proof (cases "py_getitem response ''clusters''")
        case (Inl e)
        with has True show ?thesis by (simp add: reply)
      next
        case item: (Inr clusters)
        show ?thesis
        proof (cases "py_iter clusters")
          case (Inl e)
          with has True item show ?thesis by (simp add: reply)
        next
          case iter: (Inr cs)
          show ?thesis
          proof (cases "find_cluster cluster_name cs")
            case (Inl e)
            with has True item iter show ?thesis by (simp add: reply)
          next
            case found: (Inr hit)
            show ?thesis
            proof (cases hit)
              case None
              with has True item iter found show ?thesis by (simp add: reply)
            next
              case (Some cluster)
              show ?thesis
              proof (cases "py_get cluster ''state''")
                case (Inl e)
                with has True item iter found Some show ?thesis by (simp add: reply)
              next
                case (Inr st)
                with has True item iter found Some
                have "validate_cluster rt cluster_name self s =
                  (Inr True,
                   append_result
                     \<lparr> component = ''cluster-'' @ cluster_name, status = ''PASSED'',
                       message = ''Cluster '' @ cluster_name @ '' found'',
                       notebooks = None, cluster_state = Some st \<rparr> self,
                   print (''  '' @ check_mark @ '' Cluster '' @ cluster_name
                            @ '' found (state: '' @ str_of rt st @ '')'') s2)"
                  by (simp add: reply)
                then show ?thesis by blast
              qed
            qed
          qed
        qed
      qed
    qed
  qed
qed

lemma validate_cluster_appends:
  assumes run: "validate_cluster rt cluster_name self s = (r, self', s')"
  shows "self' = self
         \<or> (\<exists>x. self' = append_result x self \<and> component x = ''cluster-'' @ cluster_name
                 \<and> (status x = ''PASSED'' \<or> status x = ''WARNING'') \<and> \<not> isl r)"
proof -
  obtain response s2 where
    req: "make_request rt self ''/clusters/list'' ''GET'' JNull (entering_cluster cluster_name s)
            = (response, s2)"
    by (cases "make_request rt self ''/clusters/list'' ''GET'' JNull (entering_cluster cluster_name s)")
  let ?warning = "\<lparr> component = ''cluster-'' @ cluster_name, status = ''WARNING'',
                    message = ''Cluster '' @ cluster_name @ '' not found'',
                    notebooks = None, cluster_state = None \<rparr>"
  from validate_cluster_outcomes [OF req] show ?thesis
  proof (elim disjE exE)
    fix e
    assume "validate_cluster rt cluster_name self s = (Inl e, self, s2)"
    with run show ?thesis by simp
  next
    assume "validate_cluster rt cluster_name self s = cluster_not_found cluster_name self s2"
    with run have "self' = append_result ?warning self" and "r = Inr False"
      by (simp_all add: cluster_not_found_def)
    then show ?thesis
      by (intro disjI2 exI [of _ ?warning]) simp
  next
    fix st
    let ?passed = "\<lparr> component = ''cluster-'' @ cluster_name, status = ''PASSED'',
                       message = ''Cluster '' @ cluster_name @ '' found'',
                       notebooks = None, cluster_state = Some st \<rparr>"
    assume "validate_cluster rt cluster_name self s =
                  (Inr True, append_result ?passed self,
                   print (''  '' @ check_mark @ '' Cluster '' @ cluster_name
                            @ '' found (state: '' @ str_of rt st @ '')'') s2)"
    with run have "self' = append_result ?passed self" and "r = Inr True"
      by simp_all
    then show ?thesis
      by (intro disjI2 exI [of _ ?passed]) simp
  qed
qed

lemma validate_cluster_listed:
  assumes req: "make_request rt self ''/clusters/list'' ''GET'' JNull (entering_cluster cluster_name s)
                  = (JDict kvs, s2)"
    and key: "map_of kvs ''clusters'' = Some (JList cs)"
    and dicts: "list_all is_dict cs"
  shows "validate_cluster rt cluster_name self s =
           (case find (named cluster_name) cs of
              None \<Rightarrow> cluster_not_found cluster_name self s2
            | Some cluster \<Rightarrow>
                (Inr True,
                 append_result
                   \<lparr> component = ''cluster-'' @ cluster_name, status = ''PASSED'',
                     message = ''Cluster '' @ cluster_name @ '' found'',
                     notebooks = None, cluster_state = Some (state_of cluster) \<rparr> self,
                 print (''  '' @ check_mark @ '' Cluster '' @ cluster_name
                          @ '' found (state: '' @ str_of rt (state_of cluster) @ '')'') s2))"
proof -
  from key have "(''clusters'', JList cs) \<in> set kvs" by (rule map_of_SomeD)
  then have "kvs \<noteq> []" and "''clusters'' \<in> fst ` set kvs" by force+
  then have has: "truthy_and_in (JDict kvs) ''clusters'' = Inr True"
    by (simp add: truthy_and_in_def)
  show ?thesis
  proof (cases "find (named cluster_name) cs")
    case None
    with has key show ?thesis
      by (simp add: validate_cluster_reply [OF req] find_cluster_dicts [OF dicts])
  next
    case (Some cluster)
    from find_named_dict [OF dicts Some] has key Some show ?thesis
      by (simp add: validate_cluster_reply [OF req] find_cluster_dicts [OF dicts])
  qed
qed

text \<open>
  Claim C5. For a cluster list whose entries are objects, the cluster check appends one
  result: \<^verbatim>\<open>PASSED\<close>, with the state that the first matching entry reports, exactly when some
  entry's \<^verbatim>\<open>cluster_name\<close> is the given name (equality of strings, so case matters), and
  \<^verbatim>\<open>WARNING\<close> otherwise. A request without a result or a reply without a \<^verbatim>\<open>clusters\<close> key gives
  \<^verbatim>\<open>WARNING\<close> as well. Whatever the reply, the check appends at most one result, and never one
  with status \<^verbatim>\<open>FAILED\<close>.
\<close>

theorem cluster_check_results:
  "(\<forall>s2 kvs cs.
      make_request rt self ''/clusters/list'' ''GET'' JNull (entering_cluster cluster_name s)
        = (JDict kvs, s2)
      \<and> map_of kvs ''clusters'' = Some (JList cs) \<and> list_all is_dict cs \<longrightarrow>
      (if \<exists>c \<in> set cs. named cluster_name c then
         \<exists>cluster. find (named cluster_name) cs = Some cluster
           \<and> validate_cluster rt cluster_name self s =
               (Inr True,
                append_result
                  \<lparr> component = ''cluster-'' @ cluster_name, status = ''PASSED'',
                    message = ''Cluster '' @ cluster_name @ '' found'',
                    notebooks = None, cluster_state = Some (state_of cluster) \<rparr> self,
                print (''  '' @ check_mark @ '' Cluster '' @ cluster_name
                         @ '' found (state: '' @ str_of rt (state_of cluster) @ '')'') s2)
       else
         validate_cluster rt cluster_name self s =
           (Inr False,
            append_result
              \<lparr> component = ''cluster-'' @ cluster_name, status = ''WARNING'',
                message = ''Cluster '' @ cluster_name @ '' not found'',
                notebooks = None, cluster_state = None \<rparr> self,
            print (''  '' @ warning_sign @ ''  Cluster '' @ cluster_name @ '' not found'') s2)))
   \<and> (\<forall>response s2.
      make_request rt self ''/clusters/list'' ''GET'' JNull (entering_cluster cluster_name s)
        = (response, s2)
      \<and> (response = JNull \<or> (\<exists>kvs. response = JDict kvs \<and> ''clusters'' \<notin> set (map fst kvs)))
      \<longrightarrow>
      validate_cluster rt cluster_name self s =
        (Inr False,
         append_result
           \<lparr> component = ''cluster-'' @ cluster_name, status = ''WARNING'',
             message = ''Cluster '' @ cluster_name @ '' not found'',
             notebooks = None, cluster_state = None \<rparr> self,
         print (''  '' @ warning_sign @ ''  Cluster '' @ cluster_name @ '' not found'') s2))
   \<and> (\<forall>r self' s'.
      validate_cluster rt cluster_name self s = (r, self', s') \<longrightarrow>
      self' = self
      \<or> (\<exists>x. self' = append_result x self \<and> component x = ''cluster-'' @ cluster_name
              \<and> (status x = ''PASSED'' \<or> status x = ''WARNING'') \<and> \<not> isl r))"
proof (intro conjI allI impI)
  fix s2 kvs cs
  assume h: "make_request rt self ''/clusters/list'' ''GET'' JNull (entering_cluster cluster_name s)
        = (JDict kvs, s2)
      \<and> map_of kvs ''clusters'' = Some (JList cs) \<and> list_all is_dict cs"
  then have listed: "validate_cluster rt cluster_name self s =
           (case find (named cluster_name) cs of
              None \<Rightarrow> cluster_not_found cluster_name self s2
            | Some cluster \<Rightarrow>
                (Inr True,
                 append_result
                   \<lparr> component = ''cluster-'' @ cluster_name, status = ''PASSED'',
                     message = ''Cluster '' @ cluster_name @ '' found'',
                     notebooks = None, cluster_state = Some (state_of cluster) \<rparr> self,
                 print (''  '' @ check_mark @ '' Cluster '' @ cluster_name
                          @ '' found (state: '' @ str_of rt (state_of cluster) @ '')'') s2))"
    by (intro validate_cluster_listed [of rt self cluster_name s kvs s2 cs] conjunct1 [OF h]
          conjunct1 [OF conjunct2 [OF h]] conjunct2 [OF conjunct2 [OF h]])
  show "if \<exists>c \<in> set cs. named cluster_name c then
         \<exists>cluster. find (named cluster_name) cs = Some cluster
           \<and> validate_cluster rt cluster_name self s =
               (Inr True,
                append_result
                  \<lparr> component = ''cluster-'' @ cluster_name, status = ''PASSED'',
                    message = ''Cluster '' @ cluster_name @ '' found'',
                    notebooks = None, cluster_state = Some (state_of cluster) \<rparr> self,
                print (''  '' @ check_mark @ '' Cluster '' @ cluster_name
                         @ '' found (state: '' @ str_of rt (state_of cluster) @ '')'') s2)
       else
         validate_cluster rt cluster_name self s =
           (Inr False,
            append_result
              \<lparr> component = ''cluster-'' @ cluster_name, status = ''WARNING'',
                message = ''Cluster '' @ cluster_name @ '' not found'',
                notebooks = None, cluster_state = None \<rparr> self,
            print (''  '' @ warning_sign @ ''  Cluster '' @ cluster_name @ '' not found'') s2)"
  proof (cases "find (named cluster_name) cs")
    case None
    then have "\<not> (\<exists>c \<in> set cs. named cluster_name c)"
      by (simp add: find_None_iff)
    with None listed show ?thesis
      by (simp add: cluster_not_found_def)
  next
    case (Some cluster)
    then have "\<exists>c \<in> set cs. named cluster_name c"
      by (auto simp add: find_Some_iff)
    with Some listed show ?thesis by simp
  qed
next
  fix response s2
  assume h: "make_request rt self ''/clusters/list'' ''GET'' JNull (entering_cluster cluster_name s)
        = (response, s2)
      \<and> (response = JNull \<or> (\<exists>kvs. response = JDict kvs \<and> ''clusters'' \<notin> set (map fst kvs)))"
  then have "truthy_and_in response ''clusters'' = Inr False"
    by (auto simp add: truthy_and_in_def)
  with h show "validate_cluster rt cluster_name self s =
        (Inr False,
         append_result
           \<lparr> component = ''cluster-'' @ cluster_name, status = ''WARNING'',
             message = ''Cluster '' @ cluster_name @ '' not found'',
             notebooks = None, cluster_state = None \<rparr> self,
         print (''  '' @ warning_sign @ ''  Cluster '' @ cluster_name @ '' not found'') s2)"
    by (simp add: validate_cluster_reply [OF conjunct1 [OF h]] cluster_not_found_def)
next
  fix r self' s'
  assume "validate_cluster rt cluster_name self s = (r, self', s')"
  then show "self' = self
      \<or> (\<exists>x. self' = append_result x self \<and> component x = ''cluster-'' @ cluster_name
              \<and> (status x = ''PASSED'' \<or> status x = ''WARNING'') \<and> \<not> isl r)"
    by (rule validate_cluster_appends)
qed

text \<open>In the sample the clusters are \<^verbatim>\<open>Prod-cluster\<close> (terminated) and \<^verbatim>\<open>prod-cluster\<close>
  (running): the check for \<^verbatim>\<open>prod-cluster\<close> passes with the state of the second, the check for
  \<^verbatim>\<open>dev-cluster\<close> warns, and so does a check against a host that does not answer.\<close>

theorem cluster_check_results_witness:
  "(\<lambda>r. (fst r, map (\<lambda>x. (status x, cluster_state x)) (validation_results (fst (snd r)))))
     (validate_cluster sample_rt ''prod-cluster'' (sample_validator Prod) sys0)
     = (Inr True, [(''PASSED'', Some (JStr ''RUNNING''))])
   \<and> (\<lambda>r. (fst r, map (\<lambda>x. (status x, cluster_state x)) (validation_results (fst (snd r)))))
     (validate_cluster sample_rt ''dev-cluster'' (sample_validator Dev) sys0)
     = (Inr False, [(''WARNING'', None)])
   \<and> (\<lambda>r. (fst r, map (\<lambda>x. (status x, cluster_state x)) (validation_results (fst (snd r)))))
     (validate_cluster sample_rt ''dev-cluster''
        (init_validator ''https://down.example'' ''secret'' ''dev'') sys0)
     = (Inr False, [(''WARNING'', None)])"
proof -
  let ?cs = "[JDict [(''cluster_name'', JStr ''Prod-cluster''), (''state'', JStr ''TERMINATED'')],
              JDict [(''cluster_name'', JStr ''prod-cluster''), (''state'', JStr ''RUNNING'')]]"
  have key: "map_of [(''clusters'', JList ?cs)] ''clusters'' = Some (JList ?cs)"
    by simp
  have dicts: "list_all is_dict ?cs"
    by simp
  have prod_req: "make_request sample_rt (sample_validator Prod) ''/clusters/list'' ''GET'' JNull
          (entering_cluster ''prod-cluster'' sys0)
        = (JDict [(''clusters'', JList ?cs)], entering_cluster ''prod-cluster'' sys0)"
    by code_simp
  have prod: "(\<lambda>r. (fst r, map (\<lambda>x. (status x, cluster_state x)) (validation_results (fst (snd r)))))
     (validate_cluster sample_rt ''prod-cluster'' (sample_validator Prod) sys0)
     = (Inr True, [(''PASSED'', Some (JStr ''RUNNING''))])"
    using cluster_check_results [of sample_rt "sample_validator Prod" "''prod-cluster''" sys0,
            THEN conjunct1, rule_format, OF conjI [OF prod_req conjI [OF key dicts]]]
    by (simp add: named_def state_of_def append_result_def sample_validator_def
          init_validator_def)
  have dev_req: "make_request sample_rt (sample_validator Dev) ''/clusters/list'' ''GET'' JNull
          (entering_cluster ''dev-cluster'' sys0)
        = (JDict [(''clusters'', JList ?cs)], entering_cluster ''dev-cluster'' sys0)"
    by code_simp
  have dev: "(\<lambda>r. (fst r, map (\<lambda>x. (status x, cluster_state x)) (validation_results (fst (snd r)))))
     (validate_cluster sample_rt ''dev-cluster'' (sample_validator Dev) sys0)
     = (Inr False, [(''WARNING'', None)])"
    using cluster_check_results [of sample_rt "sample_validator Dev" "''dev-cluster''" sys0,
            THEN conjunct1, rule_format, OF conjI [OF dev_req conjI [OF key dicts]]]
    by (simp add: named_def state_of_def append_result_def sample_validator_def
          init_validator_def)
  have down_req: "make_request sample_rt (init_validator ''https://down.example'' ''secret'' ''dev'')
          ''/clusters/list'' ''GET'' JNull (entering_cluster ''dev-cluster'' sys0)
        = (JNull, print (cross_mark @ '' Request error: connection refused'')
                    (entering_cluster ''dev-cluster'' sys0))
      \<and> (JNull = JNull \<or> (\<exists>kvs. JNull = JDict kvs \<and> ''clusters'' \<notin> set (map fst kvs)))"
    by (rule conjI, code_simp, simp)
  have down: "(\<lambda>r. (fst r, map (\<lambda>x. (status x, cluster_state x)) (validation_results (fst (snd r)))))
     (validate_cluster sample_rt ''dev-cluster''
        (init_validator ''https://down.example'' ''secret'' ''dev'') sys0)
     = (Inr False, [(''WARNING'', None)])"
    using cluster_check_results [of sample_rt "init_validator ''https://down.example'' ''secret'' ''dev''"
            "''dev-cluster''" sys0, THEN conjunct2, THEN conjunct1, rule_format, OF down_req]
    by (simp add: append_result_def init_validator_def)
  from prod dev down show ?thesis by blast
qed

subsection \<open>What a check that returns has appended\<close>

lemma shared_returns:
  assumes run: "validate_shared_folder n rt self s = Some (Inr b, self', s')"
  shows "\<exists>x. self' = append_result x self \<and> component x = ''shared'' \<and> known_status x
             \<and> (status x = ''FAILED'') = (\<not> b)"
proof -
  obtain r s2 where
    probe: "check_path_exists rt self (shared_path self) (entering_shared s) = (r, s2)"
    by (cases "check_path_exists rt self (shared_path self) (entering_shared s)")
  show ?thesis
  proof (cases r)
    case (Inl e)
    with probe run shared_raises [of rt self s e s2 n] show ?thesis by simp
  next
    case (Inr found)
    show ?thesis
    proof (cases found)
      case False
      with Inr probe have "check_path_exists rt self (shared_path self) (entering_shared s)
                             = (Inr False, s2)" by simp
      from shared_absent [OF this, of n] run show ?thesis
        by (auto simp add: known_status_def)
    next
      case True
      with Inr probe have present: "check_path_exists rt self (shared_path self) (entering_shared s)
                             = (Inr True, s2)" by simp
      note unfolded = shared_present [OF present, of n]
      show ?thesis
      proof (cases "list_notebooks n rt self (JStr (shared_path self)) s2")
        case None
        with unfolded run show ?thesis by simp
      next
        case (Some listed)
        obtain l s3 where listed: "listed = (l, s3)" by (cases listed)
        show ?thesis
        proof (cases l)
          case (Inl e)
          with Some listed unfolded run show ?thesis by simp
        next
          case nbs: (Inr nbs)
          show ?thesis
          proof (cases "nbs = []")
            case True
            with Some listed nbs unfolded run show ?thesis
              by (auto simp add: known_status_def)
          next
            case False
            with Some listed nbs unfolded run show ?thesis
              by (auto simp add: known_status_def split: if_splits)
          qed
        qed
      qed
    qed
  qed
qed

lemma use_case_returns:
  assumes run: "validate_use_case n rt uc self s = Some (Inr b, self', s')"
  shows "\<exists>x. self' = append_result x self \<and> component x = uc \<and> known_status x
             \<and> (status x = ''FAILED'') = (\<not> b)"
proof -
  obtain r s2 where
    probe: "check_path_exists rt self (use_case_path self uc) (entering_use_case uc s) = (r, s2)"
    by (cases "check_path_exists rt self (use_case_path self uc) (entering_use_case uc s)")
  show ?thesis
  proof (cases r)
    case (Inl e)
    with probe run use_case_raises [of rt self uc s e s2 n] show ?thesis by simp
  next
    case (Inr found)
    show ?thesis
    proof (cases found)
      case False
      with Inr probe have "check_path_exists rt self (use_case_path self uc) (entering_use_case uc s)
                             = (Inr False, s2)" by simp
      from use_case_absent [OF this, of n] run show ?thesis
        by (auto simp add: known_status_def)
    next
      case True
      with Inr probe
      have present: "check_path_exists rt self (use_case_path self uc) (entering_use_case uc s)
                       = (Inr True, s2)" by simp
      note unfolded = use_case_present [OF present, of n]
      show ?thesis
      proof (cases "list_notebooks n rt self (JStr (use_case_path self uc)) s2")
        case None
        with unfolded run show ?thesis by simp
      next
        case (Some listed)
        obtain l s3 where listed: "listed = (l, s3)" by (cases listed)
        show ?thesis
        proof (cases l)
          case (Inl e)
          with Some listed unfolded run show ?thesis by simp
        next
          case nbs: (Inr nbs)
          show ?thesis
          proof (cases "nbs = []")
            case True
            with Some listed nbs unfolded run show ?thesis
              by (auto simp add: known_status_def)
          next
            case False
            with Some listed nbs unfolded run show ?thesis
              by (auto simp add: known_status_def split: if_splits)
          qed
        qed
      qed
    qed
  qed
qed

lemma cluster_returns:
  assumes run: "validate_cluster rt cluster_name self s = (Inr b, self', s')"
  shows "\<exists>x. self' = append_result x self \<and> component x = ''cluster-'' @ cluster_name
             \<and> known_status x \<and> status x \<noteq> ''FAILED''"
proof -
  obtain response s2 where
    req: "make_request rt self ''/clusters/list'' ''GET'' JNull (entering_cluster cluster_name s)
            = (response, s2)"
    by (cases "make_request rt self ''/clusters/list'' ''GET'' JNull (entering_cluster cluster_name s)")
  let ?warning = "\<lparr> component = ''cluster-'' @ cluster_name, status = ''WARNING'',
                    message = ''Cluster '' @ cluster_name @ '' not found'',
                    notebooks = None, cluster_state = None \<rparr>"
  from validate_cluster_outcomes [OF req] show ?thesis
  proof (elim disjE exE)
    fix e
    assume "validate_cluster rt cluster_name self s = (Inl e, self, s2)"
    with run show ?thesis by simp
  next
    assume "validate_cluster rt cluster_name self s = cluster_not_found cluster_name self s2"
    with run have "self' = append_result ?warning self"
      by (simp add: cluster_not_found_def)
    then show ?thesis
      by (intro exI [of _ ?warning]) (simp add: known_status_def)
  next
    fix st
    let ?passed = "\<lparr> component = ''cluster-'' @ cluster_name, status = ''PASSED'',
                       message = ''Cluster '' @ cluster_name @ '' found'',
                       notebooks = None, cluster_state = Some st \<rparr>"
    assume "validate_cluster rt cluster_name self s =
                  (Inr True, append_result ?passed self,
                   print (''  '' @ check_mark @ '' Cluster '' @ cluster_name
                            @ '' found (state: '' @ str_of rt st @ '')'') s2)"
    with run have "self' = append_result ?passed self"
      by simp
    then show ?thesis
      by (intro exI [of _ ?passed]) (simp add: known_status_def)
  qed
qed

lemma and_then_returns:
  assumes "and_then m f = Some (Inr y, self', s')"
  shows "\<exists>x self1 s1. m = Some (Inr x, self1, s1) \<and> f x self1 s1 = Some (Inr y, self', s')"
  using assms by (auto simp add: and_then_def split: option.splits sum.splits prod.splits)

lemma use_cases_return:
  assumes run: "validate_use_cases n rt a all_passed self s = Some (Inr ap, self', s')"
  shows "\<exists>xs. validation_results self' = validation_results self @ xs
              \<and> map component xs = selected_use_cases a \<and> list_all known_status xs"
proof (cases "arg_validate_all a \<or> arg_use_case a = Some UsecaseAll")
  case True
  with run have "and_then (validate_use_case n rt ''usecase-1'' self s) (\<lambda>ok1 self1 s1.
          and_then (validate_use_case n rt ''usecase-2'' self1 s1) (\<lambda>ok2 self2 s2.
            Some (Inr (if \<not> ok2 then False else if \<not> ok1 then False else all_passed),
                  self2, s2))) = Some (Inr ap, self', s')"
    by (simp add: validate_use_cases_def)
  from and_then_returns [OF this] obtain ok1 self1 s1 where
    first: "validate_use_case n rt ''usecase-1'' self s = Some (Inr ok1, self1, s1)" and
    rest: "and_then (validate_use_case n rt ''usecase-2'' self1 s1) (\<lambda>ok2 self2 s2.
            Some (Inr (if \<not> ok2 then False else if \<not> ok1 then False else all_passed),
                  self2, s2)) = Some (Inr ap, self', s')"
    by blast
  from and_then_returns [OF rest] obtain ok2 self2 s2 where
    second: "validate_use_case n rt ''usecase-2'' self1 s1 = Some (Inr ok2, self2, s2)" and
    last: "Some (Inr (if \<not> ok2 then False else if \<not> ok1 then False else all_passed), self2, s2)
             = Some (Inr ap, self', s')"
    by blast
  from use_case_returns [OF first] obtain x1 where
    x1: "self1 = append_result x1 self" "component x1 = ''usecase-1''" "known_status x1" by blast
  from use_case_returns [OF second] obtain x2 where
    x2: "self2 = append_result x2 self1" "component x2 = ''usecase-2''" "known_status x2" by blast
  from last have "self' = self2" by simp
  with x1 x2 True show ?thesis
    by (intro exI [of _ "[x1, x2]"]) (simp add: append_result_def selected_use_cases_def)
next
  case False
  show ?thesis
  proof (cases "arg_use_case a")
    case None
    with False run show ?thesis
      by (simp add: validate_use_cases_def selected_use_cases_def)
  next
    case (Some uc)
    with False run have "and_then (validate_use_case n rt (use_case_name uc) self s)
            (\<lambda>ok self1 s1. Some (Inr (if \<not> ok then False else all_passed), self1, s1))
          = Some (Inr ap, self', s')"
      by (simp add: validate_use_cases_def)
    from and_then_returns [OF this] obtain ok self1 s1 where
      first: "validate_use_case n rt (use_case_name uc) self s = Some (Inr ok, self1, s1)" and
      last: "Some (Inr (if \<not> ok then False else all_passed), self1, s1) = Some (Inr ap, self', s')"
      by blast
    from use_case_returns [OF first] obtain x where
      x: "self1 = append_result x self" "component x = use_case_name uc" "known_status x" by blast
    from last have "self' = self1" by simp
    with x False Some show ?thesis
      by (intro exI [of _ "[x]"]) (simp add: append_result_def selected_use_cases_def)
  qed
qed

lemma run_validations_returns:
  assumes full: "\<not> arg_smoke_test a"
    and run: "run_validations n rt a self s = Some (Inr ap, self', s')"
  shows "\<exists>xs. validation_results self' = validation_results self @ xs
              \<and> map component xs = expected_components a \<and> list_all known_status xs"
proof -
  from full run have "and_then (validate_shared_folder n rt self s) (\<lambda>ok self1 s1.
          and_then (validate_use_cases n rt a (if \<not> ok then False else True) self1 s1)
            (\<lambda>all_passed self2 s2.
               (case validate_cluster rt (env_name (arg_env a) @ ''-cluster'') self2 s2 of
                  (Inl e, self3, s3) \<Rightarrow> Some (Inl e, self3, s3)
                | (Inr found, self3, s3) \<Rightarrow> Some (Inr all_passed, self3, s3))))
        = Some (Inr ap, self', s')"
    by (simp add: run_validations_def)
  from and_then_returns [OF this] obtain ok self1 s1 where
    shared: "validate_shared_folder n rt self s = Some (Inr ok, self1, s1)" and
    rest: "and_then (validate_use_cases n rt a (if \<not> ok then False else True) self1 s1)
            (\<lambda>all_passed self2 s2.
               (case validate_cluster rt (env_name (arg_env a) @ ''-cluster'') self2 s2 of
                  (Inl e, self3, s3) \<Rightarrow> Some (Inl e, self3, s3)
                | (Inr found, self3, s3) \<Rightarrow> Some (Inr all_passed, self3, s3)))
          = Some (Inr ap, self', s')"
    by blast
  from and_then_returns [OF rest] obtain ap2 self2 s2 where
    cases: "validate_use_cases n rt a (if \<not> ok then False else True) self1 s1
              = Some (Inr ap2, self2, s2)" and
    last: "(case validate_cluster rt (env_name (arg_env a) @ ''-cluster'') self2 s2 of
                  (Inl e, self3, s3) \<Rightarrow> Some (Inl e, self3, s3)
                | (Inr found, self3, s3) \<Rightarrow> Some (Inr ap2, self3, s3))
          = Some (Inr ap, self', s')"
    by blast
  from last obtain found where
    cluster: "validate_cluster rt (env_name (arg_env a) @ ''-cluster'') self2 s2
                = (Inr found, self', s')"
    by (auto split: prod.splits sum.splits)
  from shared_returns [OF shared] obtain x where
    x: "self1 = append_result x self" "component x = ''shared''" "known_status x" by blast
  from use_cases_return [OF cases] obtain ys where
    ys: "validation_results self2 = validation_results self1 @ ys"
        "map component ys = selected_use_cases a" "list_all known_status ys" by blast
  from cluster_returns [OF cluster] obtain z where
    z: "self' = append_result z self2"
       "component z = ''cluster-'' @ env_name (arg_env a) @ ''-cluster''" "known_status z"
    by blast
  from x ys z show ?thesis
    by (intro exI [of _ "x # ys @ [z]"]) (simp add: append_result_def expected_components_def)
qed

subsection \<open>The whole run\<close>

lemma main_with_credentials:
  assumes "has_credentials environ a"
  shows "\<exists>h t. main n rt environ a s = main_validate n rt a h t s"
  using assms
  by (auto simp add: main_def has_credentials_def split: option.splits prod.splits)

lemma main_without_credentials:
  assumes "\<not> has_credentials environ a"
  shows "main n rt environ a s = Some (missing_credentials s)"
  using assms
  by (auto simp add: main_def has_credentials_def split: option.splits prod.splits)

lemma main_report_credentials:
  assumes "main n rt environ a s = Some fin" and "final_report fin = Some rep"
  shows "has_credentials environ a"
proof (rule ccontr)
  assume "\<not> has_credentials environ a"
  from main_without_credentials [OF this, of n rt s] assms show False
    by (simp add: missing_credentials_def)
qed

lemma generate_report_fields:
  "rep_validation_results (fst (generate_report rt self s)) = validation_results self
   \<and> rep_summary (fst (generate_report rt self s)) =
       \<lparr> total_checks = length (validation_results self),
         passed = count_status ''PASSED'' (validation_results self),
         failed = count_status ''FAILED'' (validation_results self),
         warnings = count_status ''WARNING'' (validation_results self) \<rparr>"
  by (simp add: generate_report_def split: prod.splits)

lemma main_validate_report:
  assumes run: "main_validate n rt a h t s = Some fin" and rep: "final_report fin = Some rep"
  shows "\<exists>ap self s2.
           run_validations n rt a (init_validator h t (env_name (arg_env a)))
             (print_banner a h (init_validator h t (env_name (arg_env a))) s)
             = Some (Inr ap, self, s2)
           \<and> rep = fst (generate_report rt self s2)
           \<and> (\<forall>c. exit_status fin = SysExit c \<longrightarrow>
                 c = (if failed (rep_summary rep) > 0 then 1 else 0))"
proof -
  let ?v = "init_validator h t (env_name (arg_env a))"
  let ?s1 = "print_banner a h ?v s"
  show ?thesis
  proof (cases "run_validations n rt a ?v ?s1")
    case None
    with run show ?thesis by (simp add: main_validate_def Let_def)
  next
    case (Some out)
    obtain r self s2 where out: "out = (r, self, s2)" by (cases out)
    show ?thesis
    proof (cases r)
      case (Inl e)
      with Some out run rep show ?thesis by (auto simp add: main_validate_def Let_def)
    next
      case (Inr ap)
      obtain rp s3 where gen: "generate_report rt self s2 = (rp, s3)"
        by (cases "generate_report rt self s2")
      obtain w s4 where saved: "save_report rt a rp (print_summary rp s3) = (w, s4)"
        by (cases "save_report rt a rp (print_summary rp s3)")
      from Some out Inr gen saved run rep have "rp = rep"
        by (cases w) (auto simp add: main_validate_def Let_def split: if_splits)
      moreover
      from Some out Inr gen saved run rep
      have "\<forall>c. exit_status fin = SysExit c \<longrightarrow> c = (if failed (rep_summary rp) > 0 then 1 else 0)"
        by (cases w) (auto simp add: main_validate_def Let_def split: if_splits)
      ultimately show ?thesis
        using Some out Inr gen by simp
    qed
  qed
qed

lemma main_validate_exit:
  assumes run: "main_validate n rt a h t s = Some fin" and ex: "exit_status fin = SysExit c"
  shows "\<exists>rep. final_report fin = Some rep"
proof -
  let ?v = "init_validator h t (env_name (arg_env a))"
  let ?s1 = "print_banner a h ?v s"
  show ?thesis
  proof (cases "run_validations n rt a ?v ?s1")
    case None
    with run show ?thesis by (simp add: main_validate_def Let_def)
  next
    case (Some out)
    obtain r self s2 where out: "out = (r, self, s2)" by (cases out)
    show ?thesis
    proof (cases r)
      case (Inl e)
      with Some out run ex show ?thesis by (auto simp add: main_validate_def Let_def)
    next
      case (Inr ap)
      obtain rp s3 where gen: "generate_report rt self s2 = (rp, s3)"
        by (cases "generate_report rt self s2")
      obtain w s4 where saved: "save_report rt a rp (print_summary rp s3) = (w, s4)"
        by (cases "save_report rt a rp (print_summary rp s3)")
      from Some out Inr gen saved run ex show ?thesis
        by (cases w) (auto simp add: main_validate_def Let_def split: if_splits)
    qed
  qed
qed

lemma count_status_total:
  "list_all known_status rs \<Longrightarrow>
     count_status ''PASSED'' rs + count_status ''FAILED'' rs + count_status ''WARNING'' rs = length rs"
  by (induction rs) (auto simp add: known_status_def count_status_def)

lemma init_validator_results: "validation_results (init_validator h t e) = []"
  by (simp add: init_validator_def)

lemma smoke_run:
  assumes "arg_smoke_test a"
  shows "run_validations n rt a self s =
           Some (Inr (fst (run_smoke_test rt self s)), self, snd (run_smoke_test rt self s))"
  using assms by (simp add: run_validations_def split: prod.splits)

lemma run_results_known:
  assumes run: "run_validations n rt a (init_validator h t e) s = Some (Inr ap, self, s2)"
  shows "list_all known_status (validation_results self)
         \<and> (if arg_smoke_test a then validation_results self = []
            else map component (validation_results self) = expected_components a)"
proof (cases "arg_smoke_test a")
  case True
  from run smoke_run [OF True, of n rt "init_validator h t e" s]
  have "self = init_validator h t e" by simp
  with True show ?thesis by (simp add: init_validator_results)
next
  case False
  from run_validations_returns [OF False run] False show ?thesis
    by (auto simp add: init_validator_results)
qed

text \<open>
  Claim C3. In every report that a run produces, each result has one of the statuses
  \<^verbatim>\<open>PASSED\<close>, \<^verbatim>\<open>FAILED\<close>, \<^verbatim>\<open>WARNING\<close>, the counts \<^verbatim>\<open>passed\<close>, \<^verbatim>\<open>failed\<close> and \<^verbatim>\<open>warnings\<close> of
  the summary add up to \<^verbatim>\<open>total_checks\<close>, and \<^verbatim>\<open>total_checks\<close> is the number of results.
\<close>

theorem report_counts_add_up:
  assumes run: "main n rt environ a s = Some fin"
    and rep: "final_report fin = Some rep"
  shows "list_all known_status (rep_validation_results rep)
         \<and> passed (rep_summary rep) + failed (rep_summary rep) + warnings (rep_summary rep)
             = total_checks (rep_summary rep)
         \<and> total_checks (rep_summary rep) = length (rep_validation_results rep)"
proof -
  from main_with_credentials [OF main_report_credentials [OF run rep], of n rt s] run
  obtain h t where "main_validate n rt a h t s = Some fin" by auto
  from main_validate_report [OF this rep] obtain ap self s2 where
    checks: "run_validations n rt a (init_validator h t (env_name (arg_env a)))
               (print_banner a h (init_validator h t (env_name (arg_env a))) s)
             = Some (Inr ap, self, s2)"
    and gen: "rep = fst (generate_report rt self s2)"
    by blast
  from run_results_known [OF checks] have known: "list_all known_status (validation_results self)"
    by simp
  from gen generate_report_fields [of rt self s2]
  have fields: "rep_validation_results rep = validation_results self"
    "rep_summary rep =
       \<lparr> total_checks = length (validation_results self),
         passed = count_status ''PASSED'' (validation_results self),
         failed = count_status ''FAILED'' (validation_results self),
         warnings = count_status ''WARNING'' (validation_results self) \<rparr>"
    by simp_all
  from known count_status_total [OF known] show ?thesis
    by (simp add: fields)
qed

text \<open>The sample run of \<^verbatim>\<open>dev\<close> with all use cases: four results, two passed, one failed,
  one warning.\<close>

theorem report_counts_add_up_witness:
  "map_option (\<lambda>fin. map_option (\<lambda>rep. (map status (rep_validation_results rep), rep_summary rep))
                        (final_report fin))
     (main 2 sample_rt Map.empty sample_args sys0)
     = Some (Some ([''PASSED'', ''FAILED'', ''PASSED'', ''WARNING''],
                   \<lparr> total_checks = 4, passed = 2, failed = 1, warnings = 1 \<rparr>))
   \<and> (\<exists>fin rep. main 2 sample_rt Map.empty sample_args sys0 = Some fin
         \<and> final_report fin = Some rep
         \<and> list_all known_status (rep_validation_results rep)
         \<and> passed (rep_summary rep) + failed (rep_summary rep) + warnings (rep_summary rep)
             = total_checks (rep_summary rep)
         \<and> total_checks (rep_summary rep) = length (rep_validation_results rep))"
proof -
  have computed: "map_option (\<lambda>fin. map_option (\<lambda>rep. (map status (rep_validation_results rep), rep_summary rep))
                        (final_report fin))
     (main 2 sample_rt Map.empty sample_args sys0)
     = Some (Some ([''PASSED'', ''FAILED'', ''PASSED'', ''WARNING''],
                   \<lparr> total_checks = 4, passed = 2, failed = 1, warnings = 1 \<rparr>))"
    by code_simp
  then obtain fin rep where
    fin: "main 2 sample_rt Map.empty sample_args sys0 = Some fin" and
    rep: "final_report fin = Some rep"
    by auto
  from report_counts_add_up [OF fin rep] fin rep computed show ?thesis by blast
qed

lemma count_failed_without_warnings:
  "count_status ''FAILED'' (filter (\<lambda>r. status r \<noteq> ''WARNING'') rs) = count_status ''FAILED'' rs"
  by (induction rs) (auto simp add: count_status_def)

text \<open>How a run that has its report ends: by the exception that writing the report file
  raises, if it raises one, and else by \<^verbatim>\<open>sys.exit\<close> with the code that the \<^verbatim>\<open>failed\<close> count
  decides.\<close>

lemma main_validate_ending:
  assumes run: "main_validate n rt a h t s = Some fin" and rep: "final_report fin = Some rep"
  shows "\<exists>s3. exit_status fin =
           (case fst (save_report rt a rep s3) of
              Inl e \<Rightarrow> Uncaught e
            | Inr u \<Rightarrow> SysExit (if failed (rep_summary rep) > 0 then 1 else 0))"
proof -
  let ?v = "init_validator h t (env_name (arg_env a))"
  let ?s1 = "print_banner a h ?v s"
  show ?thesis
  proof (cases "run_validations n rt a ?v ?s1")
    case None
    with run show ?thesis by (simp add: main_validate_def Let_def)
  next
    case (Some out)
    obtain r self s2 where out: "out = (r, self, s2)" by (cases out)
    show ?thesis
    proof (cases r)
      case (Inl e)
      with Some out run rep show ?thesis by (auto simp add: main_validate_def Let_def)
    next
      case (Inr ap)
      obtain rp s3 where gen: "generate_report rt self s2 = (rp, s3)"
        by (cases "generate_report rt self s2")
      obtain w s4 where saved: "save_report rt a rp (print_summary rp s3) = (w, s4)"
        by (cases "save_report rt a rp (print_summary rp s3)")
      from Some out Inr gen saved run rep have same: "rp = rep"
        by (cases w) (auto simp add: main_validate_def Let_def split: if_splits)
      from Some out Inr gen saved run rep
      have "exit_status fin =
              (case w of
                 Inl e \<Rightarrow> Uncaught e
               | Inr u \<Rightarrow> SysExit (if failed (rep_summary rp) > 0 then 1 else 0))"
        by (cases w) (auto simp add: main_validate_def Let_def split: if_splits)
      with saved same have "exit_status fin =
              (case fst (save_report rt a rep (print_summary rep s3)) of
                 Inl e \<Rightarrow> Uncaught e
               | Inr u \<Rightarrow> SysExit (if failed (rep_summary rep) > 0 then 1 else 0))"
        by simp
      then show ?thesis
        by (rule exI)
    qed
  qed
qed

lemma save_report_not_requested:
  "arg_output_json a = None \<Longrightarrow> fst (save_report rt a rep s) = Inr ()"
  by (simp add: save_report_def)

text \<open>
  Claim C2, as stated: in normal mode the process exits with code 0 if and only if no
  result has status \<^verbatim>\<open>FAILED\<close>. This fails when the report file asked for with
  \<^verbatim>\<open>--output-json\<close> cannot be written: the script opens the file outside any \<^verbatim>\<open>try\<close>, after
  the checks and before it decides the exit code, so the exception ends the process with
  code 1 whatever the results are. In the sample, the run of \<^verbatim>\<open>prod\<close> without use cases has
  the results \<^verbatim>\<open>WARNING\<close> and \<^verbatim>\<open>PASSED\<close>, none of them \<^verbatim>\<open>FAILED\<close>; with a report file in a
  directory that does not exist it ends by the uncaught \<^verbatim>\<open>OSError\<close>, with exit code 1.
\<close>

theorem unwritable_report_exits_nonzero:
  "arg_smoke_test (sample_args\<lparr>arg_env := Prod, arg_validate_all := False,
                               arg_output_json := Some ''missing/report.json''\<rparr>) = False
   \<and> map_option (map_option (map status \<circ> rep_validation_results) \<circ> final_report)
       (main 2 unwritable_rt Map.empty
          (sample_args\<lparr>arg_env := Prod, arg_validate_all := False,
                        arg_output_json := Some ''missing/report.json''\<rparr>) sys0)
     = Some (Some [''WARNING'', ''PASSED''])
   \<and> map_option (map_option (count_status ''FAILED'' \<circ> rep_validation_results) \<circ> final_report)
       (main 2 unwritable_rt Map.empty
          (sample_args\<lparr>arg_env := Prod, arg_validate_all := False,
                        arg_output_json := Some ''missing/report.json''\<rparr>) sys0)
     = Some (Some 0)
   \<and> map_option exit_status
       (main 2 unwritable_rt Map.empty
          (sample_args\<lparr>arg_env := Prod, arg_validate_all := False,
                        arg_output_json := Some ''missing/report.json''\<rparr>) sys0)
     = Some (Uncaught (OSError ''[Errno 2] No such file or directory: missing/report.json''))
   \<and> map_option (exit_code \<circ> exit_status)
       (main 2 unwritable_rt Map.empty
          (sample_args\<lparr>arg_env := Prod, arg_validate_all := False,
                        arg_output_json := Some ''missing/report.json''\<rparr>) sys0)
     = Some 1"
  by code_simp

text \<open>
  Claim C2, amended. In a run of the full validation (not the smoke test) that has
  accumulated its results and produced its report, the process ends by the exception that
  writing the report file raises, if it raises one, and otherwise by \<^verbatim>\<open>sys.exit\<close> with code
  0 when no result has status \<^verbatim>\<open>FAILED\<close> and with code 1 when one has. So the exit code is 0
  exactly when no result is \<^verbatim>\<open>FAILED\<close> and the run ends by \<^verbatim>\<open>sys.exit\<close>; it is 0 or 1; and
  when no report file is asked for, it is 0 exactly when no result is \<^verbatim>\<open>FAILED\<close>. Results
  with status \<^verbatim>\<open>WARNING\<close> never change the exit code: it depends on the results through the
  \<^verbatim>\<open>failed\<close> count of the summary only, which is the number of \<^verbatim>\<open>FAILED\<close> results and stays
  the same when the \<^verbatim>\<open>WARNING\<close> results are left out.
\<close>

theorem exit_code_counts_failed_unless_write_raises:
  assumes run: "main n rt environ a s = Some fin"
    and full: "\<not> arg_smoke_test a"
    and rep: "final_report fin = Some rep"
  shows "(\<exists>s3. exit_status fin =
            (case fst (save_report rt a rep s3) of
               Inl e \<Rightarrow> Uncaught e
             | Inr u \<Rightarrow>
                 SysExit (if count_status ''FAILED'' (rep_validation_results rep) = 0
                          then 0 else 1)))
         \<and> (exit_code (exit_status fin) = 0) =
             (count_status ''FAILED'' (rep_validation_results rep) = 0
                \<and> (\<exists>c. exit_status fin = SysExit c))
         \<and> (exit_code (exit_status fin) = 0 \<or> exit_code (exit_status fin) = 1)
         \<and> (arg_output_json a = None \<longrightarrow>
               (\<exists>c. exit_status fin = SysExit c)
               \<and> (exit_code (exit_status fin) = 0)
                   = (count_status ''FAILED'' (rep_validation_results rep) = 0))
         \<and> failed (rep_summary rep) = count_status ''FAILED'' (rep_validation_results rep)
         \<and> count_status ''FAILED''
              (filter (\<lambda>r. status r \<noteq> ''WARNING'') (rep_validation_results rep))
             = count_status ''FAILED'' (rep_validation_results rep)"
proof -
  let ?failures = "count_status ''FAILED'' (rep_validation_results rep)"
  from main_with_credentials [OF main_report_credentials [OF run rep], of n rt s] run
  obtain h t where validate: "main_validate n rt a h t s = Some fin" by auto
  from main_validate_report [OF validate rep] obtain ap self s2 where
    gen: "rep = fst (generate_report rt self s2)"
    by blast
  from gen generate_report_fields [of rt self s2]
  have count: "failed (rep_summary rep) = ?failures"
    by simp
  have code: "(if failed (rep_summary rep) > 0 then 1 else 0 :: int)
                = (if ?failures = 0 then 0 else 1)"
    by (simp add: count)
  from main_validate_ending [OF validate rep] obtain s3 where
    "exit_status fin =
       (case fst (save_report rt a rep s3) of
          Inl e \<Rightarrow> Uncaught e
        | Inr u \<Rightarrow> SysExit (if failed (rep_summary rep) > 0 then 1 else 0))"
    by blast
  then have ending: "exit_status fin =
               (case fst (save_report rt a rep s3) of
                  Inl e \<Rightarrow> Uncaught e
                | Inr u \<Rightarrow> SysExit (if ?failures = 0 then 0 else 1))"
    unfolding code .
  then have first: "\<exists>s3. exit_status fin =
               (case fst (save_report rt a rep s3) of
                  Inl e \<Rightarrow> Uncaught e
                | Inr u \<Rightarrow> SysExit (if ?failures = 0 then 0 else 1))"
    by (rule exI)
  from ending have second: "(exit_code (exit_status fin) = 0) =
             (?failures = 0 \<and> (\<exists>c. exit_status fin = SysExit c))"
    by (cases "fst (save_report rt a rep s3)") simp_all
  from ending have third: "exit_code (exit_status fin) = 0 \<or> exit_code (exit_status fin) = 1"
    by (cases "fst (save_report rt a rep s3)") simp_all
  have fourth: "arg_output_json a = None \<longrightarrow>
               (\<exists>c. exit_status fin = SysExit c)
               \<and> (exit_code (exit_status fin) = 0) = (?failures = 0)"
  proof
    assume none: "arg_output_json a = None"
    from ending save_report_not_requested [OF none, of rt rep s3]
    have "exit_status fin = SysExit (if ?failures = 0 then 0 else 1)"
      by simp
    then show "(\<exists>c. exit_status fin = SysExit c)
               \<and> (exit_code (exit_status fin) = 0) = (?failures = 0)"
      by simp
  qed
  have kept: "count_status ''FAILED''
              (filter (\<lambda>r. status r \<noteq> ''WARNING'') (rep_validation_results rep)) = ?failures"
    by (rule count_failed_without_warnings)
  show ?thesis
    by (intro conjI first second third fourth count kept)
qed

text \<open>The sample run of \<^verbatim>\<open>dev\<close> has one \<^verbatim>\<open>FAILED\<close> result and exits with 1; the run of
  \<^verbatim>\<open>prod\<close> without use cases has a \<^verbatim>\<open>WARNING\<close> and a \<^verbatim>\<open>PASSED\<close> result and exits with 0, and
  with 1 when its report file cannot be written.\<close>

theorem exit_code_counts_failed_unless_write_raises_witness:
  "map_option (\<lambda>fin. (exit_status fin, map_option (map status \<circ> rep_validation_results)
                                          (final_report fin)))
     (main 2 sample_rt Map.empty sample_args sys0)
     = Some (SysExit 1, Some [''PASSED'', ''FAILED'', ''PASSED'', ''WARNING''])
   \<and> map_option (\<lambda>fin. (exit_status fin, map_option (map status \<circ> rep_validation_results)
                                          (final_report fin)))
     (main 2 sample_rt Map.empty (sample_args\<lparr>arg_env := Prod, arg_validate_all := False\<rparr>) sys0)
     = Some (SysExit 0, Some [''WARNING'', ''PASSED''])
   \<and> map_option (\<lambda>fin. (exit_code (exit_status fin),
                         map_option (map status \<circ> rep_validation_results) (final_report fin)))
     (main 2 unwritable_rt Map.empty
        (sample_args\<lparr>arg_env := Prod, arg_validate_all := False,
                      arg_output_json := Some ''missing/report.json''\<rparr>) sys0)
     = Some (1, Some [''WARNING'', ''PASSED''])
   \<and> (\<exists>fin rep. main 2 sample_rt Map.empty sample_args sys0 = Some fin
         \<and> final_report fin = Some rep
         \<and> (exit_code (exit_status fin) = 0)
             = (count_status ''FAILED'' (rep_validation_results rep) = 0
                  \<and> (\<exists>c. exit_status fin = SysExit c)))
   \<and> (\<exists>fin rep. main 2 sample_rt Map.empty
                    (sample_args\<lparr>arg_env := Prod, arg_validate_all := False\<rparr>) sys0 = Some fin
         \<and> final_report fin = Some rep
         \<and> (\<exists>c. exit_status fin = SysExit c)
         \<and> (exit_code (exit_status fin) = 0)
             = (count_status ''FAILED'' (rep_validation_results rep) = 0))
   \<and> (\<exists>fin rep. main 2 unwritable_rt Map.empty
                    (sample_args\<lparr>arg_env := Prod, arg_validate_all := False,
                                  arg_output_json := Some ''missing/report.json''\<rparr>) sys0
                  = Some fin
         \<and> final_report fin = Some rep
         \<and> (exit_code (exit_status fin) = 0)
             = (count_status ''FAILED'' (rep_validation_results rep) = 0
                  \<and> (\<exists>c. exit_status fin = SysExit c)))"
proof -
  let ?quiet = "sample_args\<lparr>arg_env := Prod, arg_validate_all := False\<rparr>"
  let ?saving = "sample_args\<lparr>arg_env := Prod, arg_validate_all := False,
                              arg_output_json := Some ''missing/report.json''\<rparr>"
  have dev: "map_option (\<lambda>fin. (exit_status fin, map_option (map status \<circ> rep_validation_results)
                                          (final_report fin)))
     (main 2 sample_rt Map.empty sample_args sys0)
     = Some (SysExit 1, Some [''PASSED'', ''FAILED'', ''PASSED'', ''WARNING''])"
    by code_simp
  have prod: "map_option (\<lambda>fin. (exit_status fin, map_option (map status \<circ> rep_validation_results)
                                          (final_report fin)))
     (main 2 sample_rt Map.empty ?quiet sys0)
     = Some (SysExit 0, Some [''WARNING'', ''PASSED''])"
    by code_simp
  have unwritable: "map_option (\<lambda>fin. (exit_code (exit_status fin),
                         map_option (map status \<circ> rep_validation_results) (final_report fin)))
     (main 2 unwritable_rt Map.empty ?saving sys0)
     = Some (1, Some [''WARNING'', ''PASSED''])"
    by code_simp
  have full: "\<not> arg_smoke_test sample_args" "\<not> arg_smoke_test ?quiet"
    "\<not> arg_smoke_test ?saving"
    by (simp_all add: sample_args_def)
  have none: "arg_output_json ?quiet = None"
    by (simp add: sample_args_def)
  from dev obtain fin1 where
    fin1: "main 2 sample_rt Map.empty sample_args sys0 = Some fin1" and
    out1: "(exit_status fin1, map_option (map status \<circ> rep_validation_results) (final_report fin1))
             = (SysExit 1, Some [''PASSED'', ''FAILED'', ''PASSED'', ''WARNING''])"
    unfolding map_option_eq_Some by blast
  from out1 obtain rep1 where rep1: "final_report fin1 = Some rep1"
    unfolding prod.inject map_option_eq_Some by blast
  from prod obtain fin2 where
    fin2: "main 2 sample_rt Map.empty ?quiet sys0 = Some fin2" and
    out2: "(exit_status fin2, map_option (map status \<circ> rep_validation_results) (final_report fin2))
             = (SysExit 0, Some [''WARNING'', ''PASSED''])"
    unfolding map_option_eq_Some by blast
  from out2 obtain rep2 where rep2: "final_report fin2 = Some rep2"
    unfolding prod.inject map_option_eq_Some by blast
  from unwritable obtain fin3 where
    fin3: "main 2 unwritable_rt Map.empty ?saving sys0 = Some fin3" and
    out3: "(exit_code (exit_status fin3),
            map_option (map status \<circ> rep_validation_results) (final_report fin3))
             = (1, Some [''WARNING'', ''PASSED''])"
    unfolding map_option_eq_Some by blast
  from out3 obtain rep3 where rep3: "final_report fin3 = Some rep3"
    unfolding prod.inject map_option_eq_Some by blast
  note one = exit_code_counts_failed_unless_write_raises [OF fin1 full(1) rep1]
  note two = exit_code_counts_failed_unless_write_raises [OF fin2 full(2) rep2]
  note three = exit_code_counts_failed_unless_write_raises [OF fin3 full(3) rep3]
  from one have iff1: "(exit_code (exit_status fin1) = 0)
             = (count_status ''FAILED'' (rep_validation_results rep1) = 0
                  \<and> (\<exists>c. exit_status fin1 = SysExit c))"
    by (rule conjunct2 [THEN conjunct1])
  from two have "arg_output_json ?quiet = None \<longrightarrow>
               (\<exists>c. exit_status fin2 = SysExit c)
               \<and> (exit_code (exit_status fin2) = 0)
                   = (count_status ''FAILED'' (rep_validation_results rep2) = 0)"
    by (rule conjunct2 [THEN conjunct2, THEN conjunct2, THEN conjunct1])
  from this [rule_format, OF none]
  have iff2: "(\<exists>c. exit_status fin2 = SysExit c)
               \<and> (exit_code (exit_status fin2) = 0)
                   = (count_status ''FAILED'' (rep_validation_results rep2) = 0)" .
  from three have iff3: "(exit_code (exit_status fin3) = 0)
             = (count_status ''FAILED'' (rep_validation_results rep3) = 0
                  \<and> (\<exists>c. exit_status fin3 = SysExit c))"
    by (rule conjunct2 [THEN conjunct1])
  have first: "\<exists>fin rep. main 2 sample_rt Map.empty sample_args sys0 = Some fin
         \<and> final_report fin = Some rep
         \<and> (exit_code (exit_status fin) = 0)
             = (count_status ''FAILED'' (rep_validation_results rep) = 0
                  \<and> (\<exists>c. exit_status fin = SysExit c))"
    by (intro exI [of _ fin1] exI [of _ rep1] conjI fin1 rep1 iff1)
  have second: "\<exists>fin rep. main 2 sample_rt Map.empty ?quiet sys0 = Some fin
         \<and> final_report fin = Some rep
         \<and> (\<exists>c. exit_status fin = SysExit c)
         \<and> (exit_code (exit_status fin) = 0)
             = (count_status ''FAILED'' (rep_validation_results rep) = 0)"
    by (intro exI [of _ fin2] exI [of _ rep2] conjI fin2 rep2 iff2 [THEN conjunct1]
          iff2 [THEN conjunct2])
  have third: "\<exists>fin rep. main 2 unwritable_rt Map.empty ?saving sys0 = Some fin
         \<and> final_report fin = Some rep
         \<and> (exit_code (exit_status fin) = 0)
             = (count_status ''FAILED'' (rep_validation_results rep) = 0
                  \<and> (\<exists>c. exit_status fin = SysExit c))"
    by (intro exI [of _ fin3] exI [of _ rep3] conjI fin3 rep3 iff3)
  show ?thesis
    by (intro conjI dev prod unwritable first second third)
qed

subsection \<open>The smoke test\<close>

lemma smoke_main_validate:
  assumes smoke: "arg_smoke_test a"
  shows "\<exists>fin rep. main_validate n rt a h t s = Some fin \<and> final_report fin = Some rep
                   \<and> rep_validation_results rep = [] \<and> total_checks (rep_summary rep) = 0
                   \<and> (exit_status fin = SysExit 0 \<or> (\<exists>e. exit_status fin = Uncaught e))"
proof -
  let ?v = "init_validator h t (env_name (arg_env a))"
  let ?s1 = "print_banner a h ?v s"
  let ?s2 = "snd (run_smoke_test rt ?v ?s1)"
  note checks = smoke_run [OF smoke, of n rt ?v ?s1]
  obtain rp s3 where gen: "generate_report rt ?v ?s2 = (rp, s3)"
    by (cases "generate_report rt ?v ?s2")
  with generate_report_fields [of rt ?v ?s2]
  have empty: "rep_validation_results rp = []" "total_checks (rep_summary rp) = 0"
    "failed (rep_summary rp) = 0"
    by (simp_all add: init_validator_results count_status_def)
  obtain w s4 where saved: "save_report rt a rp (print_summary rp s3) = (w, s4)"
    by (cases "save_report rt a rp (print_summary rp s3)")
  show ?thesis
  proof (cases w)
    case (Inl e)
    with checks gen saved empty show ?thesis
      by (simp add: main_validate_def Let_def)
  next
    case (Inr u)
    with checks gen saved empty show ?thesis
      by (simp add: main_validate_def Let_def)
  qed
qed

text \<open>
  Claim C8. With \<^verbatim>\<open>--smoke-test\<close> (and the credentials present), the validations consist of
  the smoke test alone, which leaves the validator and its results as they are; the run
  produces its report, and the report holds no result at all: none of the shared-folder
  check, of a use-case check or of the cluster check.
\<close>

theorem smoke_test_report_is_empty:
  assumes smoke: "arg_smoke_test a"
    and cred: "has_credentials environ a"
  shows "(\<exists>fin rep. main n rt environ a s = Some fin \<and> final_report fin = Some rep
            \<and> rep_validation_results rep = [] \<and> total_checks (rep_summary rep) = 0)
         \<and> run_validations n rt a self s' =
             Some (Inr (fst (run_smoke_test rt self s')), self, snd (run_smoke_test rt self s'))"
proof -
  from main_with_credentials [OF cred, of n rt s] obtain h t where
    "main n rt environ a s = main_validate n rt a h t s" by blast
  with smoke_main_validate [OF smoke, of n rt h t s] smoke_run [OF smoke, of n rt self s']
  show ?thesis by auto
qed

text \<open>The smoke test of the sample in \<^verbatim>\<open>dev\<close>: the report is empty.\<close>

theorem smoke_test_report_is_empty_witness:
  "map_option (\<lambda>fin. map_option rep_validation_results (final_report fin))
     (main 0 sample_rt Map.empty (sample_args\<lparr>arg_smoke_test := True\<rparr>) sys0)
     = Some (Some [])"
proof -
  have smoke: "arg_smoke_test (sample_args\<lparr>arg_smoke_test := True\<rparr>)"
    by simp
  have cred: "has_credentials Map.empty (sample_args\<lparr>arg_smoke_test := True\<rparr>)"
    by (simp add: has_credentials_def sample_args_def)
  from smoke_test_report_is_empty
         [OF smoke cred, where n = 0 and rt = sample_rt and s = sys0
            and self = "sample_validator Dev" and s' = sys0, THEN conjunct1]
  obtain fin rep where
    "main 0 sample_rt Map.empty (sample_args\<lparr>arg_smoke_test := True\<rparr>) sys0 = Some fin"
    "final_report fin = Some rep" "rep_validation_results rep = []"
    by blast
  then show ?thesis by simp
qed

subsection \<open>Failures do not stop the run\<close>

text \<open>
  Against a service that keeps the contract, no request gives the script a value it
  cannot work on: every check returns, whatever it found, and a traversal finishes when
  the nesting allowed exceeds the rank of every path.
\<close>

lemma send_contract:
  assumes api: "contract rank rt"
  shows "reply_ok rank req (fst (send rt req s))"
proof -
  from api have "reply_ok rank req (fst (http rt (world s) req))"
    by (simp add: contract_def)
  then show ?thesis
    by (cases "http rt (world s) req") (simp add: send_def)
qed

lemma make_request_contract:
  assumes api: "contract rank rt"
  shows "body_ok rank (requested_path (sent_request self endpoint meth data))
           (fst (make_request rt self endpoint meth data s))"
proof (cases "meth = ''GET'' \<or> meth = ''POST''")
  case False
  then show ?thesis
    by (simp add: make_request_def try_request_def)
next
  case True
  let ?req = "sent_request self endpoint meth data"
  obtain r s1 where sent: "send rt ?req s = (r, s1)"
    by (cases "send rt ?req s")
  from send_contract [OF api, of ?req s] sent have ok: "reply_ok rank ?req r"
    by simp
  from True sent have tried:
    "try_request rt self (host self @ normalize_endpoint endpoint) meth data s =
       (case r of
          Inl m \<Rightarrow> (Inl m, s1)
        | Inr resp \<Rightarrow>
            (if status_code resp = 200 then (resp_json resp, s1)
             else (Inr JNull,
                   print (cross_mark @ '' API request failed: '' @ str_int (status_code resp)
                            @ '' - '' @ resp_text resp) s1)))"
    by (auto simp add: try_request_def sent_request_def split: sum.splits)
  show ?thesis
  proof (cases r)
    case (Inl m)
    with tried show ?thesis by (simp add: make_request_def)
  next
    case (Inr resp)
    show ?thesis
    proof (cases "status_code resp = 200")
      case False
      with Inr tried show ?thesis by (simp add: make_request_def)
    next
      case True
      show ?thesis
      proof (cases "resp_json resp")
        case (Inl m)
        with True Inr tried show ?thesis by (simp add: make_request_def)
      next
        case body: (Inr body)
        from ok Inr True body have "body_ok rank (requested_path ?req) body"
          by (simp add: reply_ok_def)
        with True Inr body tried show ?thesis by (simp add: make_request_def)
      qed
    qed
  qed
qed

lemma body_ok_cases:
  assumes "body_ok rank parent v"
  shows "v = JNull
         \<or> (\<exists>kvs. v = JDict kvs \<and> list_of (entry_ok rank parent) (map_of kvs ''objects'')
                    \<and> list_of is_dict (map_of kvs ''clusters''))"
  using assms by (cases v) simp_all

lemma probe_returns:
  assumes api: "contract rank rt"
  shows "\<exists>b s'. check_path_exists rt self path s = (Inr b, s')"
proof -
  obtain response s1 where
    req: "make_request rt self ''/workspace/get-status'' ''POST'' (JDict [(''path'', JStr path)]) s
            = (response, s1)"
    by (cases "make_request rt self ''/workspace/get-status'' ''POST''
                 (JDict [(''path'', JStr path)]) s")
  from make_request_contract [OF api, of self "''/workspace/get-status''" "''POST''"
         "JDict [(''path'', JStr path)]" s] req
  have "body_ok rank (JStr path) response"
    by (simp add: sent_request_def requested_path_def)
  from body_ok_cases [OF this] have "\<exists>b. truthy_and_in response ''path'' = Inr b"
    by (auto simp add: truthy_and_in_def)
  with req show ?thesis
    by (auto simp add: check_path_exists_reply)
qed

lemma list_objects_returns:
  assumes deeper: "\<And>p s. rank p < n \<Longrightarrow>
                     \<exists>nbs s'. list_notebooks n rt self p s = Some (Inr nbs, s')
                              \<and> list_all is_str nbs"
    and below: "rank parent \<le> n"
  shows "list_all (entry_ok rank parent) objs \<Longrightarrow> list_all is_str found \<Longrightarrow>
           \<exists>nbs s'. list_objects n rt self objs found s = Some (Inr nbs, s')
                    \<and> list_all is_str nbs"
proof (induction objs arbitrary: found s)
  case Nil
  then show ?case by simp
next
  case (Cons obj objs)
  from Cons.prems(1) have ok: "entry_ok rank parent obj"
    and rest: "list_all (entry_ok rank parent) objs"
    by simp_all
  from ok obtain ty where ty: "py_get obj ''object_type'' = Inr ty"
    by (cases "py_get obj ''object_type''") (simp_all add: entry_ok_def)
  show ?case
  proof (cases "ty = JStr ''NOTEBOOK''")
    case True
    with ok ty obtain p where p: "py_getitem obj ''path'' = Inr p" and str: "is_str p"
      by (cases "py_getitem obj ''path''") (simp_all add: entry_ok_def)
    from Cons.prems(2) str have "list_all is_str (found @ [p])"
      by simp
    from Cons.IH [OF rest this, of s] ty True p show ?thesis
      by simp
  next
    case False
    show ?thesis
    proof (cases "ty = JStr ''DIRECTORY''")
      case True
      with ok ty obtain q where q: "py_getitem obj ''path'' = Inr q"
        and lower: "rank q < rank parent"
        by (cases "py_getitem obj ''path''") (simp_all add: entry_ok_def)
      from lower below have "rank q < n"
        by simp
      from deeper [OF this, of s] obtain sub s1 where
        sub: "list_notebooks n rt self q s = Some (Inr sub, s1)" and strs: "list_all is_str sub"
        by blast
      from Cons.prems(2) strs have "list_all is_str (found @ sub)"
        by simp
      from Cons.IH [OF rest this, of s1] ty True q sub show ?thesis
        by simp
    next
      case other: False
      from Cons.IH [OF rest Cons.prems(2), of s] ty False other show ?thesis
        by simp
    qed
  qed
qed

lemma list_notebooks_returns:
  assumes api: "contract rank rt"
  shows "rank p < n \<Longrightarrow>
           \<exists>nbs s'. list_notebooks n rt self p s = Some (Inr nbs, s') \<and> list_all is_str nbs"
proof (induction n arbitrary: p s)
  case 0
  then show ?case by simp
next
  case (Suc n)
  obtain response s1 where
    req: "make_request rt self ''/workspace/list'' ''POST'' (JDict [(''path'', p)]) s
            = (response, s1)"
    by (cases "make_request rt self ''/workspace/list'' ''POST'' (JDict [(''path'', p)]) s")
  from make_request_contract [OF api, of self "''/workspace/list''" "''POST''"
         "JDict [(''path'', p)]" s] req
  have "body_ok rank p response"
    by (simp add: sent_request_def requested_path_def)
  from body_ok_cases [OF this] show ?case
  proof (elim disjE exE conjE)
    assume "response = JNull"
    with req show ?thesis
      by (simp add: truthy_and_in_def)
  next
    fix kvs
    assume kvs: "response = JDict kvs"
      and entries: "list_of (entry_ok rank p) (map_of kvs ''objects'')"
    show ?thesis
    proof (cases "map_of kvs ''objects''")
      case None
      then have "''objects'' \<notin> fst ` set kvs"
        by (simp add: map_of_eq_None_iff)
      with req kvs show ?thesis
        by (simp add: truthy_and_in_def)
    next
      case (Some objects)
      with entries obtain objs where objs: "objects = JList objs"
        and each: "list_all (entry_ok rank p) objs"
        by (cases objects) simp_all
      from Some have "(''objects'', objects) \<in> set kvs"
        by (rule map_of_SomeD)
      then have "kvs \<noteq> []" and "''objects'' \<in> fst ` set kvs"
        by force+
      then have has: "truthy_and_in (JDict kvs) ''objects'' = Inr True"
        by (simp add: truthy_and_in_def)
      from Suc.prems have below: "rank p \<le> n"
        by simp
      have "list_all is_str ([] :: json list)"
        by simp
      from list_objects_returns [of rank n rt self p objs "[]" s1, OF Suc.IH below each this]
      obtain nbs s' where "list_objects n rt self objs [] s1 = Some (Inr nbs, s')"
        and "list_all is_str nbs"
        by blast
      with req kvs has Some objs show ?thesis
        by simp
    qed
  qed
qed

lemma print_names_returns:
  "list_all is_str nbs \<Longrightarrow> fst (print_names nbs s) = Inr ()"
  by (simp add: print_names_result)

lemma shared_completes:
  assumes api: "contract rank rt" and depth: "\<forall>p. rank p < n"
  shows "\<exists>ok self' s'. validate_shared_folder n rt self s = Some (Inr ok, self', s')"
proof -
  from probe_returns [OF api, of self "shared_path self" "entering_shared s"]
  obtain found s2 where
    probe: "check_path_exists rt self (shared_path self) (entering_shared s) = (Inr found, s2)"
    by blast
  show ?thesis
  proof (cases found)
    case False
    with probe have "check_path_exists rt self (shared_path self) (entering_shared s)
                       = (Inr False, s2)"
      by simp
    from shared_absent [OF this, of n] show ?thesis
      by blast
  next
    case True
    from depth have "rank (JStr (shared_path self)) < n"
      by simp
    from list_notebooks_returns [OF api this, of self s2] obtain nbs s3 where
      listed: "list_notebooks n rt self (JStr (shared_path self)) s2 = Some (Inr nbs, s3)"
      and strs: "list_all is_str nbs"
      by blast
    from True probe have "check_path_exists rt self (shared_path self) (entering_shared s)
                            = (Inr True, s2)"
      by simp
    from shared_present [OF this, of n] listed strs show ?thesis
      by (cases "nbs = []") auto
  qed
qed

lemma use_case_completes:
  assumes api: "contract rank rt" and depth: "\<forall>p. rank p < n"
  shows "\<exists>ok self' s'. validate_use_case n rt uc self s = Some (Inr ok, self', s')"
proof -
  from probe_returns [OF api, of self "use_case_path self uc" "entering_use_case uc s"]
  obtain found s2 where
    probe: "check_path_exists rt self (use_case_path self uc) (entering_use_case uc s)
              = (Inr found, s2)"
    by blast
  show ?thesis
  proof (cases found)
    case False
    with probe
    have "check_path_exists rt self (use_case_path self uc) (entering_use_case uc s)
            = (Inr False, s2)"
      by simp
    from use_case_absent [OF this, of n] show ?thesis
      by blast
  next
    case True
    from depth have "rank (JStr (use_case_path self uc)) < n"
      by simp
    from list_notebooks_returns [OF api this, of self s2] obtain nbs s3 where
      listed: "list_notebooks n rt self (JStr (use_case_path self uc)) s2 = Some (Inr nbs, s3)"
      and strs: "list_all is_str nbs"
      by blast
    from True probe
    have "check_path_exists rt self (use_case_path self uc) (entering_use_case uc s)
            = (Inr True, s2)"
      by simp
    from use_case_present [OF this, of n] listed strs show ?thesis
      by (cases "nbs = []") auto
  qed
qed

lemma cluster_completes:
  assumes api: "contract rank rt"
  shows "\<exists>found self' s'. validate_cluster rt cluster_name self s = (Inr found, self', s')"
proof -
  obtain response s2 where
    req: "make_request rt self ''/clusters/list'' ''GET'' JNull (entering_cluster cluster_name s)
            = (response, s2)"
    by (cases "make_request rt self ''/clusters/list'' ''GET'' JNull
                 (entering_cluster cluster_name s)")
  from make_request_contract [OF api, of self "''/clusters/list''" "''GET''" JNull
         "entering_cluster cluster_name s"] req
  have "body_ok rank (requested_path (sent_request self ''/clusters/list'' ''GET'' JNull)) response"
    by simp
  from body_ok_cases [OF this] show ?thesis
  proof (elim disjE exE conjE)
    assume "response = JNull"
    then show ?thesis
      by (auto simp add: validate_cluster_reply [OF req] truthy_and_in_def cluster_not_found_def)
  next
    fix kvs
    assume kvs: "response = JDict kvs"
      and entries: "list_of is_dict (map_of kvs ''clusters'')"
    show ?thesis
    proof (cases "map_of kvs ''clusters''")
      case None
      then have "''clusters'' \<notin> fst ` set kvs"
        by (simp add: map_of_eq_None_iff)
      with kvs show ?thesis
        by (auto simp add: validate_cluster_reply [OF req] truthy_and_in_def cluster_not_found_def)
    next
      case (Some clusters)
      with entries obtain cs where cs: "clusters = JList cs" and dicts: "list_all is_dict cs"
        by (cases clusters) simp_all
      from req kvs have req': "make_request rt self ''/clusters/list'' ''GET'' JNull
                                 (entering_cluster cluster_name s) = (JDict kvs, s2)"
        by simp
      from Some cs have key: "map_of kvs ''clusters'' = Some (JList cs)"
        by simp
      from validate_cluster_listed [OF req' key dicts] show ?thesis
        by (cases "find (named cluster_name) cs") (auto simp add: cluster_not_found_def)
    qed
  qed
qed

lemma use_cases_complete:
  assumes api: "contract rank rt" and depth: "\<forall>p. rank p < n"
  shows "\<exists>ap self' s'. validate_use_cases n rt a all_passed self s = Some (Inr ap, self', s')"
proof (cases "arg_validate_all a \<or> arg_use_case a = Some UsecaseAll")
  case True
  from use_case_completes [OF api depth, of "''usecase-1''" self s] obtain ok1 self1 s1 where
    first: "validate_use_case n rt ''usecase-1'' self s = Some (Inr ok1, self1, s1)"
    by blast
  from use_case_completes [OF api depth, of "''usecase-2''" self1 s1] obtain ok2 self2 s2 where
    second: "validate_use_case n rt ''usecase-2'' self1 s1 = Some (Inr ok2, self2, s2)"
    by blast
  from True first second show ?thesis
    by (simp add: validate_use_cases_def and_then_def)
next
  case False
  show ?thesis
  proof (cases "arg_use_case a")
    case None
    with False show ?thesis
      by (simp add: validate_use_cases_def)
  next
    case (Some uc)
    from use_case_completes [OF api depth, of "use_case_name uc" self s] obtain ok self1 s1 where
      "validate_use_case n rt (use_case_name uc) self s = Some (Inr ok, self1, s1)"
      by blast
    with False Some show ?thesis
      by (simp add: validate_use_cases_def and_then_def)
  qed
qed

text \<open>The checks after the shared-folder check, whatever that check returned.\<close>

lemma remaining_checks_complete:
  assumes full: "\<not> arg_smoke_test a"
    and api: "contract rank rt" and depth: "\<forall>p. rank p < n"
    and shared: "validate_shared_folder n rt self s = Some (Inr ok, self1, s1)"
  shows "\<exists>ap self2 s2 found self3 s3.
           validate_use_cases n rt a ok self1 s1 = Some (Inr ap, self2, s2)
           \<and> validate_cluster rt (env_name (arg_env a) @ ''-cluster'') self2 s2
               = (Inr found, self3, s3)
           \<and> run_validations n rt a self s = Some (Inr ap, self3, s3)"
proof -
  from use_cases_complete [OF api depth, of a ok self1 s1] obtain ap self2 s2 where
    cases: "validate_use_cases n rt a ok self1 s1 = Some (Inr ap, self2, s2)"
    by blast
  from cluster_completes [OF api, of "env_name (arg_env a) @ ''-cluster''" self2 s2]
  obtain found self3 s3 where
    cluster: "validate_cluster rt (env_name (arg_env a) @ ''-cluster'') self2 s2
                = (Inr found, self3, s3)"
    by blast
  have same: "(if \<not> ok then False else True) = ok"
    by simp
  from full shared cases cluster
  have "run_validations n rt a self s = Some (Inr ap, self3, s3)"
    by (simp add: run_validations_def and_then_def same)
  with cases cluster show ?thesis
    by blast
qed

lemma run_validations_completes:
  assumes full: "\<not> arg_smoke_test a"
    and api: "contract rank rt" and depth: "\<forall>p. rank p < n"
  shows "\<exists>ap self' s'. run_validations n rt a self s = Some (Inr ap, self', s')"
proof -
  from shared_completes [OF api depth, of self s] obtain ok self1 s1 where
    "validate_shared_folder n rt self s = Some (Inr ok, self1, s1)"
    by blast
  from remaining_checks_complete [OF full api depth this] show ?thesis
    by blast
qed

lemma main_validate_completes:
  assumes checks: "run_validations n rt a (init_validator h t (env_name (arg_env a)))
                     (print_banner a h (init_validator h t (env_name (arg_env a))) s)
                   = Some (Inr ap, self, s2)"
  shows "\<exists>fin. main_validate n rt a h t s = Some fin
               \<and> final_report fin = Some (fst (generate_report rt self s2))"
proof -
  obtain rep s3 where gen: "generate_report rt self s2 = (rep, s3)"
    by (cases "generate_report rt self s2")
  obtain w s4 where saved: "save_report rt a rep (print_summary rep s3) = (w, s4)"
    by (cases "save_report rt a rep (print_summary rep s3)")
  from checks gen saved show ?thesis
    by (cases w) (simp_all add: main_validate_def Let_def)
qed

text \<open>
  Claim C9. A validation failure never aborts the run. In normal mode, with the
  credentials present and against a service that keeps the contract of its API (a tree of
  bounded depth, within the nesting allowed), the run completes and generates its report,
  which holds one result for the shared folder, one for each selected use case and one
  for the cluster, in this order and each with one of the three statuses. And whenever the
  shared-folder check has returned \<^verbatim>\<open>False\<close>, having appended its \<^verbatim>\<open>FAILED\<close> result, the checks
  of the selected use cases and the cluster check that follow it all return and append
  their results after it, and the validations end with these results. Nothing is assumed
  about how the run ends: that it ends, and with the report, is part of the statement.
\<close>

theorem checks_run_to_completion:
  assumes full: "\<not> arg_smoke_test a"
    and cred: "has_credentials environ a"
    and api: "contract rank rt"
    and depth: "\<forall>p. rank p < n"
  shows "(\<exists>fin rep. main n rt environ a s = Some fin
            \<and> final_report fin = Some rep
            \<and> map component (rep_validation_results rep) = expected_components a
            \<and> list_all known_status (rep_validation_results rep))
         \<and> (\<forall>self0 s0 self1 s1.
               validate_shared_folder n rt self0 s0 = Some (Inr False, self1, s1) \<longrightarrow>
               (\<exists>failure ap self2 s2 found self3 s3 xs z.
                  self1 = append_result failure self0
                  \<and> component failure = ''shared'' \<and> status failure = ''FAILED''
                  \<and> validate_use_cases n rt a False self1 s1 = Some (Inr ap, self2, s2)
                  \<and> validation_results self2 = validation_results self1 @ xs
                  \<and> map component xs = selected_use_cases a
                  \<and> validate_cluster rt (env_name (arg_env a) @ ''-cluster'') self2 s2
                      = (Inr found, self3, s3)
                  \<and> validation_results self3 = validation_results self2 @ [z]
                  \<and> component z = ''cluster-'' @ env_name (arg_env a) @ ''-cluster''
                  \<and> run_validations n rt a self0 s0 = Some (Inr ap, self3, s3)))"
proof (intro conjI allI impI)
  from main_with_credentials [OF cred, of n rt s]
  obtain h t where validate: "main n rt environ a s = main_validate n rt a h t s"
    by blast
  let ?v = "init_validator h t (env_name (arg_env a))"
  from run_validations_completes [OF full api depth, of ?v "print_banner a h ?v s"]
  obtain ap self s2 where
    checks: "run_validations n rt a ?v (print_banner a h ?v s) = Some (Inr ap, self, s2)"
    by blast
  from main_validate_completes [OF checks] obtain fin where
    fin: "main_validate n rt a h t s = Some fin"
    and rep: "final_report fin = Some (fst (generate_report rt self s2))"
    by blast
  from run_results_known [OF checks] full
  have results: "list_all known_status (validation_results self)"
    "map component (validation_results self) = expected_components a"
    by simp_all
  from generate_report_fields [of rt self s2]
  have "rep_validation_results (fst (generate_report rt self s2)) = validation_results self"
    by simp
  with validate fin rep results
  show "\<exists>fin rep. main n rt environ a s = Some fin
            \<and> final_report fin = Some rep
            \<and> map component (rep_validation_results rep) = expected_components a
            \<and> list_all known_status (rep_validation_results rep)"
    by simp
next
  fix self0 :: validator and s0 :: "'a sys" and self1 s1
  assume shared: "validate_shared_folder n rt self0 s0 = Some (Inr False, self1, s1)"
  from shared_returns [OF shared] obtain failure where
    failure: "self1 = append_result failure self0" "component failure = ''shared''"
      "status failure = ''FAILED''"
    by auto
  from remaining_checks_complete [OF full api depth shared] obtain ap self2 s2 found self3 s3 where
    cases: "validate_use_cases n rt a False self1 s1 = Some (Inr ap, self2, s2)"
    and cluster: "validate_cluster rt (env_name (arg_env a) @ ''-cluster'') self2 s2
                    = (Inr found, self3, s3)"
    and run: "run_validations n rt a self0 s0 = Some (Inr ap, self3, s3)"
    by blast
  from use_cases_return [OF cases] obtain xs where
    xs: "validation_results self2 = validation_results self1 @ xs"
      "map component xs = selected_use_cases a"
    by blast
  from cluster_returns [OF cluster] obtain z where
    z: "self3 = append_result z self2"
      "component z = ''cluster-'' @ env_name (arg_env a) @ ''-cluster''"
    by blast
  from z(1) have appended: "validation_results self3 = validation_results self2 @ [z]"
    by (simp add: append_result_def)
  show "\<exists>failure ap self2 s2 found self3 s3 xs z.
          self1 = append_result failure self0
          \<and> component failure = ''shared'' \<and> status failure = ''FAILED''
          \<and> validate_use_cases n rt a False self1 s1 = Some (Inr ap, self2, s2)
          \<and> validation_results self2 = validation_results self1 @ xs
          \<and> map component xs = selected_use_cases a
          \<and> validate_cluster rt (env_name (arg_env a) @ ''-cluster'') self2 s2
              = (Inr found, self3, s3)
          \<and> validation_results self3 = validation_results self2 @ [z]
          \<and> component z = ''cluster-'' @ env_name (arg_env a) @ ''-cluster''
          \<and> run_validations n rt a self0 s0 = Some (Inr ap, self3, s3)"
    by (intro exI [of _ failure] exI [of _ ap] exI [of _ self2] exI [of _ s2] exI [of _ found]
          exI [of _ self3] exI [of _ s3] exI [of _ xs] exI [of _ z] conjI
          failure cases xs cluster appended z(2) run)
qed

text \<open>
  The sample keeps the contract, and no path of it ranks above 1. In \<^verbatim>\<open>test\<close> the shared
  folder and \<^verbatim>\<open>usecase-1\<close> are missing: both checks fail, the check of \<^verbatim>\<open>usecase-2\<close> then
  traverses its folder and passes, the cluster check warns, and the report holds all four
  results.
\<close>

lemma sample_replies:
  "list_all (\<lambda>entry. \<forall>req. req_json req = snd (fst entry)
                        \<longrightarrow> reply_ok sample_rank req (Inr (snd entry))) sample_table"
  by (simp add: sample_table_def reply_ok_def requested_path_def ok_json_def not_found_def
        ws_entry_def path_arg_def entry_ok_def sample_rank_def)

lemma sample_contract: "contract sample_rank sample_rt"
proof -
  have "reply_ok sample_rank req (fst (table_http sample_table w req))" for w req
  proof (cases "map_of sample_table (req_url req, req_json req)")
    case None
    then show ?thesis
      by (simp add: table_http_def reply_ok_def)
  next
    case (Some r)
    then have "((req_url req, req_json req), r) \<in> set sample_table"
      by (rule map_of_SomeD)
    with sample_replies have "reply_ok sample_rank req (Inr r)"
      unfolding list_all_iff by fastforce
    with Some show ?thesis
      by (simp add: table_http_def)
  qed
  then show ?thesis
    by (simp add: contract_def sample_rt_def)
qed

theorem checks_run_to_completion_witness:
  "map_option (\<lambda>fin. (exit_status fin,
                       map_option (map (\<lambda>r. (component r, status r)) \<circ> rep_validation_results)
                         (final_report fin)))
     (main 2 sample_rt Map.empty (sample_args\<lparr>arg_env := Test\<rparr>) sys0)
     = Some (SysExit 1,
             Some [(''shared'', ''FAILED''), (''usecase-1'', ''FAILED''),
                   (''usecase-2'', ''PASSED''), (''cluster-test-cluster'', ''WARNING'')])
   \<and> (\<exists>fin rep. main 2 sample_rt Map.empty (sample_args\<lparr>arg_env := Test\<rparr>) sys0 = Some fin
         \<and> final_report fin = Some rep
         \<and> map component (rep_validation_results rep)
             = expected_components (sample_args\<lparr>arg_env := Test\<rparr>)
         \<and> list_all known_status (rep_validation_results rep))
   \<and> (\<exists>self1 s1 ap self2 s2 found self3 s3 xs z.
         validate_shared_folder 2 sample_rt (sample_validator Test) sys0
           = Some (Inr False, self1, s1)
         \<and> validate_use_cases 2 sample_rt (sample_args\<lparr>arg_env := Test\<rparr>) False self1 s1
             = Some (Inr ap, self2, s2)
         \<and> validation_results self2 = validation_results self1 @ xs
         \<and> map component xs = [''usecase-1'', ''usecase-2'']
         \<and> validate_cluster sample_rt ''test-cluster'' self2 s2 = (Inr found, self3, s3)
         \<and> validation_results self3 = validation_results self2 @ [z]
         \<and> component z = ''cluster-test-cluster''
         \<and> run_validations 2 sample_rt (sample_args\<lparr>arg_env := Test\<rparr>)
               (sample_validator Test) sys0
             = Some (Inr ap, self3, s3))"
proof -
  let ?args = "sample_args\<lparr>arg_env := Test\<rparr>"
  have computed: "map_option (\<lambda>fin. (exit_status fin,
                       map_option (map (\<lambda>r. (component r, status r)) \<circ> rep_validation_results)
                         (final_report fin)))
     (main 2 sample_rt Map.empty ?args sys0)
     = Some (SysExit 1,
             Some [(''shared'', ''FAILED''), (''usecase-1'', ''FAILED''),
                   (''usecase-2'', ''PASSED''), (''cluster-test-cluster'', ''WARNING'')])"
    by code_simp
  have missing: "map_option fst (validate_shared_folder 2 sample_rt (sample_validator Test) sys0)
                  = Some (Inr False)"
    by code_simp
  have full: "\<not> arg_smoke_test ?args"
    by (simp add: sample_args_def)
  have cred: "has_credentials Map.empty ?args"
    by (simp add: has_credentials_def sample_args_def)
  have depth: "\<forall>p. sample_rank p < 2"
    by (simp add: sample_rank_def)
  have selected: "selected_use_cases ?args = [''usecase-1'', ''usecase-2'']"
    by (simp add: selected_use_cases_def sample_args_def)
  have name: "env_name (arg_env ?args) @ ''-cluster'' = ''test-cluster''"
    by simp
  note run = checks_run_to_completion [OF full cred sample_contract depth, of sys0]
  from run have listed: "\<exists>fin rep. main 2 sample_rt Map.empty ?args sys0 = Some fin
         \<and> final_report fin = Some rep
         \<and> map component (rep_validation_results rep) = expected_components ?args
         \<and> list_all known_status (rep_validation_results rep)"
    by (rule conjunct1)
  from missing obtain self1 s1 where
    shared: "validate_shared_folder 2 sample_rt (sample_validator Test) sys0
               = Some (Inr False, self1, s1)"
    unfolding map_option_eq_Some by fastforce
  from run have "\<forall>self0 s0 self1 s1.
               validate_shared_folder 2 sample_rt self0 s0 = Some (Inr False, self1, s1) \<longrightarrow>
               (\<exists>failure ap self2 s2 found self3 s3 xs z.
                  self1 = append_result failure self0
                  \<and> component failure = ''shared'' \<and> status failure = ''FAILED''
                  \<and> validate_use_cases 2 sample_rt ?args False self1 s1 = Some (Inr ap, self2, s2)
                  \<and> validation_results self2 = validation_results self1 @ xs
                  \<and> map component xs = selected_use_cases ?args
                  \<and> validate_cluster sample_rt (env_name (arg_env ?args) @ ''-cluster'') self2 s2
                      = (Inr found, self3, s3)
                  \<and> validation_results self3 = validation_results self2 @ [z]
                  \<and> component z = ''cluster-'' @ env_name (arg_env ?args) @ ''-cluster''
                  \<and> run_validations 2 sample_rt ?args self0 s0 = Some (Inr ap, self3, s3))"
    by (rule conjunct2)
  from this [rule_format, OF shared] obtain ap self2 s2 found self3 s3 xs z where
    "validate_use_cases 2 sample_rt ?args False self1 s1 = Some (Inr ap, self2, s2)"
    "validation_results self2 = validation_results self1 @ xs"
    "map component xs = selected_use_cases ?args"
    "validate_cluster sample_rt (env_name (arg_env ?args) @ ''-cluster'') self2 s2
       = (Inr found, self3, s3)"
    "validation_results self3 = validation_results self2 @ [z]"
    "component z = ''cluster-'' @ env_name (arg_env ?args) @ ''-cluster''"
    "run_validations 2 sample_rt ?args (sample_validator Test) sys0 = Some (Inr ap, self3, s3)"
    by blast
  with shared selected
  have continued: "\<exists>self1 s1 ap self2 s2 found self3 s3 xs z.
         validate_shared_folder 2 sample_rt (sample_validator Test) sys0
           = Some (Inr False, self1, s1)
         \<and> validate_use_cases 2 sample_rt ?args False self1 s1 = Some (Inr ap, self2, s2)
         \<and> validation_results self2 = validation_results self1 @ xs
         \<and> map component xs = [''usecase-1'', ''usecase-2'']
         \<and> validate_cluster sample_rt ''test-cluster'' self2 s2 = (Inr found, self3, s3)
         \<and> validation_results self3 = validation_results self2 @ [z]
         \<and> component z = ''cluster-test-cluster''
         \<and> run_validations 2 sample_rt ?args (sample_validator Test) sys0
             = Some (Inr ap, self3, s3)"
    by (intro exI [of _ self1] exI [of _ s1] exI [of _ ap] exI [of _ self2] exI [of _ s2]
          exI [of _ found] exI [of _ self3] exI [of _ s3] exI [of _ xs] exI [of _ z]) simp
  show ?thesis
    by (intro conjI computed listed continued)
qed

subsection \<open>The exit code of the smoke test\<close>

lemma smoke_test_exit_code:
  assumes smoke: "arg_smoke_test a"
    and cred: "has_credentials environ a"
    and run: "main n rt environ a s = Some fin"
    and ex: "exit_status fin = SysExit c"
  shows "c = 0"
proof -
  from main_with_credentials [OF cred, of n rt s] run
  obtain h t where validate: "main_validate n rt a h t s = Some fin" by auto
  from smoke_main_validate [OF smoke, of n rt h t s] validate ex show ?thesis
    by auto
qed

text \<open>
  Claim C1. In smoke-test mode the exit code is to be 0 when the probe of the deployment
  root gives a result and 1 when it gives none. The script keeps the outcome of the smoke
  test in \<^verbatim>\<open>all_passed\<close> and then decides the exit code from the \<^verbatim>\<open>failed\<close> count of the
  report alone, which is 0 in this mode. In the sample, the deployment root of \<^verbatim>\<open>prod\<close> does
  not answer: \<^verbatim>\<open>run_smoke_test\<close> returns \<^verbatim>\<open>False\<close>, the script prints that the connectivity
  failed and that the validation passed, and exits with code 0; for \<^verbatim>\<open>dev\<close>, where the root
  answers, it exits with code 0 as well.
\<close>

theorem smoke_test_failure_exits_zero:
  "fst (run_smoke_test sample_rt (sample_validator Prod) sys0) = False
   \<and> map_option (\<lambda>fin. (exit_status fin, exit_code (exit_status fin),
                         take 2 (rev (stdout (final_sys fin)))))
       (main 0 sample_rt Map.empty (sample_args\<lparr>arg_env := Prod, arg_smoke_test := True\<rparr>) sys0)
     = Some (SysExit 0, 0,
             [newline @ check_mark @ '' Validation PASSED'', replicate 50 CHR ''=''])
   \<and> fst (run_smoke_test sample_rt (sample_validator Dev) sys0) = True
   \<and> map_option (\<lambda>fin. (exit_status fin, exit_code (exit_status fin)))
       (main 0 sample_rt Map.empty (sample_args\<lparr>arg_smoke_test := True\<rparr>) sys0)
     = Some (SysExit 0, 0)"
  by code_simp

subsection \<open>Traversing a workspace given as a tree\<close>

text \<open>
  Against a workspace that serves a proper finite tree, the traversal finishes as soon as
  the nesting allowed exceeds the nesting of the tree; the crawl then gives back the tree
  that is served, and \<^verbatim>\<open>list_notebooks\<close> its notebook leaves, and nothing is printed.
\<close>

lemma nesting_child: "d \<in> set ds \<Longrightarrow> nesting d \<le> foldr max (map nesting ds) 0"
  by (induction ds) auto

lemma unit_world: "(s :: unit sys)\<lparr>world := ()\<rparr> = s"
  by (cases s) simp

lemma served_listing:
  assumes http: "http rt = serve_tree root forest"
    and listed: "map_of (listings root forest) p = Some children"
  shows "make_request rt self ''/workspace/list'' ''POST'' (JDict [(''path'', p)]) s
           = (JDict [(''objects'', JList (map entry_of children))], s)"
  by (simp add: make_request_def try_request_def send_def http serve_tree_def listed
        ok_json_def unit_world)

lemma crawl_served_directory:
  assumes http: "http rt = serve_tree root forest"
    and listed: "map_of (listings root forest) p = Some children"
  shows "crawl (Suc n) rt self p s = crawl_objects n rt self (map entry_of children) s"
  by (simp add: served_listing [OF http listed] truthy_and_in_def)

lemma crawl_objects_served:
  assumes http: "http rt = serve_tree root forest"
    and keys: "distinct (map fst (listings root forest))"
  shows "set (concat (map directories cs)) \<subseteq> set (listings root forest)
           \<Longrightarrow> list_all plain_leaves cs \<Longrightarrow> (\<forall>c \<in> set cs. nesting c \<le> n)
           \<Longrightarrow> crawl_objects n rt self (map entry_of cs) s = Some (Inr cs, s)"
proof (induction n arbitrary: cs rule: less_induct)
  case (less n)
  from less.prems show ?case
  proof (induction cs)
    case Nil
    show ?case by simp
  next
    case (Cons c cs)
    have rest: "crawl_objects n rt self (map entry_of cs) s = Some (Inr cs, s)"
      using Cons.prems by (intro Cons.IH) auto
    show ?case
    proof (cases c)
      case (Notebook p)
      with rest show ?thesis by simp
    next
      case (Other obj)
      with Cons.prems have "plain_object obj" by simp
      then obtain ty where "py_get obj ''object_type'' = Inr ty"
        and "ty \<noteq> JStr ''NOTEBOOK''" and "ty \<noteq> JStr ''DIRECTORY''"
        using py_get_dict [of obj "''object_type''"] by (auto simp add: plain_object_def)
      with Other rest show ?thesis by simp
    next
      case (Directory q ds)
      with Cons.prems have "Suc (foldr max (map nesting ds) 0) \<le> n" by simp
      then obtain n' where n: "n = Suc n'" and bound: "foldr max (map nesting ds) 0 \<le> n'"
        by (cases n) auto
      from bound have deep: "\<forall>d \<in> set ds. nesting d \<le> n'"
        using nesting_child [of _ ds] by (meson le_trans)
      from Cons.prems Directory have member: "(q, ds) \<in> set (listings root forest)"
        and below: "set (concat (map directories ds)) \<subseteq> set (listings root forest)"
        and plain: "list_all plain_leaves ds"
        by auto
      from keys member have listed: "map_of (listings root forest) q = Some ds"
        by (rule map_of_is_SomeI)
      have "crawl_objects n' rt self (map entry_of ds) s = Some (Inr ds, s)"
        using n below plain deep by (intro less.IH) simp_all
      then have "crawl n rt self q s = Some (Inr ds, s)"
        unfolding n crawl_served_directory [OF http listed] .
      with Directory rest show ?thesis
        by (simp del: crawl.simps)
    qed
  qed
qed

lemma crawl_served_tree:
  assumes http: "http rt = serve_tree root forest"
    and proper: "proper_tree root forest"
    and enough: "foldr max (map nesting forest) 0 < n"
  shows "crawl n rt self root s = Some (Inr forest, s)"
    and "list_notebooks n rt self root s = Some (Inr (concat (map notebook_paths forest)), s)"
proof -
  from enough obtain n' where n: "n = Suc n'" and bound: "foldr max (map nesting forest) 0 \<le> n'"
    by (cases n) auto
  from bound have deep: "\<forall>c \<in> set forest. nesting c \<le> n'"
    using nesting_child [of _ forest] by (meson le_trans)
  from proper have keys: "distinct (map fst (listings root forest))"
    and plain: "list_all plain_leaves forest"
    by (simp_all add: proper_tree_def)
  have listed: "map_of (listings root forest) root = Some forest"
    by (simp add: listings_def)
  have below: "set (concat (map directories forest)) \<subseteq> set (listings root forest)"
    by (auto simp add: listings_def)
  from crawl_objects_served [OF http keys below plain deep]
  show tree: "crawl n rt self root s = Some (Inr forest, s)"
    unfolding n crawl_served_directory [OF http listed] .
  show "list_notebooks n rt self root s = Some (Inr (concat (map notebook_paths forest)), s)"
    by (rule list_notebooks_of_crawl [OF tree])
qed

text \<open>An instance: a tree of two notebooks, one of them in a directory beside a file.\<close>

lemma crawl_served_tree_example:
  "list_notebooks 2
     (sample_rt\<lparr>http := serve_tree (JStr ''/r'')
        [Notebook (JStr ''/r/a''),
         Directory (JStr ''/r/d'') [Other (ws_entry ''FILE'' ''/r/d/f''), Notebook (JStr ''/r/d/b'')]]\<rparr>)
     (sample_validator Dev) (JStr ''/r'') sys0
   = Some (Inr [JStr ''/r/a'', JStr ''/r/d/b''], sys0)"
proof -
  let ?forest = "[Notebook (JStr ''/r/a''),
         Directory (JStr ''/r/d'') [Other (ws_entry ''FILE'' ''/r/d/f''), Notebook (JStr ''/r/d/b'')]]"
  let ?rt = "sample_rt\<lparr>http := serve_tree (JStr ''/r'') ?forest\<rparr>"
  have http: "http ?rt = serve_tree (JStr ''/r'') ?forest"
    by simp
  have proper: "proper_tree (JStr ''/r'') ?forest"
    by (simp add: proper_tree_def listings_def plain_object_def ws_entry_def)
  have enough: "foldr max (map nesting ?forest) 0 < 2"
    by simp
  from crawl_served_tree(2) [OF http proper enough, of "sample_validator Dev" sys0]
  show ?thesis by simp
qed

subsection \<open>A run during an outage\<close>

text \<open>
  When every request fails in transport, every folder check fails and the cluster check
  warns; the full validation still runs all its checks, whatever nesting is allowed,
  produces the report and exits with code 1.
\<close>

lemma outage_request:
  assumes down: "\<And>w req. isl (fst (http rt w req))"
  shows "fst (make_request rt self endpoint meth data s) = JNull"
proof -
  have sent: "\<And>req. \<exists>e s1. send rt req s = (Inl e, s1)"
  proof -
    fix req
    obtain r w' where reply: "http rt (world s) req = (r, w')" by (cases "http rt (world s) req")
    with down [of "world s" req] obtain e where "r = Inl e"
      by (cases r) simp_all
    with reply show "\<exists>e s1. send rt req s = (Inl e, s1)"
      by (simp add: send_def)
  qed
  show ?thesis
  proof (cases "meth = ''GET''")
    case True
    from sent obtain e s1 where
      "send rt \<lparr> req_method = ''GET'', req_url = host self @ normalize_endpoint endpoint,
                 req_headers = headers self, req_json = JNull \<rparr> s = (Inl e, s1)"
      by blast
    with True show ?thesis
      by (simp add: make_request_def try_request_def)
  next
    case other: False
    show ?thesis
    proof (cases "meth = ''POST''")
      case True
      from sent obtain e s1 where
        "send rt \<lparr> req_method = ''POST'', req_url = host self @ normalize_endpoint endpoint,
                   req_headers = headers self, req_json = data \<rparr> s = (Inl e, s1)"
        by blast
      with True show ?thesis
        by (simp add: make_request_def try_request_def)
    next
      case False
      with other show ?thesis
        by (simp add: make_request_def try_request_def)
    qed
  qed
qed

lemma outage_probe:
  assumes down: "\<And>w req. isl (fst (http rt w req))"
  shows "\<exists>s2. check_path_exists rt self path s = (Inr False, s2)"
proof -
  obtain response s1 where
    req: "make_request rt self ''/workspace/get-status'' ''POST'' (JDict [(''path'', JStr path)]) s
            = (response, s1)"
    by (cases "make_request rt self ''/workspace/get-status'' ''POST'' (JDict [(''path'', JStr path)]) s")
  with outage_request [OF down, of self "''/workspace/get-status''" "''POST''"
         "JDict [(''path'', JStr path)]" s]
  have "response = JNull" by simp
  with req show ?thesis
    by (simp add: check_path_exists_reply truthy_and_in_def)
qed

lemma outage_use_case:
  assumes down: "\<And>w req. isl (fst (http rt w req))"
  shows "\<exists>x s2. validate_use_case n rt uc self s = Some (Inr False, append_result x self, s2)
                \<and> component x = uc \<and> status x = ''FAILED''"
proof -
  from outage_probe [OF down, of self "use_case_path self uc" "entering_use_case uc s"]
  obtain s2 where "check_path_exists rt self (use_case_path self uc) (entering_use_case uc s)
                     = (Inr False, s2)" by blast
  note absent = use_case_absent [OF this, of n]
  show ?thesis
    by (rule exI, rule exI, rule conjI, rule absent, simp)
qed

lemma outage_shared:
  assumes down: "\<And>w req. isl (fst (http rt w req))"
  shows "\<exists>x s2. validate_shared_folder n rt self s = Some (Inr False, append_result x self, s2)
                \<and> component x = ''shared'' \<and> status x = ''FAILED''"
proof -
  from outage_probe [OF down, of self "shared_path self" "entering_shared s"]
  obtain s2 where "check_path_exists rt self (shared_path self) (entering_shared s)
                     = (Inr False, s2)" by blast
  note absent = shared_absent [OF this, of n]
  show ?thesis
    by (rule exI, rule exI, rule conjI, rule absent, simp)
qed

lemma outage_cluster:
  assumes down: "\<And>w req. isl (fst (http rt w req))"
  shows "\<exists>x s2. validate_cluster rt cluster_name self s = (Inr False, append_result x self, s2)
                \<and> component x = ''cluster-'' @ cluster_name \<and> status x = ''WARNING''"
proof -
  obtain response s2 where
    req: "make_request rt self ''/clusters/list'' ''GET'' JNull (entering_cluster cluster_name s)
            = (response, s2)"
    by (cases "make_request rt self ''/clusters/list'' ''GET'' JNull (entering_cluster cluster_name s)")
  with outage_request [OF down, of self "''/clusters/list''" "''GET''" JNull
         "entering_cluster cluster_name s"]
  have "response = JNull" by simp
  then have "validate_cluster rt cluster_name self s =
      (Inr False,
       append_result
         \<lparr> component = ''cluster-'' @ cluster_name, status = ''WARNING'',
           message = ''Cluster '' @ cluster_name @ '' not found'',
           notebooks = None, cluster_state = None \<rparr> self,
       print (''  '' @ warning_sign @ ''  Cluster '' @ cluster_name @ '' not found'') s2)"
    by (simp add: validate_cluster_reply [OF req] truthy_and_in_def cluster_not_found_def)
  then show ?thesis
    by (intro exI conjI) (assumption, simp_all)
qed

lemma outage_use_cases:
  assumes down: "\<And>w req. isl (fst (http rt w req))"
  shows "\<exists>xs self' s'. validate_use_cases n rt a False self s = Some (Inr False, self', s')
           \<and> validation_results self' = validation_results self @ xs
           \<and> map component xs = selected_use_cases a
           \<and> list_all (\<lambda>x. status x = ''FAILED'') xs"
proof (cases "arg_validate_all a \<or> arg_use_case a = Some UsecaseAll")
  case True
  from outage_use_case [OF down, of n "''usecase-1''" self s] obtain x1 s1 where
    first: "validate_use_case n rt ''usecase-1'' self s = Some (Inr False, append_result x1 self, s1)"
    and x1: "component x1 = ''usecase-1''" "status x1 = ''FAILED''" by blast
  from outage_use_case [OF down, of n "''usecase-2''" "append_result x1 self" s1] obtain x2 s2 where
    second: "validate_use_case n rt ''usecase-2'' (append_result x1 self) s1
               = Some (Inr False, append_result x2 (append_result x1 self), s2)"
    and x2: "component x2 = ''usecase-2''" "status x2 = ''FAILED''" by blast
  from True first second
  have "validate_use_cases n rt a False self s
          = Some (Inr False, append_result x2 (append_result x1 self), s2)"
    by (simp add: validate_use_cases_def and_then_def)
  with True x1 x2 show ?thesis
    by (intro exI [of _ "[x1, x2]"]) (simp add: append_result_def selected_use_cases_def)
next
  case False
  show ?thesis
  proof (cases "arg_use_case a")
    case None
    with False show ?thesis
      by (simp add: validate_use_cases_def selected_use_cases_def)
  next
    case (Some uc)
    from outage_use_case [OF down, of n "use_case_name uc" self s] obtain x s1 where
      first: "validate_use_case n rt (use_case_name uc) self s
                = Some (Inr False, append_result x self, s1)"
      and x: "component x = use_case_name uc" "status x = ''FAILED''" by blast
    from False Some first
    have "validate_use_cases n rt a False self s = Some (Inr False, append_result x self, s1)"
      by (simp add: validate_use_cases_def and_then_def)
    with False Some x show ?thesis
      by (intro exI [of _ "[x]"]) (simp add: append_result_def selected_use_cases_def)
  qed
qed

lemma outage_run_completes:
  assumes down: "\<And>w req. isl (fst (http rt w req))"
    and full: "\<not> arg_smoke_test a"
    and cred: "has_credentials environ a"
    and unsaved: "arg_output_json a = None"
  shows "\<exists>fin rep. main n rt environ a s = Some fin \<and> exit_status fin = SysExit 1
           \<and> final_report fin = Some rep
           \<and> map component (rep_validation_results rep) = expected_components a
           \<and> failed (rep_summary rep) = Suc (length (selected_use_cases a))
           \<and> warnings (rep_summary rep) = 1"
proof -
  from main_with_credentials [OF cred, of n rt s] obtain h t where
    main: "main n rt environ a s = main_validate n rt a h t s" by blast
  let ?v = "init_validator h t (env_name (arg_env a))"
  let ?s1 = "print_banner a h ?v s"
  from outage_shared [OF down, of n ?v ?s1] obtain x s2 where
    shared: "validate_shared_folder n rt ?v ?s1 = Some (Inr False, append_result x ?v, s2)"
    and x: "component x = ''shared''" "status x = ''FAILED''" by blast
  from outage_use_cases [OF down, of n a "append_result x ?v" s2] obtain ys self2 s3 where
    cases: "validate_use_cases n rt a False (append_result x ?v) s2 = Some (Inr False, self2, s3)"
    and ys: "validation_results self2 = validation_results (append_result x ?v) @ ys"
      "map component ys = selected_use_cases a" "list_all (\<lambda>x. status x = ''FAILED'') ys"
    by blast
  from outage_cluster [OF down, of "env_name (arg_env a) @ ''-cluster''" self2 s3]
  obtain z s4 where
    cluster: "validate_cluster rt (env_name (arg_env a) @ ''-cluster'') self2 s3
                = (Inr False, append_result z self2, s4)"
    and z: "component z = ''cluster-'' @ env_name (arg_env a) @ ''-cluster''"
      "status z = ''WARNING''" by blast
  from full shared cases cluster
  have run: "run_validations n rt a ?v ?s1 = Some (Inr False, append_result z self2, s4)"
    by (simp add: run_validations_def and_then_def)
  have results: "validation_results (append_result z self2) = x # ys @ [z]"
    using ys by (simp add: append_result_def init_validator_results)
  from ys(3) have all_failed: "filter (\<lambda>r. status r = ''FAILED'') ys = ys"
    and none_warn: "filter (\<lambda>r. status r = ''WARNING'') ys = []"
    by (induction ys) auto
  from ys(2) have len: "length ys = length (selected_use_cases a)"
    by (metis length_map)
  obtain rp s5 where gen: "generate_report rt (append_result z self2) s4 = (rp, s5)"
    by (cases "generate_report rt (append_result z self2) s4")
  with generate_report_fields [of rt "append_result z self2" s4] results x z ys(2)
  have fields: "map component (rep_validation_results rp) = expected_components a"
    "failed (rep_summary rp) = Suc (length (selected_use_cases a))"
    "warnings (rep_summary rp) = 1"
    by (simp_all add: expected_components_def count_status_def all_failed none_warn len)
  from run gen fields unsaved
  have "main_validate n rt a h t s
          = Some \<lparr> exit_status = SysExit 1, final_report = Some rp,
                   final_sys = print (newline @ cross_mark @ '' Validation FAILED'')
                                 (print_summary rp s5) \<rparr>"
    by (simp add: main_validate_def Let_def save_report_def)
  with main fields show ?thesis by simp
qed

text \<open>An instance: the sample with a transport that always fails.\<close>

lemma outage_run_example:
  "\<exists>fin rep. main 0 (sample_rt\<lparr>http := \<lambda>w req. (Inl ''no route to host'', w)\<rparr>) Map.empty
                 sample_args sys0 = Some fin
      \<and> exit_status fin = SysExit 1 \<and> final_report fin = Some rep
      \<and> map component (rep_validation_results rep)
          = [''shared'', ''usecase-1'', ''usecase-2'', ''cluster-dev-cluster'']
      \<and> failed (rep_summary rep) = 3 \<and> warnings (rep_summary rep) = 1"
proof -
  let ?rt = "sample_rt\<lparr>http := \<lambda>w req. (Inl ''no route to host'', w)\<rparr>"
  have down: "\<And>w req. isl (fst (http ?rt w req))"
    by simp
  have full: "\<not> arg_smoke_test sample_args" and unsaved: "arg_output_json sample_args = None"
    by (simp_all add: sample_args_def)
  have cred: "has_credentials Map.empty sample_args"
    by (simp add: has_credentials_def sample_args_def)
  from outage_run_completes [of ?rt, OF down full cred unsaved, of 0 sys0]
  show ?thesis
    by (simp add: expected_components_def selected_use_cases_def sample_args_def
          numeral_3_eq_3)
qed

end
